(* ===== verification/Prelude.thy ===== *)
theory Prelude
  imports
    Complex_Main
    "HOL-Library.AList"
    "HOL-Library.Word"
    "HOL-Library.Char_ord"
    "HOL-Library.List_Lexorder"
    "HOL-Library.Sublist"
    "HOL-Library.Multiset"
begin

text \<open>
  Shared material of the development: names for the Go types the program uses, the parts of
  the Go standard library its core calls (decimal printing, hexadecimal encoding, string
  splitting and trimming), and generic lemmas on association lists and folds.

  Go strings and byte slices are byte sequences; both are \<^typ>\<open>string\<close> here, since a
  \<^typ>\<open>char\<close> is one byte. Comparison of Go strings is bytewise lexicographic, which is the
  order that \<open>List_Lexorder\<close> and \<open>Char_ord\<close> put on \<^typ>\<open>string\<close>. An \<open>int32\<close> is a
  \<open>32 word\<close> read with \<^const>\<open>sint\<close>, a \<open>uint64\<close> a \<open>64 word\<close> read with \<^const>\<open>unat\<close>. A
  \<open>time.Time\<close> is an \<^typ>\<open>int\<close>, the nanoseconds since the Unix epoch; a
  \<open>*timestamppb.Timestamp\<close> may be nil and is an option of that.
\<close>

section \<open>Types\<close>

type_synonym bytes = string
type_synonym uint64 = "64 word"
type_synonym int32 = "32 word"
type_synonym time = int
type_synonym timestamp = "time option"
type_synonym strmap = "string \<rightharpoonup> string"

text \<open>\<open>(*timestamppb.Timestamp).AsTime\<close>: a nil timestamp reads as the Unix epoch.\<close>

definition AsTime :: "timestamp \<Rightarrow> time" where
  "AsTime ts = (case ts of None \<Rightarrow> 0 | Some t \<Rightarrow> t)"

lemma AsTime_simps [simp]: "AsTime None = 0" "AsTime (Some t) = t"
  by (simp_all add: AsTime_def)

abbreviation (input) NUL :: string where
  "NUL \<equiv> [CHR 0x00]"

section \<open>Composite keys\<close>

text \<open>
  The stores join key components with a NUL byte. A join determines its parts as long as the
  parts in front of a separator do not contain it.
\<close>

lemma append_sep_inject:
  "c \<notin> set xs \<Longrightarrow> c \<notin> set ys \<Longrightarrow> xs @ c # zs = ys @ c # us \<longleftrightarrow> xs = ys \<and> zs = us"
  by (induction xs arbitrary: ys) (case_tac ys; auto)+

section \<open>Decimal and hexadecimal printing\<close>

text \<open>\<open>strconv.Itoa\<close>, \<open>strconv.FormatUint(_, 10)\<close> and the \<open>%d\<close> verb.\<close>

definition digit :: "nat \<Rightarrow> char" where
  "digit d = char_of (48 + d)"

fun FormatUint :: "nat \<Rightarrow> string" where
  "FormatUint n = (if n < 10 then [digit n] else FormatUint (n div 10) @ [digit (n mod 10)])"

declare FormatUint.simps [simp del]

definition Itoa :: "int \<Rightarrow> string" where
  "Itoa i = (if i < 0 then CHR ''-'' # FormatUint (nat (- i)) else FormatUint (nat i))"

definition FormatBool :: "bool \<Rightarrow> string" where
  "FormatBool b = (if b then ''true'' else ''false'')"

text \<open>Reading the digits back shows that printing is injective.\<close>

definition digit_val :: "char \<Rightarrow> nat" where
  "digit_val c = of_char c - 48"

definition digits_val :: "string \<Rightarrow> nat" where
  "digits_val s = foldl (\<lambda>n c. 10 * n + digit_val c) 0 s"

lemma digit_val_digit [simp]: "d < 10 \<Longrightarrow> digit_val (digit d) = d"
  by (simp add: digit_val_def digit_def of_char_of)

lemma digits_val_snoc [simp]: "digits_val (s @ [c]) = 10 * digits_val s + digit_val c"
  by (simp add: digits_val_def)

lemma digits_val_FormatUint [simp]: "digits_val (FormatUint n) = n"
proof (induction n rule: FormatUint.induct)
  case (1 n)
  show ?case
  proof (cases "n < 10")
    case True
    then have "digits_val ([] @ [digit n]) = n"
      by (simp only: digits_val_snoc) (simp add: digits_val_def)
    with True show ?thesis by (subst FormatUint.simps) simp
  next
    case False
    with 1 show ?thesis by (subst FormatUint.simps) simp
  qed
qed

lemma FormatUint_inject [simp]: "FormatUint m = FormatUint n \<longleftrightarrow> m = n"
  by (metis digits_val_FormatUint)

definition is_digit :: "char \<Rightarrow> bool" where
  "is_digit c \<longleftrightarrow> 48 \<le> (of_char c :: nat) \<and> (of_char c :: nat) \<le> 57"

lemma is_digit_digit [simp]: "d < 10 \<Longrightarrow> is_digit (digit d)"
  by (simp add: is_digit_def digit_def of_char_of)

lemma FormatUint_digits: "c \<in> set (FormatUint n) \<Longrightarrow> is_digit c"
proof (induction n rule: FormatUint.induct)
  case (1 n)
  then show ?case by (subst (asm) (2) FormatUint.simps) (auto split: if_splits)
qed

lemma FormatUint_nonempty [simp]: "FormatUint n \<noteq> []"
  by (subst FormatUint.simps) simp

lemma not_digit_minus: "CHR ''-'' # s \<noteq> FormatUint n"
proof
  assume "CHR ''-'' # s = FormatUint n"
  then have "is_digit (CHR ''-'')"
    by (metis FormatUint_digits list.set_intros(1))
  then show False by (simp add: is_digit_def)
qed

lemma Itoa_inject [simp]: "Itoa i = Itoa j \<longleftrightarrow> i = j"
  using not_digit_minus by (auto simp: Itoa_def eq_commute [of "FormatUint _" "_ # _"])

text \<open>\<open>hex.EncodeToString\<close>\<close>

definition hex_digit :: "nat \<Rightarrow> char" where
  "hex_digit d = (if d < 10 then char_of (48 + d) else char_of (87 + d))"

fun EncodeToString :: "bytes \<Rightarrow> string" where
  "EncodeToString [] = []"
| "EncodeToString (c # cs) =
     hex_digit (of_char c div 16) # hex_digit (of_char c mod 16) # EncodeToString cs"

lemma hex_digit_inject: "a < 16 \<Longrightarrow> b < 16 \<Longrightarrow> hex_digit a = hex_digit b \<longleftrightarrow> a = b"
  by (auto simp: hex_digit_def split: if_splits)

lemma hex_pair_inject:
  fixes a b :: char
  shows "hex_digit (of_char a div 16) = hex_digit (of_char b div 16) \<and>
    hex_digit (of_char a mod 16) = hex_digit (of_char b mod 16) \<longleftrightarrow> a = b"
proof -
  have lt: "(of_char c :: nat) div 16 < 16" for c :: char
    using nat_of_char_less_256 [of c] by (simp add: less_mult_imp_div_less)
  have "(of_char a :: nat) div 16 = of_char b div 16 \<and> (of_char a :: nat) mod 16 = of_char b mod 16
      \<longleftrightarrow> (of_char a :: nat) = of_char b"
    by (metis div_mult_mod_eq)
  then show ?thesis by (simp add: hex_digit_inject lt)
qed

lemma EncodeToString_inject [simp]: "EncodeToString a = EncodeToString b \<longleftrightarrow> a = b"
proof (induction a arbitrary: b)
  case Nil
  show ?case by (cases b) auto
next
  case (Cons x xs)
  show ?case
  proof (cases b)
    case (Cons y ys)
    then show ?thesis using Cons.IH [of ys] hex_pair_inject [of x y] by auto
  qed simp
qed

end
