(* ===== verification/Watch.thy ===== *)
theory Watch
  imports Prelude
begin

text \<open>
  The bounded publish/subscribe broker of \<^verbatim>\<open>internal/controlplane/watch/broker.go\<close>.

  A subscriber's Go channel of capacity \<open>buffer\<close> is the list of queued events; a
  \<open>select\<close> with a \<open>default\<close> branch is a test of the queue length. \<open>Publish\<close>, \<open>Subscribe\<close>
  and \<open>Cancel\<close> run under the broker's mutex, so they exclude each other; the reader of a
  channel does not take the mutex and receives with the separate step \<open>Recv\<close>, or in between
  the \<open>select\<close> statements of a publication (\<open>publish_race\<close>). Interleavings are sequences of
  these steps.
  A subscriber is identified by the number of the allocation that made it, which stands for
  its pointer. Logging is left out.
\<close>

section \<open>The broker\<close>

datatype Kind = KindUnspecified | KindAdded | KindUpdated | KindRemoved | KindResync

record 'a Event =
  ev_Kind :: Kind
  ev_Before :: "'a option"
  ev_After :: "'a option"
  ev_RaftIndex :: uint64

record 'a subscriberState =
  sub_id :: nat
  sub_ch :: "'a Event list"
  sub_closed :: bool

record 'a Broker =
  br_subscribers :: "'a subscriberState list"
  br_buffer :: nat
  br_next :: nat

definition DefaultBuffer :: nat where
  "DefaultBuffer = 256"

definition NewBroker :: "int \<Rightarrow> 'a Broker" where
  "NewBroker buf = \<lparr>br_subscribers = [],
     br_buffer = (if buf \<le> 0 then DefaultBuffer else nat buf), br_next = 0\<rparr>"

definition Subscribe :: "'a Broker \<Rightarrow> nat \<times> 'a Broker" where
  "Subscribe b = (br_next b,
     b\<lparr>br_subscribers := br_subscribers b @
          [\<lparr>sub_id = br_next b, sub_ch = [], sub_closed = False\<rparr>],
       br_next := Suc (br_next b)\<rparr>)"

text \<open>
  \<open>Cancel\<close> gives the closed channel back: the reader may still drain what is queued there.
  A second call finds no subscriber and does nothing.
\<close>

definition Cancel :: "nat \<Rightarrow> 'a Broker \<Rightarrow> 'a subscriberState option \<times> 'a Broker" where
  "Cancel i b =
     (case find (\<lambda>s. sub_id s = i) (br_subscribers b) of
        None \<Rightarrow> (None, b)
      | Some s \<Rightarrow> (Some (s\<lparr>sub_closed := True\<rparr>),
          b\<lparr>br_subscribers := filter (\<lambda>s. sub_id s \<noteq> i) (br_subscribers b)\<rparr>))"

definition ResyncEvent :: "'a Event" where
  "ResyncEvent = \<lparr>ev_Kind = KindResync, ev_Before = None, ev_After = None, ev_RaftIndex = 0\<rparr>"

text \<open>
  One turn of the loop in \<open>Publish\<close>: the three \<open>select\<close> statements in order. When the queue is
  full the reader may take \<open>r1\<close> events before the oldest is dropped and \<open>r2\<close> events before the
  Resync is queued; the events it takes are returned.
\<close>

definition publish_race :: "nat \<Rightarrow> 'a Event \<Rightarrow> nat \<Rightarrow> nat \<Rightarrow> 'a subscriberState
    \<Rightarrow> 'a Event list \<times> 'a subscriberState" where
  "publish_race cap e r1 r2 s =
     (if sub_closed s then ([], s)
      else if length (sub_ch s) < cap then ([], s\<lparr>sub_ch := sub_ch s @ [e]\<rparr>)
      else (let taken1 = take r1 (sub_ch s); q1 = tl (drop r1 (sub_ch s));
                taken2 = take r2 q1; q2 = drop r2 q1
            in (taken1 @ taken2,
                if length q2 < cap then s\<lparr>sub_ch := q2 @ [ResyncEvent]\<rparr> else s\<lparr>sub_ch := q2\<rparr>)))"

text \<open>The turn with no reader in between.\<close>

definition publish_one :: "nat \<Rightarrow> 'a Event \<Rightarrow> 'a subscriberState \<Rightarrow> 'a subscriberState" where
  "publish_one cap e s = snd (publish_race cap e 0 0 s)"

definition Publish :: "'a Event \<Rightarrow> 'a Broker \<Rightarrow> 'a Broker" where
  "Publish e b = b\<lparr>br_subscribers := map (publish_one (br_buffer b) e) (br_subscribers b)\<rparr>"

definition SubscriberCount :: "'a Broker \<Rightarrow> nat" where
  "SubscriberCount b = length (br_subscribers b)"

text \<open>A reader receives from its channel: the oldest queued event, if there is one.\<close>

definition recv_one :: "'a subscriberState \<Rightarrow> 'a Event option \<times> 'a subscriberState" where
  "recv_one s = (case sub_ch s of [] \<Rightarrow> (None, s) | e # q \<Rightarrow> (Some e, s\<lparr>sub_ch := q\<rparr>))"

section \<open>Bounds\<close>

definition broker_ok :: "'a Broker \<Rightarrow> bool" where
  "broker_ok b \<longleftrightarrow> 0 < br_buffer b
     \<and> (\<forall>s \<in> set (br_subscribers b). length (sub_ch s) \<le> br_buffer b
          \<and> \<not> sub_closed s \<and> sub_id s < br_next b)
     \<and> distinct (map sub_id (br_subscribers b))"

lemma broker_ok_New [simp]: "broker_ok (NewBroker buf)"
  by (simp add: broker_ok_def NewBroker_def DefaultBuffer_def)

lemma broker_ok_Subscribe: "broker_ok b \<Longrightarrow> broker_ok (snd (Subscribe b))"
  by (fastforce simp: broker_ok_def Subscribe_def)

lemma broker_ok_Cancel: "broker_ok b \<Longrightarrow> broker_ok (snd (Cancel i b))"
  by (auto simp: broker_ok_def Cancel_def distinct_map_filter split: option.split)

lemma sub_publish_race [simp]:
  "sub_id (snd (publish_race cap e r1 r2 s)) = sub_id s"
  "sub_closed (snd (publish_race cap e r1 r2 s)) = sub_closed s"
  by (simp_all add: publish_race_def Let_def)

lemma publish_race_length:
  "0 < cap \<Longrightarrow> length (sub_ch s) \<le> cap \<Longrightarrow> length (sub_ch (snd (publish_race cap e r1 r2 s))) \<le> cap"
  by (cases "sub_ch s") (auto simp: publish_race_def Let_def)

lemma sub_id_publish_one [simp]: "sub_id (publish_one cap e s) = sub_id s"
  by (simp add: publish_one_def)

lemma sub_closed_publish_one [simp]: "sub_closed (publish_one cap e s) = sub_closed s"
  by (simp add: publish_one_def)

lemma publish_one_length:
  "0 < cap \<Longrightarrow> length (sub_ch s) \<le> cap \<Longrightarrow> length (sub_ch (publish_one cap e s)) \<le> cap"
  by (simp add: publish_one_def publish_race_length)

lemma map_sub_id_publish [simp]: "map sub_id (map (publish_one cap e) ss) = map sub_id ss"
  by (induction ss) auto

lemma broker_ok_Publish: "broker_ok b \<Longrightarrow> broker_ok (Publish e b)"
  by (auto simp: broker_ok_def Publish_def publish_one_length simp del: map_map
      simp add: map_sub_id_publish)

lemma Publish_count [simp]: "SubscriberCount (Publish e b) = SubscriberCount b"
  by (simp add: SubscriberCount_def Publish_def)

text \<open>
  \<open>Cancel\<close> after \<open>Subscribe\<close> restores the broker's subscriber set, and a second \<open>Cancel\<close> is a
  no-op.
\<close>

lemma Cancel_Subscribe:
  assumes "broker_ok b"
  shows "br_subscribers (snd (Cancel (fst (Subscribe b)) (snd (Subscribe b)))) = br_subscribers b"
proof -
  have "\<forall>s \<in> set (br_subscribers b). sub_id s \<noteq> br_next b"
    using assms by (auto simp: broker_ok_def)
  then show ?thesis
    by (auto simp: Cancel_def Subscribe_def find_None_iff split: option.split)
qed

lemma Cancel_twice: "snd (Cancel i (snd (Cancel i b))) = snd (Cancel i b)"
  by (auto simp: Cancel_def find_None_iff find_Some_iff split: option.split)

section \<open>What a subscriber sees\<close>

text \<open>
  The life of one live subscriber is a sequence of publications and receptions; a publication
  names how many events the reader takes in its midst. \<open>run_sub\<close> returns the events received,
  in order, and the final subscriber state.
\<close>

datatype 'a sub_action = Pub "'a Event" nat nat | Recv

fun run_sub :: "nat \<Rightarrow> 'a subscriberState \<Rightarrow> 'a sub_action list
    \<Rightarrow> 'a Event list \<times> 'a subscriberState" where
  "run_sub cap s [] = ([], s)"
| "run_sub cap s (Pub e r1 r2 # as) =
     (let (taken, s') = publish_race cap e r1 r2 s; (es, s'') = run_sub cap s' as
      in (taken @ es, s''))"
| "run_sub cap s (Recv # as) =
     (case recv_one s of
        (None, s') \<Rightarrow> run_sub cap s' as
      | (Some e, s') \<Rightarrow> (let (es, s'') = run_sub cap s' as in (e # es, s'')))"

fun published :: "'a sub_action list \<Rightarrow> 'a Event list" where
  "published [] = []"
| "published (Pub e r1 r2 # as) = e # published as"
| "published (Recv # as) = published as"

text \<open>The stream a subscriber sees: everything received, then everything still queued.\<close>

definition sub_stream :: "nat \<Rightarrow> 'a subscriberState \<Rightarrow> 'a sub_action list \<Rightarrow> 'a Event list" where
  "sub_stream cap s as = (let (es, s') = run_sub cap s as in es @ sub_ch s')"

definition is_resync :: "'a Event \<Rightarrow> bool" where
  "is_resync e \<longleftrightarrow> ev_Kind e = KindResync"

lemma is_resync_ResyncEvent [simp]: "is_resync ResyncEvent"
  by (simp add: is_resync_def ResyncEvent_def)

text \<open>The events after the last Resync of a stream.\<close>

definition since_resync :: "'a Event list \<Rightarrow> 'a Event list" where
  "since_resync es = rev (takeWhile (\<lambda>e. \<not> is_resync e) (rev es))"

lemma since_resync_snoc [simp]:
  "since_resync (es @ [e]) = (if is_resync e then [] else since_resync es @ [e])"
  by (simp add: since_resync_def)

lemma since_resync_Nil [simp]: "since_resync [] = []"
  by (simp add: since_resync_def)

lemma since_resync_none: "\<forall>e \<in> set es. \<not> is_resync e \<Longrightarrow> since_resync es = es"
  by (simp add: since_resync_def takeWhile_eq_all_conv [THEN iffD2])

text \<open>
  The faithful-stream relation between what was published so far and what the subscriber
  received or will receive: without a Resync it is everything, and after the last Resync it
  is an unbroken run of the latest publications.
\<close>

definition faithful :: "'a Event list \<Rightarrow> 'a Event list \<Rightarrow> bool" where
  "faithful pub str \<longleftrightarrow>
     ((\<forall>e \<in> set str. \<not> is_resync e) \<longrightarrow> str = pub) \<and> suffix (since_resync str) pub"

lemma faithful_Nil: "faithful [] []"
  by (simp add: faithful_def)

lemma faithful_deliver:
  "faithful pub str \<Longrightarrow> \<not> is_resync e \<Longrightarrow> faithful (pub @ [e]) (str @ [e])"
  by (auto simp: faithful_def suffix_def)

lemma faithful_resync: "faithful pub (str @ [ResyncEvent])"
  by (simp add: faithful_def)

lemma publish_race_faithful:
  assumes "faithful pub (rcv @ sub_ch s)" "\<not> sub_closed s" "0 < cap"
    "length (sub_ch s) \<le> cap" "\<not> is_resync e" "publish_race cap e r1 r2 s = (taken, s')"
  shows "faithful (pub @ [e]) (rcv @ taken @ sub_ch s')"
proof (cases "length (sub_ch s) < cap")
  case True
  with assms(2,6) have "rcv @ taken @ sub_ch s' = (rcv @ sub_ch s) @ [e]"
    by (auto simp: publish_race_def)
  with faithful_deliver [OF assms(1,5)] show ?thesis by simp
next
  case False
  let ?q = "tl (drop r1 (sub_ch s))"
  from False assms(2-4,6) have
    "rcv @ taken @ sub_ch s' = (rcv @ take r1 (sub_ch s) @ take r2 ?q @ drop r2 ?q) @ [ResyncEvent]"
    by (auto simp: publish_race_def Let_def split: if_splits)
  then show ?thesis by (simp only: faithful_resync)
qed

lemma run_sub_faithful:
  assumes "faithful pub (rcv @ sub_ch s)" "\<not> sub_closed s" "0 < cap"
    "length (sub_ch s) \<le> cap" "\<forall>e \<in> set (published as). \<not> is_resync e"
  shows "faithful (pub @ published as) (rcv @ sub_stream cap s as)"
  using assms
proof (induction cap s as arbitrary: pub rcv rule: run_sub.induct)
  case (1 cap s)
  then show ?case by (simp add: sub_stream_def)
next
  case (2 cap s e r1 r2 as)
  obtain taken s' where r: "publish_race cap e r1 r2 s = (taken, s')" by force
  from "2.prems" r have step: "faithful (pub @ [e]) ((rcv @ taken) @ sub_ch s')"
    using publish_race_faithful [of pub rcv s cap e r1 r2 taken s'] by simp
  moreover from "2.prems" r have "length (sub_ch s') \<le> cap" "\<not> sub_closed s'"
    using publish_race_length [of cap s e r1 r2] sub_publish_race(2) [of cap e r1 r2 s] by simp_all
  ultimately have
    "faithful ((pub @ [e]) @ published as) ((rcv @ taken) @ sub_stream cap s' as)"
    using "2.prems" by (intro "2.IH" [OF r [symmetric] refl]) auto
  then show ?case by (simp add: sub_stream_def r split: prod.splits)
next
  case (3 cap s as)
  show ?case
  proof (cases "sub_ch s")
    case Nil
    then have r: "recv_one s = (None, s)" by (simp add: recv_one_def)
    from "3.prems" have "faithful (pub @ published as) (rcv @ sub_stream cap s as)"
      by (intro "3.IH"(1) [OF r [symmetric] refl]) auto
    with r show ?thesis by (simp add: sub_stream_def)
  next
    case (Cons e q)
    then have r: "recv_one s = (Some e, s\<lparr>sub_ch := q\<rparr>)" by (simp add: recv_one_def)
    from "3.prems" Cons
    have "faithful (pub @ published as) ((rcv @ [e]) @ sub_stream cap (s\<lparr>sub_ch := q\<rparr>) as)"
      by (intro "3.IH"(2) [OF r [symmetric] refl]) auto
    with r show ?thesis by (simp add: sub_stream_def split: prod.splits)
  qed
qed

section \<open>No silent loss\<close>

definition fresh_subscriber :: "nat \<Rightarrow> 'a subscriberState" where
  "fresh_subscriber i = \<lparr>sub_id = i, sub_ch = [], sub_closed = False\<rparr>"

lemma fresh_faithful:
  assumes "0 < cap" "\<forall>e \<in> set (published as). \<not> is_resync e"
  shows "faithful (published as) (sub_stream cap (fresh_subscriber i) as)"
  using run_sub_faithful [of "[]" "[]" "fresh_subscriber i" cap as] assms
  by (simp add: fresh_subscriber_def faithful_Nil)

text \<open>
  C7. A slow subscriber never loses an event without being told: however publications and
  receptions interleave, a stream without a Resync is exactly what was published, and the
  events after the last Resync are the most recent publications without a gap.
\<close>

theorem subscriber_no_silent_loss:
  assumes "0 < cap" "\<forall>e \<in> set (published as). \<not> is_resync e"
    and "stream = sub_stream cap (fresh_subscriber i) as"
  shows "((\<exists>e \<in> set stream. is_resync e) \<or> stream = published as)
    \<and> suffix (since_resync stream) (published as)"
  using fresh_faithful [OF assms(1,2), of i] assms(3) by (auto simp: faithful_def)

definition ex_event :: "nat \<Rightarrow> nat Event" where
  "ex_event n = \<lparr>ev_Kind = KindAdded, ev_Before = None, ev_After = Some n, ev_RaftIndex = 1\<rparr>"

theorem subscriber_no_silent_loss_witness:
  "sub_stream 2 (fresh_subscriber 0) [Pub (ex_event 1) 0 0, Pub (ex_event 2) 0 0, Pub (ex_event 3) 1 0, Pub (ex_event 4) 0 0]
     = [ex_event 1, ResyncEvent, ex_event 4]
   \<and> suffix (since_resync [ex_event 1, ResyncEvent, ex_event 4]) [ex_event 1, ex_event 2, ex_event 3, ex_event 4]"
proof -
  let ?as = "[Pub (ex_event 1) 0 0, Pub (ex_event 2) 0 0, Pub (ex_event 3) 1 0, Pub (ex_event 4) 0 0]"
  have "sub_stream 2 (fresh_subscriber 0) ?as = [ex_event 1, ResyncEvent, ex_event 4]"
    by (simp add: sub_stream_def fresh_subscriber_def publish_race_def)
  then show ?thesis
    using subscriber_no_silent_loss [of 2 ?as _ 0] by (simp add: ex_event_def is_resync_def)
qed

end
