(* ===== verification/Store.thy ===== *)
theory Store
  imports Watch
begin

text \<open>
  The generic typed entity store of \<^verbatim>\<open>internal/controlplane/state/store.go\<close>.

  The Go map \<open>byKey\<close> is an association list with distinct keys. Its order is the iteration
  order of one run; Go leaves that order unspecified, so every lemma below speaks about the
  finite map \<^term>\<open>Store_Get\<close> and never about the list order. The key function is an argument of
  the operations, as each store has its own. Messages are values here, so the defensive
  clones of the Go code are the identity. The mutex makes every operation one atomic step.

  The interface the state machine relies on is the locale \<open>keyed_store\<close>; the store
  interprets it for every key function.
\<close>

section \<open>Operations\<close>

record 'a Store =
  st_byKey :: "(string \<times> 'a) list"
  st_broker :: "'a Broker"

definition NewStore :: "'a Broker \<Rightarrow> 'a Store" where
  "NewStore b = \<lparr>st_byKey = [], st_broker = b\<rparr>"

definition Store_Get :: "'a Store \<Rightarrow> string \<Rightarrow> 'a option" where
  "Store_Get s k = map_of (st_byKey s) k"

definition Store_List :: "'a Store \<Rightarrow> 'a list" where
  "Store_List s = map snd (st_byKey s)"

definition Store_Len :: "'a Store \<Rightarrow> nat" where
  "Store_Len s = length (st_byKey s)"

definition Store_Apply :: "('a \<Rightarrow> string) \<Rightarrow> 'a \<Rightarrow> uint64 \<Rightarrow> 'a Store \<Rightarrow> bool \<times> 'a Store" where
  "Store_Apply keyFn v idx s =
     (let key = keyFn v; s' = s\<lparr>st_byKey := AList.update key v (st_byKey s)\<rparr>
      in case map_of (st_byKey s) key of
           Some before \<Rightarrow> (False, s'\<lparr>st_broker := Publish
             \<lparr>ev_Kind = KindUpdated, ev_Before = Some before, ev_After = Some v,
              ev_RaftIndex = idx\<rparr> (st_broker s)\<rparr>)
         | None \<Rightarrow> (True, s'\<lparr>st_broker := Publish
             \<lparr>ev_Kind = KindAdded, ev_Before = None, ev_After = Some v,
              ev_RaftIndex = idx\<rparr> (st_broker s)\<rparr>))"

definition Store_Remove :: "string \<Rightarrow> uint64 \<Rightarrow> 'a Store \<Rightarrow> bool \<times> 'a Store" where
  "Store_Remove key idx s =
     (case map_of (st_byKey s) key of
        None \<Rightarrow> (False, s)
      | Some before \<Rightarrow> (True, s\<lparr>st_byKey := AList.delete key (st_byKey s),
          st_broker := Publish \<lparr>ev_Kind = KindRemoved, ev_Before = Some before, ev_After = None,
             ev_RaftIndex = idx\<rparr> (st_broker s)\<rparr>))"

text \<open>Calls that drop the boolean result, as every call of the state machine does.\<close>

abbreviation put :: "('a \<Rightarrow> string) \<Rightarrow> 'a \<Rightarrow> uint64 \<Rightarrow> 'a Store \<Rightarrow> 'a Store" where
  "put keyFn v idx s \<equiv> snd (Store_Apply keyFn v idx s)"

abbreviation del :: "string \<Rightarrow> uint64 \<Rightarrow> 'a Store \<Rightarrow> 'a Store" where
  "del key idx s \<equiv> snd (Store_Remove key idx s)"

text \<open>
  The two loops the state machine runs over a store: remove every listed entry that satisfies
  a condition, and apply every entity of a slice.
\<close>

definition remove_where :: "('a \<Rightarrow> string) \<Rightarrow> ('a \<Rightarrow> bool) \<Rightarrow> uint64 \<Rightarrow> 'a Store \<Rightarrow> 'a Store" where
  "remove_where keyFn P idx s =
     fold (\<lambda>v s'. if P v then del (keyFn v) idx s' else s') (Store_List s) s"

definition put_all :: "('a \<Rightarrow> string) \<Rightarrow> 'a list \<Rightarrow> uint64 \<Rightarrow> 'a Store \<Rightarrow> 'a Store" where
  "put_all keyFn vs idx s = fold (\<lambda>v. put keyFn v idx) vs s"

text \<open>The representation invariant: distinct keys, and every entry filed under its own key.\<close>

definition store_ok :: "('a \<Rightarrow> string) \<Rightarrow> 'a Store \<Rightarrow> bool" where
  "store_ok keyFn s \<longleftrightarrow> distinct (map fst (st_byKey s))
     \<and> (\<forall>(k, v) \<in> set (st_byKey s). keyFn v = k)"

section \<open>The interface of a keyed store\<close>

locale keyed_store =
  fixes key :: "'v \<Rightarrow> string"
    and get :: "'s \<Rightarrow> string \<Rightarrow> 'v option"
    and upsert :: "'v \<Rightarrow> uint64 \<Rightarrow> 's \<Rightarrow> 's"
    and remove :: "string \<Rightarrow> uint64 \<Rightarrow> 's \<Rightarrow> 's"
    and entries :: "'s \<Rightarrow> 'v list"
    and invar :: "'s \<Rightarrow> bool"
  assumes get_upsert: "invar s \<Longrightarrow> get (upsert v i s) = (get s)(key v \<mapsto> v)"
    and get_remove: "invar s \<Longrightarrow> get (remove k i s) = (get s)(k := None)"
    and get_key: "invar s \<Longrightarrow> get s k = Some v \<Longrightarrow> key v = k"
    and set_entries: "invar s \<Longrightarrow> set (entries s) = ran (get s)"
    and distinct_entries: "invar s \<Longrightarrow> distinct (map key (entries s))"
    and invar_upsert: "invar s \<Longrightarrow> invar (upsert v i s)"
    and invar_remove: "invar s \<Longrightarrow> invar (remove k i s)"
begin

lemma entries_iff: "invar s \<Longrightarrow> v \<in> set (entries s) \<longleftrightarrow> get s (key v) = Some v"
  by (auto simp: set_entries ran_def dest: get_key)

lemma get_upsert_same: "invar s \<Longrightarrow> get (upsert v i s) (key v) = Some v"
  by (simp add: get_upsert)

lemma get_upsert_other: "invar s \<Longrightarrow> k \<noteq> key v \<Longrightarrow> get (upsert v i s) k = get s k"
  by (simp add: get_upsert)

lemma fold_remove_get:
  assumes "invar s"
  shows "invar (fold (\<lambda>x t. if P x then remove (f x) i t else t) xs s) \<and>
    get (fold (\<lambda>x t. if P x then remove (f x) i t else t) xs s) =
      (\<lambda>k. if \<exists>x \<in> set xs. P x \<and> f x = k then None else get s k)"
  using assms
proof (induction xs arbitrary: s)
  case Nil
  then show ?case by simp
next
  case (Cons x xs)
  show ?case
  proof (cases "P x")
    case True
    with Cons.prems have "invar (remove (f x) i s)" by (simp add: invar_remove)
    from Cons.IH [OF this] True Cons.prems show ?thesis
      by (auto simp: get_remove fun_eq_iff)
  next
    case False
    with Cons.IH [OF Cons.prems] show ?thesis by (auto simp: fun_eq_iff)
  qed
qed

lemma remove_entries_get:
  assumes "invar s"
  shows "get (fold (\<lambda>v t. if P v then remove (key v) i t else t) (entries s) s) k =
    (case get s k of None \<Rightarrow> None | Some v \<Rightarrow> if P v then None else Some v)"
proof (cases "get s k")
  case None
  then show ?thesis using fold_remove_get [OF assms, of P key i "entries s"] by simp
next
  case (Some v)
  with assms have k: "key v = k" by (rule get_key)
  have "(\<exists>u \<in> set (entries s). P u \<and> key u = k) \<longleftrightarrow> P v"
    using assms Some k by (auto simp: entries_iff)
  with Some fold_remove_get [OF assms, of P key i "entries s"] show ?thesis by simp
qed

lemma fold_upsert_get:
  "invar s \<Longrightarrow> invar (fold (\<lambda>v. upsert v i) vs s) \<and>
    get (fold (\<lambda>v. upsert v i) vs s) = get s ++ map_of (map (\<lambda>v. (key v, v)) (rev vs))"
proof (induction vs arbitrary: s)
  case Nil
  then show ?case by simp
next
  case (Cons v vs)
  from Cons.IH [OF invar_upsert [OF Cons.prems]] show ?case
    by (auto simp: get_upsert [OF Cons.prems] map_add_def fun_eq_iff split: option.split)
qed

lemma card_dom_get: "invar s \<Longrightarrow> card (dom (get s)) = length (entries s)"
proof -
  assume inv: "invar s"
  have "dom (get s) = key ` set (entries s)"
    using inv by (auto simp: entries_iff image_iff dest: get_key) (metis entries_iff get_key)
  moreover have "card (key ` set (entries s)) = length (entries s)"
    using distinct_entries [OF inv] by (metis distinct_card length_map set_map)
  ultimately show ?thesis by simp
qed

end

section \<open>The store implements the interface\<close>

lemma byKey_Apply: "st_byKey (put keyFn v idx s) = AList.update (keyFn v) v (st_byKey s)"
  by (simp add: Store_Apply_def Let_def split: option.split)

lemma byKey_Remove: "st_byKey (del k idx s) = AList.delete k (st_byKey s)"
  by (auto simp: Store_Remove_def split: option.split)
    (simp add: delete_id map_of_eq_None_iff)

lemma Store_Get_Apply [simp]: "Store_Get (put keyFn v idx s) = (Store_Get s)(keyFn v \<mapsto> v)"
  by (simp add: fun_eq_iff Store_Get_def byKey_Apply update_conv')

lemma Store_Get_Remove [simp]: "Store_Get (del k idx s) = (Store_Get s)(k := None)"
  by (simp add: fun_eq_iff Store_Get_def byKey_Remove delete_conv')

lemma set_alist_update:
  "distinct (map fst al) \<Longrightarrow>
    set (AList.update k v al) = insert (k, v) {(k', v') \<in> set al. k' \<noteq> k}"
  by (induction al) (auto simp: image_iff)

lemma store_ok_Apply [simp]: "store_ok keyFn s \<Longrightarrow> store_ok keyFn (put keyFn v idx s)"
  by (auto simp: store_ok_def byKey_Apply distinct_update set_alist_update)

lemma store_ok_Remove [simp]: "store_ok keyFn s \<Longrightarrow> store_ok keyFn (del k idx s)"
  using distinct_delete [of "st_byKey s" k]
  by (auto simp: store_ok_def byKey_Remove AList.delete_eq)

lemma store_ok_New [simp]: "store_ok keyFn (NewStore b)"
  by (simp add: store_ok_def NewStore_def)

lemma Store_Get_New [simp]: "Store_Get (NewStore b) = Map.empty"
  by (simp add: fun_eq_iff Store_Get_def NewStore_def)

lemma Store_List_ran: "store_ok keyFn s \<Longrightarrow> set (Store_List s) = ran (Store_Get s)"
  by (auto simp: store_ok_def Store_List_def Store_Get_def [abs_def] ran_distinct)

lemma Store_Get_key: "store_ok keyFn s \<Longrightarrow> Store_Get s k = Some v \<Longrightarrow> keyFn v = k"
  by (auto simp: store_ok_def Store_Get_def dest: map_of_SomeD)

lemma Store_List_keys: "store_ok keyFn s \<Longrightarrow> map keyFn (Store_List s) = map fst (st_byKey s)"
  by (auto simp: store_ok_def Store_List_def)

interpretation kst: keyed_store keyFn Store_Get "\<lambda>v i s. put keyFn v i s"
    "\<lambda>k i s. del k i s" Store_List "store_ok keyFn"
  for keyFn :: "'a \<Rightarrow> string"
proof unfold_locales
  fix s :: "'a Store"
  assume "store_ok keyFn s"
  then show "distinct (map keyFn (Store_List s))"
    by (simp add: Store_List_keys) (simp add: store_ok_def)
qed (simp_all add: Store_Get_key Store_List_ran)

lemma store_ok_remove_where [simp]: "store_ok keyFn s \<Longrightarrow> store_ok keyFn (remove_where keyFn P idx s)"
  using kst.fold_remove_get [of keyFn s P keyFn idx "Store_List s"] by (simp add: remove_where_def)

lemma Store_Get_remove_where [simp]:
  "store_ok keyFn s \<Longrightarrow> Store_Get (remove_where keyFn P idx s) =
     (\<lambda>k. case Store_Get s k of None \<Rightarrow> None | Some v \<Rightarrow> if P v then None else Some v)"
  by (rule ext) (simp add: remove_where_def kst.remove_entries_get)

text \<open>The loop that removes the keys computed from any slice.\<close>

lemma store_ok_fold_del:
  "store_ok keyFn s \<Longrightarrow> store_ok keyFn (fold (\<lambda>x t. if P x then del (f x) idx t else t) xs s)"
  using kst.fold_remove_get [of keyFn s P f idx xs] by simp

lemma Store_Get_fold_del:
  "store_ok keyFn s \<Longrightarrow> Store_Get (fold (\<lambda>x t. if P x then del (f x) idx t else t) xs s) =
     (\<lambda>k. if \<exists>x \<in> set xs. P x \<and> f x = k then None else Store_Get s k)"
  using kst.fold_remove_get [of keyFn s P f idx xs] by simp

lemma store_ok_put_all [simp]: "store_ok keyFn s \<Longrightarrow> store_ok keyFn (put_all keyFn vs idx s)"
  using kst.fold_upsert_get [of keyFn s idx vs] by (simp add: put_all_def)

lemma Store_Get_put_all [simp]:
  "store_ok keyFn s \<Longrightarrow> Store_Get (put_all keyFn vs idx s) =
     Store_Get s ++ map_of (map (\<lambda>v. (keyFn v, v)) (rev vs))"
  using kst.fold_upsert_get [of keyFn s idx vs] by (simp add: put_all_def)

lemma Store_Len_card: "store_ok keyFn s \<Longrightarrow> Store_Len s = card (dom (Store_Get s))"
  by (simp add: kst.card_dom_get Store_Len_def Store_List_def)

lemma Store_Apply_added: "fst (Store_Apply keyFn v idx s) \<longleftrightarrow> Store_Get s (keyFn v) = None"
  by (simp add: Store_Apply_def Store_Get_def Let_def split: option.split)

lemma Store_Remove_removed: "fst (Store_Remove k idx s) \<longleftrightarrow> Store_Get s k \<noteq> None"
  by (simp add: Store_Remove_def Store_Get_def split: option.split)

text \<open>
  Two stores with the same content are interchangeable, whatever their iteration order and
  whatever subscribers are attached.
\<close>

definition store_eq :: "'a Store \<Rightarrow> 'a Store \<Rightarrow> bool" where
  "store_eq s t \<longleftrightarrow> Store_Get s = Store_Get t"

lemma store_eq_refl [simp]: "store_eq s s"
  by (simp add: store_eq_def)

section \<open>Events are the changes of the store\<close>

text \<open>
  The event a mutation publishes, and how a watcher folds events into a copy of the content.
  A copy that starts equal to the store and folds every published event stays equal to it.
\<close>

fun fold_event :: "('a \<Rightarrow> string) \<Rightarrow> 'a Event \<Rightarrow> (string \<rightharpoonup> 'a) \<Rightarrow> (string \<rightharpoonup> 'a)" where
  "fold_event keyFn e m =
     (case (ev_Kind e, ev_Before e, ev_After e) of
        (KindAdded, _, Some v) \<Rightarrow> m(keyFn v \<mapsto> v)
      | (KindUpdated, _, Some v) \<Rightarrow> m(keyFn v \<mapsto> v)
      | (KindRemoved, Some v, _) \<Rightarrow> m(keyFn v := None)
      | _ \<Rightarrow> m)"

datatype 'a store_op = OpApply 'a uint64 | OpRemove string uint64

fun run_op :: "('a \<Rightarrow> string) \<Rightarrow> 'a store_op \<Rightarrow> 'a Store \<Rightarrow> 'a Store" where
  "run_op keyFn (OpApply v i) s = put keyFn v i s"
| "run_op keyFn (OpRemove k i) s = del k i s"

fun op_event :: "('a \<Rightarrow> string) \<Rightarrow> 'a store_op \<Rightarrow> 'a Store \<Rightarrow> 'a Event option" where
  "op_event keyFn (OpApply v i) s =
     (case Store_Get s (keyFn v) of
        Some b \<Rightarrow> Some \<lparr>ev_Kind = KindUpdated, ev_Before = Some b, ev_After = Some v, ev_RaftIndex = i\<rparr>
      | None \<Rightarrow> Some \<lparr>ev_Kind = KindAdded, ev_Before = None, ev_After = Some v, ev_RaftIndex = i\<rparr>)"
| "op_event keyFn (OpRemove k i) s =
     (case Store_Get s k of
        Some b \<Rightarrow> Some \<lparr>ev_Kind = KindRemoved, ev_Before = Some b, ev_After = None, ev_RaftIndex = i\<rparr>
      | None \<Rightarrow> None)"

lemma run_op_publishes:
  "st_broker (run_op keyFn p s) =
     (case op_event keyFn p s of None \<Rightarrow> st_broker s | Some e \<Rightarrow> Publish e (st_broker s))"
  by (cases p) (auto simp: Store_Apply_def Store_Remove_def Store_Get_def Let_def split: option.split)

lemma run_op_ok [simp]: "store_ok keyFn s \<Longrightarrow> store_ok keyFn (run_op keyFn p s)"
  by (cases p) auto

lemma fold_event_run_op:
  assumes "store_ok keyFn s"
  shows "(case op_event keyFn p s of None \<Rightarrow> Store_Get s | Some e \<Rightarrow> fold_event keyFn e (Store_Get s))
    = Store_Get (run_op keyFn p s)"
  using assms
  by (cases p) (auto simp: Store_Get_key fun_upd_idem split: option.split)

lemma op_event_not_resync: "op_event keyFn p s = Some e \<Longrightarrow> \<not> is_resync e"
  by (cases p) (auto simp: is_resync_def split: option.splits)

text \<open>
  The store's side of one watcher: every mutation publishes its event, with the reader taking
  some events in the midst of the publication, and the watcher takes events from its channel
  between mutations (\<open>None\<close>).
\<close>

fun watch_actions :: "('a \<Rightarrow> string) \<Rightarrow> 'a Store \<Rightarrow> ('a store_op \<times> nat \<times> nat) option list
    \<Rightarrow> 'a sub_action list" where
  "watch_actions keyFn s [] = []"
| "watch_actions keyFn s (None # xs) = Recv # watch_actions keyFn s xs"
| "watch_actions keyFn s (Some (p, r1, r2) # xs) =
     (case op_event keyFn p s of None \<Rightarrow> [] | Some e \<Rightarrow> [Pub e r1 r2])
       @ watch_actions keyFn (run_op keyFn p s) xs"

definition run_ops :: "('a \<Rightarrow> string) \<Rightarrow> ('a store_op \<times> nat \<times> nat) option list \<Rightarrow> 'a Store \<Rightarrow> 'a Store" where
  "run_ops keyFn xs s = fold (\<lambda>x t. case x of None \<Rightarrow> t | Some (p, _) \<Rightarrow> run_op keyFn p t) xs s"

lemma published_append [simp]: "published (as @ bs) = published as @ published bs"
  by (induction as rule: published.induct) auto

lemma watch_actions_sync:
  "store_ok keyFn s \<Longrightarrow>
    fold (fold_event keyFn) (published (watch_actions keyFn s xs)) (Store_Get s) = Store_Get (run_ops keyFn xs s)
    \<and> (\<forall>e \<in> set (published (watch_actions keyFn s xs)). \<not> is_resync e)"
proof (induction keyFn s xs rule: watch_actions.induct)
  case (3 keyFn s p r1 r2 xs)
  show ?case
    using "3.IH" [OF run_op_ok [OF "3.prems"]] fold_event_run_op [OF "3.prems", of p]
    by (auto simp: run_ops_def op_event_not_resync split: option.splits)
qed (simp_all add: run_ops_def)

text \<open>
  C8. A watcher that lists the store, folds every event it is sent into its copy and was never
  told to resynchronise holds exactly the content of the store, whatever upserts and removals
  happened meanwhile and however its reads interleave with them.
\<close>

theorem watcher_copy_in_sync:
  assumes "store_ok keyFn s" "0 < cap"
    and "stream = sub_stream cap (fresh_subscriber i) (watch_actions keyFn s xs)"
    and "\<forall>e \<in> set stream. \<not> is_resync e"
  shows "fold (fold_event keyFn) stream (Store_Get s) = Store_Get (run_ops keyFn xs s)"
proof -
  note sync = watch_actions_sync [OF assms(1), of xs]
  have "stream = published (watch_actions keyFn s xs)"
    using fresh_faithful [OF assms(2) conjunct2 [OF sync], of i] assms(3,4) by (simp add: faithful_def)
  with sync show ?thesis by simp
qed

theorem watcher_copy_in_sync_witness:
  "fold (fold_event id) (sub_stream 4 (fresh_subscriber 0) (watch_actions id (NewStore (NewBroker 4))
      [Some (OpApply ''a'' 1, 0, 0), None, Some (OpApply ''b'' 2, 0, 0), Some (OpRemove ''a'' 3, 1, 0)])) Map.empty
   = Store_Get (run_ops id [Some (OpApply ''a'' 1, 0, 0), None, Some (OpApply ''b'' 2, 0, 0), Some (OpRemove ''a'' 3, 1, 0)]
       (NewStore (NewBroker 4)))"
proof -
  let ?xs = "[Some (OpApply ''a'' 1, 0, 0), None, Some (OpApply ''b'' 2, 0, 0), Some (OpRemove ''a'' 3, 1, 0)]"
  have "\<forall>e \<in> set (sub_stream 4 (fresh_subscriber 0) (watch_actions id (NewStore (NewBroker 4)) ?xs)). \<not> is_resync e"
    by (simp add: sub_stream_def fresh_subscriber_def publish_race_def recv_one_def is_resync_def)
  from watcher_copy_in_sync [OF store_ok_New _ refl this] show ?thesis by simp
qed

end
