(* ===== verification/Entities.thy ===== *)
theory Entities
  imports Store
begin

text \<open>
  The replicated entities of \<^verbatim>\<open>proto/jaco/v1/entities.proto\<close> as records, their store keys from
  \<^verbatim>\<open>internal/controlplane/state/*.go\<close>, and the container \<open>State\<close> of
  \<^verbatim>\<open>internal/controlplane/state/state.go\<close>. Field names carry a short prefix per message, as
  Isabelle keeps one name space for record fields. A sub-message or timestamp that may be nil
  is an option. The pressure samples are reals: the state machine only copies them.
\<close>

section \<open>Closed enumerations\<close>

datatype ReplicaState = RS_UNSPECIFIED | RS_PENDING | RS_PULLING | RS_RUNNING | RS_DEGRADED
  | RS_UPDATING | RS_FAILED | RS_STOPPED

datatype RolloutState = RO_UNSPECIFIED | RO_IN_PROGRESS | RO_COMPLETED | RO_ABORTED

datatype NodeStatus = NS_UNSPECIFIED | NS_JOINING | NS_READY | NS_ISOLATION_UNAVAILABLE
  | NS_DRAIN_TIMEOUT

datatype DeploymentStatus = DS_UNSPECIFIED | DS_PENDING | DS_ACTIVE

datatype PlacementMode = PM_UNSPECIFIED | PM_SPREAD | PM_PACK | PM_HOSTS | PM_GLOBAL

datatype AuditEventType = AE_UNSPECIFIED | AE_APPLY | AE_DELETE | AE_ROLLBACK | AE_NODE_JOIN
  | AE_NODE_REMOVE | AE_TOKEN_ISSUE | AE_TOKEN_REVOKE | AE_CERTIFICATE_ISSUED
  | AE_CERTIFICATE_RENEWED | AE_CERTIFICATE_FAILED | AE_ISOLATION_RULESET_RECONCILED
  | AE_ISOLATION_UNAVAILABLE | AE_BACKUP_TAKEN | AE_RESTORE_COMPLETED | AE_UPGRADE_SUCCEEDED
  | AE_UPGRADE_FAILED | AE_ROLLOUT_INVARIANT_HOLD | AE_REGISTRY_CREDENTIAL_UPSERT
  | AE_REGISTRY_CREDENTIAL_REMOVE | AE_PRIVILEGED_WORKLOAD_ADMITTED | AE_REBALANCE_MOVED
  | AE_REBALANCE_SKIPPED

section \<open>Messages\<close>

record ClusterMeta =
  cm_cluster_id :: string
  cm_ca_cert :: bytes
  cm_ca_key :: bytes
  cm_created_at :: timestamp

record Node =
  nd_hostname :: string
  nd_address :: string
  nd_server_cert_fingerprint :: bytes
  nd_wireguard_pubkey :: bytes
  nd_status :: NodeStatus
  nd_status_details :: strmap
  nd_joined_at :: timestamp
  nd_grpc_address :: string
  nd_cpu_pressure :: real
  nd_memory_pressure :: real
  nd_last_pressure_at :: timestamp

record ServiceSpec =
  ss_name :: string
  ss_replicas :: int32
  ss_placement :: PlacementMode
  ss_hosts :: "string list"
  ss_networks :: "string list"

record Deployment =
  dp_name :: string
  dp_applied_revision :: uint64
  dp_previous_revision :: uint64
  dp_status :: DeploymentStatus
  dp_status_details :: strmap
  dp_jaco_yaml :: bytes
  dp_compose_yaml :: bytes
  dp_services :: "ServiceSpec list"
  dp_updated_at :: timestamp
  dp_acme_email :: string

record ReplicaDesired =
  rd_id :: string
  rd_deployment :: string
  rd_service :: string
  rd_index :: int32
  rd_host :: string
  rd_image :: string
  rd_raft_index :: uint64
  rd_spec_hash :: bytes

record ReplicaObserved =
  ro_id :: string
  ro_state :: ReplicaState
  ro_code :: string
  ro_message :: string
  ro_details :: strmap
  ro_container_id :: string
  ro_host :: string
  ro_started_at :: timestamp
  ro_last_health_at :: timestamp

record Route =
  rt_domain :: string
  rt_deployment :: string
  rt_service :: string
  rt_port :: int32
  rt_tls_auto :: bool
  rt_path :: string
  rt_strip_path :: bool

record TCPRoute =
  tr_published_port :: int32
  tr_deployment :: string
  tr_service :: string
  tr_container_port :: int32

record Cert =
  ct_domain :: string
  ct_private_key :: bytes
  ct_cert_chain :: bytes
  ct_not_before :: timestamp
  ct_not_after :: timestamp
  ct_lessee :: string
  ct_lock_until :: timestamp

record ChallengeToken =
  ch_token :: string
  ch_domain :: string
  ch_key_auth :: string
  ch_expires_at :: timestamp

record CertBlob =
  cb_key :: string
  cb_value :: bytes
  cb_updated_at :: timestamp

record Token =
  tk_identity :: string
  tk_hashed_secret :: bytes
  tk_issued_at :: timestamp
  tk_revoked_at :: timestamp
  tk_allows_privileged :: bool

record JoinToken =
  jt_hashed_secret :: bytes
  jt_issued_at :: timestamp
  jt_expires_at :: timestamp
  jt_consumed_at :: timestamp

record AuditEvent =
  ae_raft_index :: uint64
  ae_type :: AuditEventType
  ae_identity :: string
  ae_ts :: timestamp
  ae_payload :: strmap

record Subnet =
  sn_deployment :: string
  sn_network :: string
  sn_cidr :: string
  sn_allocated_at :: timestamp
  sn_host :: string

record RolloutPlan =
  rp_deployment :: string
  rp_service :: string
  rp_target_revision :: uint64
  rp_total_steps :: int32
  rp_current_step :: int32
  rp_state :: RolloutState
  rp_failure_reason :: string
  rp_started_at :: timestamp
  rp_last_step_at :: timestamp

record ReplicaCounter =
  rc_deployment :: string
  rc_service :: string
  rc_next_index :: uint64

record RestartCounter =
  rs_replica_id :: string
  rs_consecutive_failures :: int32
  rs_last_attempt_at :: timestamp

record RegistryCredential =
  cr_registry :: string
  cr_username :: string
  cr_secret :: bytes
  cr_updated_at :: timestamp

end
