(* ===== verification/State.thy ===== *)
theory State
  imports Entities
begin

text \<open>
  The container of the replicated state, \<^verbatim>\<open>internal/controlplane/state\<close>: one keyed store per
  entity type, the append-only audit log and the cluster singleton; the keys under which
  entities are filed; the token lookup of the admission interceptor. A state is well formed
  (\<open>state_ok\<close>) when every store files its entries under their own keys, and two states are
  equal up to map iteration order and subscribers (\<open>state_eq\<close>) when all stores have the same
  content.
\<close>

section \<open>Store keys\<close>

definition RouteKey :: "string \<Rightarrow> string \<Rightarrow> string" where
  "RouteKey domain path = domain @ NUL @ path"

definition TCPRouteKey :: "int32 \<Rightarrow> string" where
  "TCPRouteKey publishedPort = Itoa (sint publishedPort)"

definition SubnetKey :: "string \<Rightarrow> string \<Rightarrow> string \<Rightarrow> string" where
  "SubnetKey deployment network host = deployment @ NUL @ network @ NUL @ host"

definition RolloutPlanKey :: "string \<Rightarrow> string \<Rightarrow> string" where
  "RolloutPlanKey deployment service = deployment @ NUL @ service"

definition ReplicaCounterKey :: "string \<Rightarrow> string \<Rightarrow> string" where
  "ReplicaCounterKey deployment service = deployment @ NUL @ service"

definition route_key :: "Route \<Rightarrow> string" where
  "route_key r = RouteKey (rt_domain r) (rt_path r)"

definition tcproute_key :: "TCPRoute \<Rightarrow> string" where
  "tcproute_key r = TCPRouteKey (tr_published_port r)"

definition subnet_key :: "Subnet \<Rightarrow> string" where
  "subnet_key s = SubnetKey (sn_deployment s) (sn_network s) (sn_host s)"

definition rolloutplan_key :: "RolloutPlan \<Rightarrow> string" where
  "rolloutplan_key r = RolloutPlanKey (rp_deployment r) (rp_service r)"

definition replicacounter_key :: "ReplicaCounter \<Rightarrow> string" where
  "replicacounter_key c = ReplicaCounterKey (rc_deployment c) (rc_service c)"

definition jointoken_key :: "JoinToken \<Rightarrow> string" where
  "jointoken_key t = EncodeToString (jt_hashed_secret t)"

text \<open>Identifiers carry no NUL byte; then the composite keys determine their components.\<close>

definition no_nul :: "string \<Rightarrow> bool" where
  "no_nul s \<longleftrightarrow> CHR 0x00 \<notin> set s"

lemma RouteKey_inject:
  "no_nul d \<Longrightarrow> no_nul d' \<Longrightarrow> RouteKey d p = RouteKey d' p' \<longleftrightarrow> d = d' \<and> p = p'"
  by (simp add: RouteKey_def no_nul_def append_sep_inject)

lemma SubnetKey_inject:
  "no_nul d \<Longrightarrow> no_nul d' \<Longrightarrow> no_nul n \<Longrightarrow> no_nul n' \<Longrightarrow>
    SubnetKey d n h = SubnetKey d' n' h' \<longleftrightarrow> d = d' \<and> n = n' \<and> h = h'"
  by (simp add: SubnetKey_def no_nul_def append_sep_inject)

lemma RolloutPlanKey_inject:
  "no_nul d \<Longrightarrow> no_nul d' \<Longrightarrow> RolloutPlanKey d s = RolloutPlanKey d' s' \<longleftrightarrow> d = d' \<and> s = s'"
  by (simp add: RolloutPlanKey_def no_nul_def append_sep_inject)

lemma ReplicaCounterKey_inject:
  "no_nul d \<Longrightarrow> no_nul d' \<Longrightarrow> ReplicaCounterKey d s = ReplicaCounterKey d' s' \<longleftrightarrow> d = d' \<and> s = s'"
  by (simp add: ReplicaCounterKey_def no_nul_def append_sep_inject)

lemma TCPRouteKey_inject [simp]: "TCPRouteKey p = TCPRouteKey q \<longleftrightarrow> p = q"
  by (auto simp: TCPRouteKey_def intro: signed_word_eqI)

section \<open>The audit log and the cluster singleton\<close>

record AuditLog =
  al_log :: "AuditEvent list"
  al_broker :: "AuditEvent Broker"

definition Audit_Append :: "AuditEvent \<Rightarrow> AuditLog \<Rightarrow> AuditLog" where
  "Audit_Append ev a = a\<lparr>al_log := al_log a @ [ev],
     al_broker := Publish \<lparr>ev_Kind = KindAdded, ev_Before = None, ev_After = Some ev,
       ev_RaftIndex = ae_raft_index ev\<rparr> (al_broker a)\<rparr>"

definition Audit_List :: "AuditLog \<Rightarrow> AuditEvent list" where
  "Audit_List a = al_log a"

definition Audit_Len :: "AuditLog \<Rightarrow> nat" where
  "Audit_Len a = length (al_log a)"

record ClusterCell =
  cl_meta :: "ClusterMeta option"
  cl_broker :: "ClusterMeta Broker"

definition Cluster_Get :: "ClusterCell \<Rightarrow> ClusterMeta option" where
  "Cluster_Get c = cl_meta c"

definition Cluster_Set :: "ClusterMeta \<Rightarrow> uint64 \<Rightarrow> ClusterCell \<Rightarrow> ClusterCell" where
  "Cluster_Set m idx c =
     (case cl_meta c of
        None \<Rightarrow> c\<lparr>cl_meta := Some m, cl_broker := Publish \<lparr>ev_Kind = KindAdded,
          ev_Before = None, ev_After = Some m, ev_RaftIndex = idx\<rparr> (cl_broker c)\<rparr>
      | Some before \<Rightarrow> c\<lparr>cl_meta := Some m, cl_broker := Publish \<lparr>ev_Kind = KindUpdated,
          ev_Before = Some before, ev_After = Some m, ev_RaftIndex = idx\<rparr> (cl_broker c)\<rparr>)"

lemma al_log_Append [simp]: "al_log (Audit_Append ev a) = al_log a @ [ev]"
  by (simp add: Audit_Append_def)

lemma cl_meta_Set [simp]: "cl_meta (Cluster_Set m idx c) = Some m"
  by (simp add: Cluster_Set_def split: option.split)

section \<open>The state\<close>

record State =
  Nodes :: "Node Store"
  Deployments :: "Deployment Store"
  ReplicasDesired :: "ReplicaDesired Store"
  ReplicasObserved :: "ReplicaObserved Store"
  Routes :: "Route Store"
  TCPRoutes :: "TCPRoute Store"
  Certs :: "Cert Store"
  CertBlobs :: "CertBlob Store"
  ChallengeTokens :: "ChallengeToken Store"
  Tokens :: "Token Store"
  JoinTokens :: "JoinToken Store"
  Subnets :: "Subnet Store"
  RolloutPlans :: "RolloutPlan Store"
  ReplicaCounters :: "ReplicaCounter Store"
  RestartCounters :: "RestartCounter Store"
  RegistryCredentials :: "RegistryCredential Store"
  AuditEvents :: AuditLog
  ClusterMetaCell :: ClusterCell

text \<open>\<open>state.New(watch.NewRegistry())\<close>: empty stores on fresh brokers of the default size.\<close>

definition State_New :: State where
  "State_New = \<lparr>Nodes = NewStore (NewBroker (int DefaultBuffer)),
     Deployments = NewStore (NewBroker (int DefaultBuffer)),
     ReplicasDesired = NewStore (NewBroker (int DefaultBuffer)),
     ReplicasObserved = NewStore (NewBroker (int DefaultBuffer)),
     Routes = NewStore (NewBroker (int DefaultBuffer)),
     TCPRoutes = NewStore (NewBroker (int DefaultBuffer)),
     Certs = NewStore (NewBroker (int DefaultBuffer)),
     CertBlobs = NewStore (NewBroker (int DefaultBuffer)),
     ChallengeTokens = NewStore (NewBroker (int DefaultBuffer)),
     Tokens = NewStore (NewBroker (int DefaultBuffer)),
     JoinTokens = NewStore (NewBroker (int DefaultBuffer)),
     Subnets = NewStore (NewBroker (int DefaultBuffer)),
     RolloutPlans = NewStore (NewBroker (int DefaultBuffer)),
     ReplicaCounters = NewStore (NewBroker (int DefaultBuffer)),
     RestartCounters = NewStore (NewBroker (int DefaultBuffer)),
     RegistryCredentials = NewStore (NewBroker (int DefaultBuffer)),
     AuditEvents = \<lparr>al_log = [], al_broker = NewBroker (int DefaultBuffer)\<rparr>,
     ClusterMetaCell = \<lparr>cl_meta = None, cl_broker = NewBroker (int DefaultBuffer)\<rparr>\<rparr>"

text \<open>\<open>LookupTokenByHash\<close>: the first token, in iteration order, whose stored hash matches.\<close>

definition LookupTokenByHash :: "Token Store \<Rightarrow> bytes \<Rightarrow> Token option" where
  "LookupTokenByHash s hash = find (\<lambda>t. tk_hashed_secret t = hash) (Store_List s)"

definition state_ok :: "State \<Rightarrow> bool" where
  "state_ok s \<longleftrightarrow> store_ok nd_hostname (Nodes s) \<and> store_ok dp_name (Deployments s)
     \<and> store_ok rd_id (ReplicasDesired s) \<and> store_ok ro_id (ReplicasObserved s)
     \<and> store_ok route_key (Routes s) \<and> store_ok tcproute_key (TCPRoutes s)
     \<and> store_ok ct_domain (Certs s) \<and> store_ok cb_key (CertBlobs s)
     \<and> store_ok ch_token (ChallengeTokens s) \<and> store_ok tk_identity (Tokens s)
     \<and> store_ok jointoken_key (JoinTokens s) \<and> store_ok subnet_key (Subnets s)
     \<and> store_ok rolloutplan_key (RolloutPlans s) \<and> store_ok replicacounter_key (ReplicaCounters s)
     \<and> store_ok rs_replica_id (RestartCounters s) \<and> store_ok cr_registry (RegistryCredentials s)"

definition state_eq :: "State \<Rightarrow> State \<Rightarrow> bool" where
  "state_eq s t \<longleftrightarrow> store_eq (Nodes s) (Nodes t) \<and> store_eq (Deployments s) (Deployments t)
     \<and> store_eq (ReplicasDesired s) (ReplicasDesired t)
     \<and> store_eq (ReplicasObserved s) (ReplicasObserved t)
     \<and> store_eq (Routes s) (Routes t) \<and> store_eq (TCPRoutes s) (TCPRoutes t)
     \<and> store_eq (Certs s) (Certs t) \<and> store_eq (CertBlobs s) (CertBlobs t)
     \<and> store_eq (ChallengeTokens s) (ChallengeTokens t) \<and> store_eq (Tokens s) (Tokens t)
     \<and> store_eq (JoinTokens s) (JoinTokens t) \<and> store_eq (Subnets s) (Subnets t)
     \<and> store_eq (RolloutPlans s) (RolloutPlans t)
     \<and> store_eq (ReplicaCounters s) (ReplicaCounters t)
     \<and> store_eq (RestartCounters s) (RestartCounters t)
     \<and> store_eq (RegistryCredentials s) (RegistryCredentials t)
     \<and> al_log (AuditEvents s) = al_log (AuditEvents t)
     \<and> cl_meta (ClusterMetaCell s) = cl_meta (ClusterMetaCell t)"

lemma state_ok_New [simp]: "state_ok State_New"
  by (simp add: state_ok_def State_New_def)

lemma state_eq_refl [simp]: "state_eq s s"
  by (simp add: state_eq_def)

lemma state_eq_sym: "state_eq s t \<Longrightarrow> state_eq t s"
  by (simp add: state_eq_def store_eq_def)

lemma state_eq_trans: "state_eq s t \<Longrightarrow> state_eq t u \<Longrightarrow> state_eq s u"
  by (simp add: state_eq_def store_eq_def)

end
