(* ===== verification/Command.thy ===== *)
theory Command
  imports State
begin

text \<open>
  The state machine's input: the command envelope of \<^verbatim>\<open>proto/jaco/v1/commands.proto\<close>, one
  constructor of \<open>Payload\<close> per variant of the \<open>oneof\<close>. A sub-message that may be absent on the
  wire is an option. \<open>Batch\<close> nests whole commands; \<open>NoPayload\<close> is an envelope whose payload is
  missing or of a variant this build does not know.
\<close>

record ClusterInitMsg =
  ci_cluster_id :: string
  ci_ca_cert :: bytes
  ci_ca_key :: bytes
  ci_operator_token_hashed_secret :: bytes
  ci_self_hostname :: string
  ci_self_address :: string

record NodeJoinMsg =
  nj_hostname :: string
  nj_address :: string
  nj_server_cert_fingerprint :: bytes
  nj_wireguard_pubkey :: bytes
  nj_grpc_address :: string

record NodeStatusUpdateMsg =
  nu_hostname :: string
  nu_status :: NodeStatus
  nu_details :: strmap
  nu_cpu_pressure :: real
  nu_memory_pressure :: real
  nu_include_pressure :: bool

record DeploymentApplyMsg =
  da_deployment :: string
  da_revision :: uint64
  da_jaco_yaml :: bytes
  da_compose_yaml :: bytes
  da_services :: "ServiceSpec list"
  da_routes :: "Route list"
  da_tcp_routes :: "TCPRoute list"
  da_acme_email :: string

datatype RestartAction = ACTION_UNSPECIFIED | ACTION_INCREMENT | ACTION_RESET

datatype 'c Payload =
    ClusterInit ClusterInitMsg
  | NodeJoin NodeJoinMsg
  | NodeRemove string
  | NodeUpdateSelf string bytes string
  | NodeStatusUpdate NodeStatusUpdateMsg
  | DeploymentApply DeploymentApplyMsg
  | DeploymentRollback string uint64
  | DeploymentDelete string
  | DeploymentStatusUpdate string DeploymentStatus strmap
  | ReplicaDesiredUpsert "ReplicaDesired option"
  | ReplicaDesiredRemove string
  | ReplicaObservedUpdate "ReplicaObserved option"
  | ReplicaCommandIssue string string
  | RolloutPlanUpdate "RolloutPlan option"
  | ReplicaCounterIncrement string string
  | RestartCounterUpdate string RestartAction
  | RouteUpsert "Route option"
  | RouteRemove string
  | CertStore string bytes int
  | CertLock string string timestamp
  | CertUnlock string
  | ChallengeTokenStore "ChallengeToken option"
  | CertBlobUpsert "CertBlob option"
  | CertBlobRemove string
  | SubnetAllocate string string string string
  | SubnetFree string string string
  | TokenIssue string bytes bool
  | TokenRevoke string
  | JoinTokenIssue bytes timestamp
  | JoinTokenConsume bytes
  | AuditAppend "AuditEvent option"
  | Batch "'c option list"
  | RegistryCredentialUpsert "RegistryCredential option"
  | RegistryCredentialRemove string
  | NoPayload

datatype Command = Command
  (cmd_cluster_id: string)
  (cmd_raft_index: uint64)
  (cmd_ts: timestamp)
  (cmd_identity: string)
  (cmd_payload: "Command Payload")

text \<open>A command as the daemon's own components build it: identity, time and payload.\<close>

definition mk_cmd :: "string \<Rightarrow> time \<Rightarrow> Command Payload \<Rightarrow> Command" where
  "mk_cmd ident ts p = Command '''' 0 (Some ts) ident p"

lemma mk_cmd_sel [simp]:
  "cmd_ts (mk_cmd i t p) = Some t" "cmd_identity (mk_cmd i t p) = i"
  "cmd_payload (mk_cmd i t p) = p"
  by (simp_all add: mk_cmd_def)

lemma size_option_member [termination_simp]:
  "Some c \<in> set cs \<Longrightarrow> size c < Suc (size_list (size_option size) cs)"
  by (induction cs) auto

lemma size_Batch_child: "c \<in> set_Payload p \<Longrightarrow> size c < size (Command cid ri ts ident p)"
  by (cases p) (auto intro: less_SucI size_option_member)

end
