(* ===== verification/Registry.thy ===== *)
theory Registry
  imports Prelude
begin

text \<open>
  Registry credential keys: \<open>canonicalRegistryKey\<close> of
  \<^verbatim>\<open>internal/controlplane/fsm/fsm.go\<close>, under which the state machine files a credential, and
  the pull-time resolution \<open>MatchCredentialKey\<close>, \<open>ResolveCredentialKey\<close> and \<open>RegistryHost\<close>
  of \<^verbatim>\<open>internal/runtime/pull/auth.go\<close>.

  \<open>strings.ToLower\<close> and \<open>strings.TrimSpace\<close> are modelled on ASCII, the alphabet of registry
  hosts and repository paths.
\<close>

section \<open>String functions\<close>

definition ascii_lower :: "char \<Rightarrow> char" where
  "ascii_lower c = (if 65 \<le> (of_char c :: nat) \<and> (of_char c :: nat) \<le> 90
     then char_of ((of_char c :: nat) + 32) else c)"

definition ToLower :: "string \<Rightarrow> string" where
  "ToLower = map ascii_lower"

definition is_space :: "char \<Rightarrow> bool" where
  "is_space c \<longleftrightarrow> (of_char c :: nat) \<in> {9, 10, 11, 12, 13, 32}"

text \<open>Drop a class of characters at both ends.\<close>

definition trim :: "(char \<Rightarrow> bool) \<Rightarrow> string \<Rightarrow> string" where
  "trim P s = rev (dropWhile P (rev (dropWhile P s)))"

definition TrimSpace :: "string \<Rightarrow> string" where
  "TrimSpace = trim is_space"

text \<open>The rest of a string after the first occurrence of a separator, if it occurs.\<close>

fun after :: "string \<Rightarrow> string \<Rightarrow> string option" where
  "after sep [] = (if sep = [] then Some [] else None)"
| "after sep (c # cs) =
     (if take (length sep) (c # cs) = sep then Some (drop (length sep) (c # cs)) else after sep cs)"

section \<open>Filing a credential\<close>

definition canonicalRegistryKey :: "string \<Rightarrow> string" where
  "canonicalRegistryKey ref =
     (let h = ToLower (TrimSpace ref)
      in if h = '''' then ''''
         else
           let h = (case after ''://'' h of Some r \<Rightarrow> r | None \<Rightarrow> h);
               h = takeWhile (\<lambda>c. c \<notin> set ''?#'') h;
               host = takeWhile (\<lambda>c. c \<noteq> CHR ''/'') h;
               path = drop 1 (dropWhile (\<lambda>c. c \<noteq> CHR ''/'') h);
               host = (if host \<in> {''index.docker.io'', ''registry-1.docker.io'', ''registry.docker.io''}
                       then ''docker.io'' else host)
           in if host = '''' then ''''
              else let path = trim (\<lambda>c. c = CHR ''/'') path
                   in if path = '''' then host else host @ ''/'' @ path)"

section \<open>Resolving a credential\<close>

definition RegistryHost :: "string \<Rightarrow> string" where
  "RegistryHost key = takeWhile (\<lambda>c. c \<noteq> CHR ''/'') key"

text \<open>Everything in front of the last slash; \<open>None\<close> when there is none.\<close>

definition before_last_slash :: "string \<Rightarrow> string option" where
  "before_last_slash s =
     (if CHR ''/'' \<in> set s
      then Some (rev (drop 1 (dropWhile (\<lambda>c. c \<noteq> CHR ''/'') (rev s)))) else None)"

lemma dropWhile_neq_sep [simp]: "c \<notin> set ys \<Longrightarrow> dropWhile (\<lambda>x. x \<noteq> c) (ys @ c # zs) = c # zs"
  by (induction ys) auto

lemma takeWhile_neq_sep [simp]: "c \<notin> set ys \<Longrightarrow> takeWhile (\<lambda>x. x \<noteq> c) (ys @ c # zs) = ys"
  by (induction ys) auto

lemma before_last_slash_iff:
  "before_last_slash s = Some p \<longleftrightarrow> (\<exists>seg. s = p @ CHR ''/'' # seg \<and> CHR ''/'' \<notin> set seg)"
proof
  assume "before_last_slash s = Some p"
  then have sl: "CHR ''/'' \<in> set (rev s)"
    and p: "p = rev (drop 1 (dropWhile (\<lambda>c. c \<noteq> CHR ''/'') (rev s)))"
    by (auto simp: before_last_slash_def split: if_splits)
  from sl obtain ys zs where yz: "rev s = ys @ CHR ''/'' # zs" "CHR ''/'' \<notin> set ys"
    by (metis split_list_first)
  then have "dropWhile (\<lambda>c. c \<noteq> CHR ''/'') (rev s) = CHR ''/'' # zs"
    by simp
  with p yz have "s = p @ CHR ''/'' # rev ys" by (metis drop_Suc_Cons drop0 One_nat_def rev_append
        rev_rev_ident rev.simps(2) append.assoc append_Cons append_Nil)
  with yz(2) show "\<exists>seg. s = p @ CHR ''/'' # seg \<and> CHR ''/'' \<notin> set seg"
    by (metis set_rev)
next
  assume "\<exists>seg. s = p @ CHR ''/'' # seg \<and> CHR ''/'' \<notin> set seg"
  then obtain seg where seg: "s = p @ CHR ''/'' # seg" "CHR ''/'' \<notin> set seg" by blast
  then have "dropWhile (\<lambda>c. c \<noteq> CHR ''/'') (rev s) = CHR ''/'' # rev p"
    by simp
  with seg(1) show "before_last_slash s = Some p" by (simp add: before_last_slash_def)
qed

lemma before_last_slash_length [termination_simp]:
  "before_last_slash s = Some p \<Longrightarrow> length p < length s"
  by (auto simp: before_last_slash_iff)

fun MatchCredentialKey :: "string \<Rightarrow> (string \<Rightarrow> bool) \<Rightarrow> string option" where
  "MatchCredentialKey candidate lookup =
     (if candidate = '''' then None
      else if lookup candidate then Some candidate
      else case before_last_slash candidate of
             None \<Rightarrow> None
           | Some p \<Rightarrow> MatchCredentialKey p lookup)"

declare MatchCredentialKey.simps [simp del]

text \<open>The scan for the only credential of a host; two matches are ambiguous.\<close>

fun sole_key :: "string \<Rightarrow> string \<Rightarrow> string list \<Rightarrow> string option" where
  "sole_key host sole [] = (if sole = '''' then None else Some sole)"
| "sole_key host sole (k # ks) =
     (if k = host \<or> prefix (host @ ''/'') k
      then (if sole \<noteq> '''' then None else sole_key host k ks)
      else sole_key host sole ks)"

definition ResolveCredentialKey :: "string \<Rightarrow> string list \<Rightarrow> string option" where
  "ResolveCredentialKey repo keys =
     (case MatchCredentialKey repo (\<lambda>k. k \<in> set keys) of
        Some key \<Rightarrow> Some key
      | None \<Rightarrow> (let host = RegistryHost repo
                 in if host = '''' then None else sole_key host '''' keys))"

section \<open>Longest-prefix matching\<close>

text \<open>
  A path prefix of a repository: the repository itself, or what stands in front of one of its
  slashes.
\<close>

definition path_prefix :: "string \<Rightarrow> string \<Rightarrow> bool" where
  "path_prefix p s \<longleftrightarrow> p = s \<or> prefix (p @ ''/'') s"

lemma path_prefix_refl [simp]: "path_prefix s s"
  by (simp add: path_prefix_def)

lemma path_prefix_step:
  assumes "before_last_slash s = Some q"
  shows "path_prefix p s \<longleftrightarrow> p = s \<or> path_prefix p q"
proof -
  from assms obtain seg where s: "s = q @ CHR ''/'' # seg" "CHR ''/'' \<notin> set seg"
    by (auto simp: before_last_slash_iff)
  have "prefix (p @ ''/'') s \<longleftrightarrow> p = q \<or> prefix (p @ ''/'') q"
  proof
    assume "prefix (p @ ''/'') s"
    then obtain r where r: "s = p @ CHR ''/'' # r" by (auto simp: prefix_def)
    from r s(1) have "q @ CHR ''/'' # seg = p @ CHR ''/'' # r" by simp
    then consider us where "q = p @ us" "us @ CHR ''/'' # seg = CHR ''/'' # r"
      | us where "p = q @ us" "CHR ''/'' # seg = us @ CHR ''/'' # r"
      by (auto simp: append_eq_append_conv2)
    then show "p = q \<or> prefix (p @ ''/'') q"
    proof cases
      case 1
      then show ?thesis by (cases us) (auto simp: prefix_def)
    next
      case 2
      with s(2) show ?thesis by (cases us) auto
    qed
  next
    assume "p = q \<or> prefix (p @ ''/'') q"
    then show "prefix (p @ ''/'') s" using s(1) by (auto simp: prefix_def)
  qed
  then show ?thesis by (auto simp: path_prefix_def)
qed

lemma path_prefix_no_slash:
  "before_last_slash s = None \<Longrightarrow> path_prefix p s \<longleftrightarrow> p = s"
  by (auto simp: path_prefix_def before_last_slash_def prefix_def split: if_splits)

lemma path_prefix_length: "path_prefix p s \<Longrightarrow> p \<noteq> s \<Longrightarrow> length p < length s"
  by (auto simp: path_prefix_def dest: prefix_length_le)

lemma MatchCredentialKey_sound:
  "MatchCredentialKey s lookup = Some k \<Longrightarrow>
     lookup k \<and> k \<noteq> '''' \<and> path_prefix k s
     \<and> (\<forall>k'. path_prefix k' s \<longrightarrow> lookup k' \<longrightarrow> k' \<noteq> '''' \<longrightarrow> length k' \<le> length k)"
proof (induction s lookup rule: MatchCredentialKey.induct)
  case (1 s lookup)
  show ?case
  proof (cases "s = '''' \<or> lookup s")
    case True
    with 1 show ?thesis
      by (auto simp: MatchCredentialKey.simps [of s] split: if_splits)
        (metis less_imp_le path_prefix_length order_refl)
  next
    case False
    with "1.prems" obtain q where q: "before_last_slash s = Some q" "MatchCredentialKey q lookup = Some k"
      by (auto simp: MatchCredentialKey.simps [of s] split: option.splits)
    with "1.IH" False show ?thesis by (auto simp: path_prefix_step)
  qed
qed

lemma MatchCredentialKey_None:
  "MatchCredentialKey s lookup = None \<Longrightarrow> path_prefix k s \<Longrightarrow> k \<noteq> '''' \<Longrightarrow> \<not> lookup k"
proof (induction s lookup rule: MatchCredentialKey.induct)
  case (1 s lookup)
  show ?case
  proof (cases "s = ''''")
    case True
    with "1.prems" show ?thesis by (auto simp: path_prefix_def)
  next
    case False
    with "1.prems" have nl: "\<not> lookup s" by (auto simp: MatchCredentialKey.simps [of s] split: if_splits)
    show ?thesis
    proof (cases "before_last_slash s")
      case None
      with nl "1.prems"(2) show ?thesis by (simp add: path_prefix_no_slash)
    next
      case (Some q)
      with False nl "1.prems" have "MatchCredentialKey q lookup = None"
        by (simp add: MatchCredentialKey.simps [of s])
      with "1.IH" [OF False nl Some] "1.prems" nl Some show ?thesis
        by (auto simp: path_prefix_step)
    qed
  qed
qed

section \<open>The single-credential fallback\<close>

definition on_host :: "string \<Rightarrow> string \<Rightarrow> bool" where
  "on_host host k \<longleftrightarrow> k = host \<or> prefix (host @ ''/'') k"

lemma sole_key_some:
  "sole \<noteq> '''' \<Longrightarrow> sole_key host sole ks = (if \<exists>k \<in> set ks. on_host host k then None else Some sole)"
  by (induction ks) (auto simp: on_host_def)

lemma sole_key_spec:
  "host \<noteq> '''' \<Longrightarrow> sole_key host '''' ks =
     (case filter (on_host host) ks of [k] \<Rightarrow> Some k | _ \<Rightarrow> None)"
proof (induction ks)
  case Nil
  then show ?case by simp
next
  case (Cons k ks)
  show ?case
  proof (cases "on_host host k")
    case True
    with Cons.prems have "k \<noteq> ''''" by (auto simp: on_host_def)
    then have "sole_key host k ks = (if \<exists>k \<in> set ks. on_host host k then None else Some k)"
      by (rule sole_key_some)
    with True show ?thesis
      by (auto simp: on_host_def [symmetric] filter_empty_conv split: list.split)
  next
    case False
    with Cons show ?thesis by (simp add: on_host_def [symmetric])
  qed
qed

text \<open>
  C38. Credential resolution is complete: a stored key that covers the repository wins by
  longest path prefix; only when none does, a single credential of the same registry host is
  used, and two of them are ambiguous, so the pull is anonymous.
\<close>

theorem ResolveCredentialKey_spec:
  "case ResolveCredentialKey repo keys of
     Some k \<Rightarrow> k \<in> set keys \<and>
       (if \<exists>k' \<in> set keys. k' \<noteq> '''' \<and> path_prefix k' repo
        then path_prefix k repo \<and> (\<forall>k' \<in> set keys. k' \<noteq> '''' \<and> path_prefix k' repo \<longrightarrow> length k' \<le> length k)
        else filter (on_host (RegistryHost repo)) keys = [k])
   | None \<Rightarrow> (\<forall>k' \<in> set keys. k' \<noteq> '''' \<longrightarrow> \<not> path_prefix k' repo)
       \<and> (RegistryHost repo = '''' \<or> length (filter (on_host (RegistryHost repo)) keys) \<noteq> 1)"
proof (cases "MatchCredentialKey repo (\<lambda>k. k \<in> set keys)")
  case (Some k)
  with MatchCredentialKey_sound [OF Some] show ?thesis by (auto simp: ResolveCredentialKey_def)
next
  case None
  with MatchCredentialKey_None [OF None] have no: "\<not> (\<exists>k' \<in> set keys. k' \<noteq> '''' \<and> path_prefix k' repo)"
    by blast
  show ?thesis
  proof (cases "RegistryHost repo = ''''")
    case True
    with None no show ?thesis by (auto simp: ResolveCredentialKey_def)
  next
    case False
    have mem: "k \<in> set keys" if "filter (on_host (RegistryHost repo)) keys = [k]" for k
    proof -
      from that have "k \<in> set (filter (on_host (RegistryHost repo)) keys)" by simp
      then show ?thesis by simp
    qed
    have r: "ResolveCredentialKey repo keys =
        (case filter (on_host (RegistryHost repo)) keys of [k] \<Rightarrow> Some k | _ \<Rightarrow> None)"
      using None False by (simp add: ResolveCredentialKey_def sole_key_spec)
    show ?thesis
    proof (cases "\<exists>k. filter (on_host (RegistryHost repo)) keys = [k]")
      case True
      then obtain k where k: "filter (on_host (RegistryHost repo)) keys = [k]" by blast
      with r no mem [OF k] show ?thesis by auto
    next
      case more: False
      then have "ResolveCredentialKey repo keys = None"
        unfolding r by (auto split: list.split)
      with no more show ?thesis by (auto simp: length_Suc_conv)
    qed
  qed
qed

theorem ResolveCredentialKey_spec_witness:
  "ResolveCredentialKey ''ghcr.io/o/r'' [''ghcr.io'', ''ghcr.io/o''] = Some ''ghcr.io/o''
   \<and> path_prefix ''ghcr.io/o'' ''ghcr.io/o/r''"
proof -
  have r: "ResolveCredentialKey ''ghcr.io/o/r'' [''ghcr.io'', ''ghcr.io/o''] = Some ''ghcr.io/o''" by code_simp
  have "\<exists>k' \<in> set [''ghcr.io'', ''ghcr.io/o'']. k' \<noteq> '''' \<and> path_prefix k' ''ghcr.io/o/r''" by code_simp
  with r ResolveCredentialKey_spec [where repo = "''ghcr.io/o/r''" and keys = "[''ghcr.io'', ''ghcr.io/o'']"] show ?thesis
    by simp
qed

section \<open>Image references\<close>

text \<open>
  \<open>reference.ParseNormalizedNamed\<close> is third-party code: \<open>parse\<close> gives the domain and the
  repository path of a reference, \<open>None\<close> when it is malformed.
\<close>

datatype pull_error = EmptyReference | ParseReference string | EncodeAuth

definition CanonicalHost :: "(string \<Rightarrow> (string \<times> string) option) \<Rightarrow> string \<Rightarrow> pull_error + string" where
  "CanonicalHost parse ref =
     (if ref = '''' then Inl EmptyReference
      else case parse ref of
             None \<Rightarrow> Inl (ParseReference ref)
           | Some (domain, path) \<Rightarrow>
               (let host = ToLower domain
                in if host = ''index.docker.io'' then Inr ''docker.io'' else Inr host))"

definition CanonicalRepo :: "(string \<Rightarrow> (string \<times> string) option) \<Rightarrow> string \<Rightarrow> pull_error + string" where
  "CanonicalRepo parse ref =
     (case CanonicalHost parse ref of
        Inl e \<Rightarrow> Inl e
      | Inr host \<Rightarrow>
          (case parse ref of
             None \<Rightarrow> Inl (ParseReference ref)
           | Some (domain, path) \<Rightarrow> if path = '''' then Inr host else Inr (host @ ''/'' @ path)))"

text \<open>
  The two sides of the credential store disagree on Docker Hub aliases: a credential added
  for \<open>registry-1.docker.io\<close> is filed under \<open>docker.io\<close>, but an image on that host keeps its
  name, so the only stored credential is not found and the pull is anonymous.
\<close>

theorem hub_alias_not_folded:
  assumes "parse ref = Some (''registry-1.docker.io'', path)" "path \<noteq> ''''" "ref \<noteq> ''''"
  shows "CanonicalRepo parse ref = Inr (''registry-1.docker.io/'' @ path)
    \<and> canonicalRegistryKey ''registry-1.docker.io'' = ''docker.io''
    \<and> ResolveCredentialKey (''registry-1.docker.io/'' @ path) [''docker.io''] = None"
proof -
  let ?repo = "''registry-1.docker.io/'' @ path"
  have host: "RegistryHost ?repo = ''registry-1.docker.io''" by (simp add: RegistryHost_def)
  have np: "\<not> path_prefix ''docker.io'' ?repo" by (simp add: path_prefix_def)
  have "MatchCredentialKey ?repo (\<lambda>k. k \<in> set [''docker.io'']) = None"
  proof (rule ccontr)
    assume "MatchCredentialKey ?repo (\<lambda>k. k \<in> set [''docker.io'']) \<noteq> None"
    then obtain k where "MatchCredentialKey ?repo (\<lambda>k. k \<in> set [''docker.io'']) = Some k" by blast
    from MatchCredentialKey_sound [OF this] np show False by (auto simp del: append.simps)
  qed
  then have "ResolveCredentialKey ?repo [''docker.io''] = None"
    unfolding ResolveCredentialKey_def host by simp
  moreover have "CanonicalRepo parse ref = Inr ?repo"
    using assms by (simp add: CanonicalRepo_def CanonicalHost_def ToLower_def ascii_lower_def Let_def)
  moreover have "canonicalRegistryKey ''registry-1.docker.io'' = ''docker.io''" by code_simp
  ultimately show ?thesis by simp
qed

theorem hub_alias_not_folded_witness:
  "CanonicalRepo (\<lambda>r. Some (''registry-1.docker.io'', ''library/nginx'')) ''registry-1.docker.io/library/nginx''
     = Inr ''registry-1.docker.io/library/nginx''
   \<and> ResolveCredentialKey ''registry-1.docker.io/library/nginx'' [''docker.io''] = None"
  using hub_alias_not_folded [of "\<lambda>r. Some (''registry-1.docker.io'', ''library/nginx'')"
      "''registry-1.docker.io/library/nginx''" "''library/nginx''"]
  by simp

end
