(* ===== verification/Fsm.thy ===== *)
theory Fsm
  imports Command Registry
begin

text \<open>
  The replicated state machine of \<^verbatim>\<open>internal/controlplane/fsm/fsm.go\<close>. One definition per
  case of the type switch in \<open>applyPayload\<close>, each returning the new state and the audit entry
  the case asks for (\<open>no_audit\<close> for \<open>UNSPECIFIED, nil\<close>); \<open>applyPayload\<close> dispatches, and
  \<open>apply_command\<close> is \<open>Apply\<close> after decoding: it runs the payload and appends the audit
  event. A batch runs \<open>Apply\<close> on each child. Logging is left out.
\<close>

section \<open>The cases of the switch\<close>

type_synonym audit_result = "AuditEventType \<times> strmap"

abbreviation no_audit :: audit_result where
  "no_audit \<equiv> (AE_UNSPECIFIED, Map.empty)"

definition h_ClusterInit :: "ClusterInitMsg \<Rightarrow> timestamp \<Rightarrow> uint64 \<Rightarrow> State \<Rightarrow> State \<times> audit_result" where
  "h_ClusterInit ci ts idx s =
     (let s = s\<lparr>ClusterMetaCell := Cluster_Set \<lparr>cm_cluster_id = ci_cluster_id ci,
            cm_ca_cert = ci_ca_cert ci, cm_ca_key = ci_ca_key ci, cm_created_at = ts\<rparr> idx
            (ClusterMetaCell s)\<rparr>;
          s = (if length (ci_operator_token_hashed_secret ci) > 0
               then s\<lparr>Tokens := put tk_identity \<lparr>tk_identity = ''bootstrap'',
                      tk_hashed_secret = ci_operator_token_hashed_secret ci, tk_issued_at = ts,
                      tk_revoked_at = None, tk_allows_privileged = False\<rparr> idx (Tokens s)\<rparr>
               else s);
          s = (if ci_self_hostname ci \<noteq> ''''
               then s\<lparr>Nodes := put nd_hostname \<lparr>nd_hostname = ci_self_hostname ci,
                      nd_address = ci_self_address ci, nd_server_cert_fingerprint = '''',
                      nd_wireguard_pubkey = '''', nd_status = NS_READY,
                      nd_status_details = Map.empty, nd_joined_at = ts, nd_grpc_address = '''',
                      nd_cpu_pressure = 0, nd_memory_pressure = 0, nd_last_pressure_at = None\<rparr>
                      idx (Nodes s)\<rparr>
               else s)
      in (s, AE_NODE_JOIN, [''cluster_id'' \<mapsto> ci_cluster_id ci]))"

definition h_NodeJoin :: "NodeJoinMsg \<Rightarrow> timestamp \<Rightarrow> uint64 \<Rightarrow> State \<Rightarrow> State \<times> audit_result" where
  "h_NodeJoin nj ts idx s =
     (s\<lparr>Nodes := put nd_hostname \<lparr>nd_hostname = nj_hostname nj, nd_address = nj_address nj,
          nd_server_cert_fingerprint = nj_server_cert_fingerprint nj,
          nd_wireguard_pubkey = nj_wireguard_pubkey nj, nd_status = NS_JOINING,
          nd_status_details = Map.empty, nd_joined_at = ts,
          nd_grpc_address = nj_grpc_address nj, nd_cpu_pressure = 0, nd_memory_pressure = 0,
          nd_last_pressure_at = None\<rparr> idx (Nodes s)\<rparr>,
      AE_NODE_JOIN, [''hostname'' \<mapsto> nj_hostname nj])"

definition h_NodeRemove :: "string \<Rightarrow> uint64 \<Rightarrow> State \<Rightarrow> State \<times> audit_result" where
  "h_NodeRemove hostname idx s =
     (s\<lparr>Nodes := del hostname idx (Nodes s),
        Subnets := remove_where subnet_key (\<lambda>sn. sn_host sn = hostname) idx (Subnets s)\<rparr>,
      AE_NODE_REMOVE, [''hostname'' \<mapsto> hostname])"

definition h_NodeUpdateSelf :: "string \<Rightarrow> bytes \<Rightarrow> string \<Rightarrow> uint64 \<Rightarrow> State \<Rightarrow> State \<times> audit_result" where
  "h_NodeUpdateSelf hostname pubkey addr idx s =
     (case Store_Get (Nodes s) hostname of
        None \<Rightarrow> (s, no_audit)
      | Some node \<Rightarrow>
          (let node = (if length pubkey > 0 then node\<lparr>nd_wireguard_pubkey := pubkey\<rparr> else node);
               node = (if addr \<noteq> '''' then node\<lparr>nd_grpc_address := addr\<rparr> else node)
           in (s\<lparr>Nodes := put nd_hostname node idx (Nodes s)\<rparr>, no_audit)))"

definition h_NodeStatusUpdate :: "NodeStatusUpdateMsg \<Rightarrow> timestamp \<Rightarrow> uint64 \<Rightarrow> State \<Rightarrow> State \<times> audit_result" where
  "h_NodeStatusUpdate u ts idx s =
     (let s = (case Store_Get (Nodes s) (nu_hostname u) of
                 None \<Rightarrow> s
               | Some node \<Rightarrow>
                   (let node = (if nu_status u \<noteq> NS_UNSPECIFIED
                                then node\<lparr>nd_status := nu_status u, nd_status_details := nu_details u\<rparr>
                                else node);
                        node = (if nu_include_pressure u
                                then node\<lparr>nd_cpu_pressure := nu_cpu_pressure u,
                                          nd_memory_pressure := nu_memory_pressure u,
                                          nd_last_pressure_at := ts\<rparr>
                                else node)
                    in s\<lparr>Nodes := put nd_hostname node idx (Nodes s)\<rparr>))
      in if nu_status u = NS_ISOLATION_UNAVAILABLE
         then (s, AE_ISOLATION_UNAVAILABLE, [''hostname'' \<mapsto> nu_hostname u])
         else (s, no_audit))"

text \<open>
  \<open>DeploymentApply\<close> in its four stages: the deployment record, the rollout plans of services
  that are gone, the replace-set of the HTTP routes, the replace-set of the TCP routes.
\<close>

definition h_DeploymentApply_record :: "DeploymentApplyMsg \<Rightarrow> timestamp \<Rightarrow> uint64 \<Rightarrow> State \<Rightarrow> State" where
  "h_DeploymentApply_record da ts idx s =
     (let prevRev = (case Store_Get (Deployments s) (da_deployment da) of
                       Some existing \<Rightarrow> dp_applied_revision existing | None \<Rightarrow> 0)
      in s\<lparr>Deployments := put dp_name \<lparr>dp_name = da_deployment da,
             dp_applied_revision = da_revision da, dp_previous_revision = prevRev,
             dp_status = DS_ACTIVE, dp_status_details = Map.empty,
             dp_jaco_yaml = da_jaco_yaml da, dp_compose_yaml = da_compose_yaml da,
             dp_services = da_services da, dp_updated_at = ts,
             dp_acme_email = da_acme_email da\<rparr> idx (Deployments s)\<rparr>)"

definition h_DeploymentApply_plans :: "DeploymentApplyMsg \<Rightarrow> uint64 \<Rightarrow> State \<Rightarrow> State" where
  "h_DeploymentApply_plans da idx s =
     s\<lparr>RolloutPlans := remove_where rolloutplan_key
         (\<lambda>plan. rp_deployment plan = da_deployment da
                 \<and> rp_service plan \<notin> ss_name ` set (da_services da)) idx (RolloutPlans s)\<rparr>"

definition h_DeploymentApply_routes :: "DeploymentApplyMsg \<Rightarrow> uint64 \<Rightarrow> State \<Rightarrow> State" where
  "h_DeploymentApply_routes da idx s =
     (let kept = remove_where route_key
            (\<lambda>r. rt_deployment r = da_deployment da
                 \<and> route_key r \<notin> route_key ` set (da_routes da)) idx (Routes s)
      in s\<lparr>Routes := put_all route_key (da_routes da) idx kept\<rparr>)"

definition h_DeploymentApply_tcp :: "DeploymentApplyMsg \<Rightarrow> uint64 \<Rightarrow> State \<Rightarrow> State" where
  "h_DeploymentApply_tcp da idx s =
     (let kept = remove_where tcproute_key
            (\<lambda>r. tr_deployment r = da_deployment da
                 \<and> tcproute_key r \<notin> tcproute_key ` set (da_tcp_routes da)) idx (TCPRoutes s)
      in s\<lparr>TCPRoutes := put_all tcproute_key (da_tcp_routes da) idx kept\<rparr>)"

definition h_DeploymentApply :: "DeploymentApplyMsg \<Rightarrow> timestamp \<Rightarrow> uint64 \<Rightarrow> State \<Rightarrow> State \<times> audit_result" where
  "h_DeploymentApply da ts idx s =
     (h_DeploymentApply_tcp da idx (h_DeploymentApply_routes da idx
        (h_DeploymentApply_plans da idx (h_DeploymentApply_record da ts idx s))),
      AE_APPLY, [''deployment'' \<mapsto> da_deployment da, ''revision'' \<mapsto> FormatUint (unat (da_revision da))])"

definition h_DeploymentRollback :: "string \<Rightarrow> uint64 \<Rightarrow> timestamp \<Rightarrow> uint64 \<Rightarrow> State \<Rightarrow> State \<times> audit_result" where
  "h_DeploymentRollback name revision ts idx s =
     ((case Store_Get (Deployments s) name of
         None \<Rightarrow> s
       | Some existing \<Rightarrow>
           s\<lparr>Deployments := put dp_name (existing\<lparr>dp_applied_revision := revision,
               dp_previous_revision := dp_applied_revision existing, dp_updated_at := ts\<rparr>)
               idx (Deployments s)\<rparr>),
      AE_ROLLBACK, [''deployment'' \<mapsto> name, ''revision'' \<mapsto> FormatUint (unat revision)])"

definition removeReplicaDesired :: "string \<Rightarrow> uint64 \<Rightarrow> State \<Rightarrow> State" where
  "removeReplicaDesired id' idx s =
     s\<lparr>ReplicasDesired := del id' idx (ReplicasDesired s),
       ReplicasObserved := del id' idx (ReplicasObserved s),
       RestartCounters := del id' idx (RestartCounters s)\<rparr>"

definition h_DeploymentDelete :: "string \<Rightarrow> uint64 \<Rightarrow> State \<Rightarrow> State \<times> audit_result" where
  "h_DeploymentDelete name idx s =
     (let s = s\<lparr>Routes := remove_where route_key (\<lambda>r. rt_deployment r = name) idx (Routes s)\<rparr>;
          s = s\<lparr>TCPRoutes := remove_where tcproute_key (\<lambda>r. tr_deployment r = name) idx (TCPRoutes s)\<rparr>;
          s = fold (\<lambda>rd s'. if rd_deployment rd = name then removeReplicaDesired (rd_id rd) idx s' else s')
                (Store_List (ReplicasDesired s)) s;
          s = s\<lparr>RolloutPlans := remove_where rolloutplan_key (\<lambda>p. rp_deployment p = name) idx (RolloutPlans s)\<rparr>;
          s = s\<lparr>Subnets := remove_where subnet_key (\<lambda>sn. sn_deployment sn = name) idx (Subnets s)\<rparr>;
          s = s\<lparr>Deployments := del name idx (Deployments s)\<rparr>
      in (s, AE_DELETE, [''deployment'' \<mapsto> name]))"

definition h_DeploymentStatusUpdate :: "string \<Rightarrow> DeploymentStatus \<Rightarrow> strmap \<Rightarrow> uint64 \<Rightarrow> State \<Rightarrow> State \<times> audit_result" where
  "h_DeploymentStatusUpdate name status details idx s =
     (case Store_Get (Deployments s) name of
        None \<Rightarrow> (s, no_audit)
      | Some d \<Rightarrow> (s\<lparr>Deployments := put dp_name (d\<lparr>dp_status := status, dp_status_details := details\<rparr>)
                       idx (Deployments s)\<rparr>, no_audit))"

definition h_ReplicaDesiredUpsert :: "ReplicaDesired option \<Rightarrow> uint64 \<Rightarrow> State \<Rightarrow> State \<times> audit_result" where
  "h_ReplicaDesiredUpsert r idx s =
     (case r of None \<Rightarrow> (s, no_audit)
      | Some r \<Rightarrow> (s\<lparr>ReplicasDesired := put rd_id (r\<lparr>rd_raft_index := idx\<rparr>) idx (ReplicasDesired s)\<rparr>, no_audit))"

definition h_ReplicaDesiredRemove :: "string \<Rightarrow> uint64 \<Rightarrow> State \<Rightarrow> State \<times> audit_result" where
  "h_ReplicaDesiredRemove id' idx s = (removeReplicaDesired id' idx s, no_audit)"

definition h_ReplicaObservedUpdate :: "ReplicaObserved option \<Rightarrow> uint64 \<Rightarrow> State \<Rightarrow> State \<times> audit_result" where
  "h_ReplicaObservedUpdate r idx s =
     (case r of None \<Rightarrow> (s, no_audit)
      | Some r \<Rightarrow> (s\<lparr>ReplicasObserved := put ro_id r idx (ReplicasObserved s)\<rparr>, no_audit))"

definition h_ReplicaCommandIssue :: "string \<Rightarrow> string \<Rightarrow> uint64 \<Rightarrow> State \<Rightarrow> State \<times> audit_result" where
  "h_ReplicaCommandIssue id' op idx s = (s, no_audit)"

definition h_RolloutPlanUpdate :: "RolloutPlan option \<Rightarrow> uint64 \<Rightarrow> State \<Rightarrow> State \<times> audit_result" where
  "h_RolloutPlanUpdate p idx s =
     (case p of None \<Rightarrow> (s, no_audit)
      | Some plan \<Rightarrow> (s\<lparr>RolloutPlans := put rolloutplan_key plan idx (RolloutPlans s)\<rparr>, no_audit))"

definition h_ReplicaCounterIncrement :: "string \<Rightarrow> string \<Rightarrow> uint64 \<Rightarrow> State \<Rightarrow> State \<times> audit_result" where
  "h_ReplicaCounterIncrement deployment service idx s =
     (let next' = (case Store_Get (ReplicaCounters s) (ReplicaCounterKey deployment service) of
                     Some existing \<Rightarrow> rc_next_index existing + 1 | None \<Rightarrow> 1)
      in (s\<lparr>ReplicaCounters := put replicacounter_key \<lparr>rc_deployment = deployment,
              rc_service = service, rc_next_index = next'\<rparr> idx (ReplicaCounters s)\<rparr>, no_audit))"

definition h_RestartCounterUpdate :: "string \<Rightarrow> RestartAction \<Rightarrow> timestamp \<Rightarrow> uint64 \<Rightarrow> State \<Rightarrow> State \<times> audit_result" where
  "h_RestartCounterUpdate id' action ts idx s =
     ((case action of
         ACTION_INCREMENT \<Rightarrow>
           (let failures = (case Store_Get (RestartCounters s) id' of
                              Some existing \<Rightarrow> rs_consecutive_failures existing + 1 | None \<Rightarrow> 1)
            in s\<lparr>RestartCounters := put rs_replica_id \<lparr>rs_replica_id = id',
                   rs_consecutive_failures = failures, rs_last_attempt_at = ts\<rparr> idx (RestartCounters s)\<rparr>)
       | ACTION_RESET \<Rightarrow> s\<lparr>RestartCounters := del id' idx (RestartCounters s)\<rparr>
       | ACTION_UNSPECIFIED \<Rightarrow> s), no_audit)"

definition h_RouteUpsert :: "Route option \<Rightarrow> uint64 \<Rightarrow> State \<Rightarrow> State \<times> audit_result" where
  "h_RouteUpsert r idx s =
     (case r of None \<Rightarrow> (s, no_audit)
      | Some r \<Rightarrow> (s\<lparr>Routes := put route_key r idx (Routes s)\<rparr>, no_audit))"

definition h_RouteRemove :: "string \<Rightarrow> uint64 \<Rightarrow> State \<Rightarrow> State \<times> audit_result" where
  "h_RouteRemove domain idx s =
     (s\<lparr>Routes := remove_where route_key (\<lambda>r. rt_domain r = domain) idx (Routes s)\<rparr>, no_audit)"

definition h_CertStore :: "string \<Rightarrow> bytes \<Rightarrow> int \<Rightarrow> uint64 \<Rightarrow> State \<Rightarrow> State \<times> audit_result" where
  "h_CertStore key value' ttl idx s = (s, no_audit)"

definition lock_held_by_other :: "Cert \<Rightarrow> string \<Rightarrow> time \<Rightarrow> bool" where
  "lock_held_by_other c lessee now \<longleftrightarrow>
     ct_lessee c \<noteq> '''' \<and> ct_lessee c \<noteq> lessee
     \<and> ct_lock_until c \<noteq> None \<and> AsTime (ct_lock_until c) > now"

definition h_CertLock :: "string \<Rightarrow> string \<Rightarrow> timestamp \<Rightarrow> timestamp \<Rightarrow> uint64 \<Rightarrow> State \<Rightarrow> State \<times> audit_result" where
  "h_CertLock name lessee until' ts idx s =
     (let now = AsTime ts
      in case Store_Get (Certs s) name of
           Some c \<Rightarrow>
             if lock_held_by_other c lessee now then (s, no_audit)
             else (s\<lparr>Certs := put ct_domain (c\<lparr>ct_lessee := lessee, ct_lock_until := until'\<rparr>)
                       idx (Certs s)\<rparr>, no_audit)
         | None \<Rightarrow>
             (s\<lparr>Certs := put ct_domain \<lparr>ct_domain = name, ct_private_key = '''', ct_cert_chain = '''',
                  ct_not_before = None, ct_not_after = None, ct_lessee = lessee,
                  ct_lock_until = until'\<rparr> idx (Certs s)\<rparr>, no_audit))"

definition h_CertUnlock :: "string \<Rightarrow> uint64 \<Rightarrow> State \<Rightarrow> State \<times> audit_result" where
  "h_CertUnlock name idx s =
     (case Store_Get (Certs s) name of
        None \<Rightarrow> (s, no_audit)
      | Some c \<Rightarrow> (s\<lparr>Certs := put ct_domain (c\<lparr>ct_lessee := '''', ct_lock_until := None\<rparr>)
                       idx (Certs s)\<rparr>, no_audit))"

definition h_ChallengeTokenStore :: "ChallengeToken option \<Rightarrow> uint64 \<Rightarrow> State \<Rightarrow> State \<times> audit_result" where
  "h_ChallengeTokenStore t idx s =
     (case t of None \<Rightarrow> (s, no_audit)
      | Some t \<Rightarrow> (s\<lparr>ChallengeTokens := put ch_token t idx (ChallengeTokens s)\<rparr>, no_audit))"

definition h_CertBlobUpsert :: "CertBlob option \<Rightarrow> timestamp \<Rightarrow> uint64 \<Rightarrow> State \<Rightarrow> State \<times> audit_result" where
  "h_CertBlobUpsert b ts idx s =
     (case b of None \<Rightarrow> (s, no_audit)
      | Some b \<Rightarrow>
          (let b = (if cb_updated_at b = None then b\<lparr>cb_updated_at := ts\<rparr> else b)
           in (s\<lparr>CertBlobs := put cb_key b idx (CertBlobs s)\<rparr>, no_audit)))"

definition h_CertBlobRemove :: "string \<Rightarrow> uint64 \<Rightarrow> State \<Rightarrow> State \<times> audit_result" where
  "h_CertBlobRemove key idx s =
     (if key \<noteq> '''' then (s\<lparr>CertBlobs := del key idx (CertBlobs s)\<rparr>, no_audit) else (s, no_audit))"

definition h_SubnetAllocate :: "string \<Rightarrow> string \<Rightarrow> string \<Rightarrow> string \<Rightarrow> timestamp \<Rightarrow> uint64 \<Rightarrow> State \<Rightarrow> State \<times> audit_result" where
  "h_SubnetAllocate deployment network cidr host ts idx s =
     (s\<lparr>Subnets := put subnet_key \<lparr>sn_deployment = deployment, sn_network = network,
          sn_cidr = cidr, sn_allocated_at = ts, sn_host = host\<rparr> idx (Subnets s)\<rparr>, no_audit)"

definition h_SubnetFree :: "string \<Rightarrow> string \<Rightarrow> string \<Rightarrow> uint64 \<Rightarrow> State \<Rightarrow> State \<times> audit_result" where
  "h_SubnetFree deployment network host idx s =
     (if deployment \<noteq> '''' \<and> network \<noteq> '''' \<and> host \<noteq> ''''
      then (s\<lparr>Subnets := del (SubnetKey deployment network host) idx (Subnets s)\<rparr>, no_audit)
      else (s\<lparr>Subnets := remove_where subnet_key
              (\<lambda>sn. \<not> (deployment \<noteq> '''' \<and> sn_deployment sn \<noteq> deployment)
                  \<and> \<not> (network \<noteq> '''' \<and> sn_network sn \<noteq> network)
                  \<and> \<not> (host \<noteq> '''' \<and> sn_host sn \<noteq> host)) idx (Subnets s)\<rparr>, no_audit))"

definition h_TokenIssue :: "string \<Rightarrow> bytes \<Rightarrow> bool \<Rightarrow> timestamp \<Rightarrow> uint64 \<Rightarrow> State \<Rightarrow> State \<times> audit_result" where
  "h_TokenIssue ident hash allows ts idx s =
     (s\<lparr>Tokens := put tk_identity \<lparr>tk_identity = ident, tk_hashed_secret = hash,
          tk_issued_at = ts, tk_revoked_at = None, tk_allows_privileged = allows\<rparr> idx (Tokens s)\<rparr>,
      AE_TOKEN_ISSUE, [''identity'' \<mapsto> ident, ''allows_privileged'' \<mapsto> FormatBool allows])"

definition h_TokenRevoke :: "string \<Rightarrow> timestamp \<Rightarrow> uint64 \<Rightarrow> State \<Rightarrow> State \<times> audit_result" where
  "h_TokenRevoke ident ts idx s =
     ((case Store_Get (Tokens s) ident of
         None \<Rightarrow> s
       | Some t \<Rightarrow> s\<lparr>Tokens := put tk_identity (t\<lparr>tk_revoked_at := ts\<rparr>) idx (Tokens s)\<rparr>),
      AE_TOKEN_REVOKE, [''identity'' \<mapsto> ident])"

definition h_JoinTokenIssue :: "bytes \<Rightarrow> timestamp \<Rightarrow> timestamp \<Rightarrow> uint64 \<Rightarrow> State \<Rightarrow> State \<times> audit_result" where
  "h_JoinTokenIssue hash expires ts idx s =
     (s\<lparr>JoinTokens := put jointoken_key \<lparr>jt_hashed_secret = hash, jt_issued_at = ts,
          jt_expires_at = expires, jt_consumed_at = None\<rparr> idx (JoinTokens s)\<rparr>, no_audit)"

definition h_JoinTokenConsume :: "bytes \<Rightarrow> timestamp \<Rightarrow> uint64 \<Rightarrow> State \<Rightarrow> State \<times> audit_result" where
  "h_JoinTokenConsume hash ts idx s =
     (case Store_Get (JoinTokens s) (EncodeToString hash) of
        None \<Rightarrow> (s, no_audit)
      | Some t \<Rightarrow> (s\<lparr>JoinTokens := put jointoken_key (t\<lparr>jt_consumed_at := ts\<rparr>) idx (JoinTokens s)\<rparr>, no_audit))"

definition h_AuditAppend :: "AuditEvent option \<Rightarrow> uint64 \<Rightarrow> State \<Rightarrow> State \<times> audit_result" where
  "h_AuditAppend ev idx s =
     (case ev of None \<Rightarrow> (s, no_audit)
      | Some ev \<Rightarrow> (s\<lparr>AuditEvents := Audit_Append (ev\<lparr>ae_raft_index := idx\<rparr>) (AuditEvents s)\<rparr>, no_audit))"

definition h_Batch :: "('c \<Rightarrow> State \<Rightarrow> State) \<Rightarrow> 'c option list \<Rightarrow> State \<Rightarrow> State \<times> audit_result" where
  "h_Batch run children s =
     (fold (\<lambda>child s'. case child of None \<Rightarrow> s' | Some c \<Rightarrow> run c s') children s, no_audit)"

definition h_RegistryCredentialUpsert :: "RegistryCredential option \<Rightarrow> timestamp \<Rightarrow> uint64 \<Rightarrow> State \<Rightarrow> State \<times> audit_result" where
  "h_RegistryCredentialUpsert cred ts idx s =
     (case cred of None \<Rightarrow> (s, no_audit)
      | Some cred \<Rightarrow>
          (let host = canonicalRegistryKey (cr_registry cred)
           in if host = '''' then (s, no_audit)
              else let stored = cred\<lparr>cr_registry := host\<rparr>;
                       stored = (if cr_updated_at stored = None then stored\<lparr>cr_updated_at := ts\<rparr> else stored)
                   in (s\<lparr>RegistryCredentials := put cr_registry stored idx (RegistryCredentials s)\<rparr>,
                       AE_REGISTRY_CREDENTIAL_UPSERT,
                       [''registry'' \<mapsto> host, ''username'' \<mapsto> cr_username cred])))"

definition h_RegistryCredentialRemove :: "string \<Rightarrow> uint64 \<Rightarrow> State \<Rightarrow> State \<times> audit_result" where
  "h_RegistryCredentialRemove registry idx s =
     (let host = canonicalRegistryKey registry
      in if host = '''' then (s, no_audit)
         else (s\<lparr>RegistryCredentials := del host idx (RegistryCredentials s)\<rparr>,
               AE_REGISTRY_CREDENTIAL_REMOVE, [''registry'' \<mapsto> host]))"

section \<open>Dispatch and Apply\<close>

primrec applyPayload :: "('c \<Rightarrow> State \<Rightarrow> State) \<Rightarrow> 'c Payload \<Rightarrow> timestamp \<Rightarrow> uint64 \<Rightarrow> State
    \<Rightarrow> State \<times> audit_result" where
  "applyPayload run (ClusterInit m) ts idx s = h_ClusterInit m ts idx s"
| "applyPayload run (NodeJoin m) ts idx s = h_NodeJoin m ts idx s"
| "applyPayload run (NodeRemove h) ts idx s = h_NodeRemove h idx s"
| "applyPayload run (NodeUpdateSelf h k a) ts idx s = h_NodeUpdateSelf h k a idx s"
| "applyPayload run (NodeStatusUpdate m) ts idx s = h_NodeStatusUpdate m ts idx s"
| "applyPayload run (DeploymentApply m) ts idx s = h_DeploymentApply m ts idx s"
| "applyPayload run (DeploymentRollback d r) ts idx s = h_DeploymentRollback d r ts idx s"
| "applyPayload run (DeploymentDelete d) ts idx s = h_DeploymentDelete d idx s"
| "applyPayload run (DeploymentStatusUpdate d st m) ts idx s = h_DeploymentStatusUpdate d st m idx s"
| "applyPayload run (ReplicaDesiredUpsert r) ts idx s = h_ReplicaDesiredUpsert r idx s"
| "applyPayload run (ReplicaDesiredRemove i) ts idx s = h_ReplicaDesiredRemove i idx s"
| "applyPayload run (ReplicaObservedUpdate r) ts idx s = h_ReplicaObservedUpdate r idx s"
| "applyPayload run (ReplicaCommandIssue i p) ts idx s = h_ReplicaCommandIssue i p idx s"
| "applyPayload run (RolloutPlanUpdate p) ts idx s = h_RolloutPlanUpdate p idx s"
| "applyPayload run (ReplicaCounterIncrement d sv) ts idx s = h_ReplicaCounterIncrement d sv idx s"
| "applyPayload run (RestartCounterUpdate i a) ts idx s = h_RestartCounterUpdate i a ts idx s"
| "applyPayload run (RouteUpsert r) ts idx s = h_RouteUpsert r idx s"
| "applyPayload run (RouteRemove d) ts idx s = h_RouteRemove d idx s"
| "applyPayload run (CertStore k v t) ts idx s = h_CertStore k v t idx s"
| "applyPayload run (CertLock n l u) ts idx s = h_CertLock n l u ts idx s"
| "applyPayload run (CertUnlock n) ts idx s = h_CertUnlock n idx s"
| "applyPayload run (ChallengeTokenStore t) ts idx s = h_ChallengeTokenStore t idx s"
| "applyPayload run (CertBlobUpsert b) ts idx s = h_CertBlobUpsert b ts idx s"
| "applyPayload run (CertBlobRemove k) ts idx s = h_CertBlobRemove k idx s"
| "applyPayload run (SubnetAllocate d n c h) ts idx s = h_SubnetAllocate d n c h ts idx s"
| "applyPayload run (SubnetFree d n h) ts idx s = h_SubnetFree d n h idx s"
| "applyPayload run (TokenIssue i h a) ts idx s = h_TokenIssue i h a ts idx s"
| "applyPayload run (TokenRevoke i) ts idx s = h_TokenRevoke i ts idx s"
| "applyPayload run (JoinTokenIssue h e) ts idx s = h_JoinTokenIssue h e ts idx s"
| "applyPayload run (JoinTokenConsume h) ts idx s = h_JoinTokenConsume h ts idx s"
| "applyPayload run (AuditAppend e) ts idx s = h_AuditAppend e idx s"
| "applyPayload run (Batch cs) ts idx s = h_Batch run cs s"
| "applyPayload run (RegistryCredentialUpsert c) ts idx s = h_RegistryCredentialUpsert c ts idx s"
| "applyPayload run (RegistryCredentialRemove r) ts idx s = h_RegistryCredentialRemove r idx s"
| "applyPayload run NoPayload ts idx s = (s, no_audit)"

definition audit_append :: "Command \<Rightarrow> uint64 \<Rightarrow> State \<times> audit_result \<Rightarrow> State" where
  "audit_append cmd idx res =
     (case res of (s, auditType, auditPayload) \<Rightarrow>
        if auditType \<noteq> AE_UNSPECIFIED
        then s\<lparr>AuditEvents := Audit_Append \<lparr>ae_raft_index = idx, ae_type = auditType,
                 ae_identity = cmd_identity cmd, ae_ts = cmd_ts cmd, ae_payload = auditPayload\<rparr>
                 (AuditEvents s)\<rparr>
        else s)"

lemma h_Batch_cong:
  "(\<And>c. Some c \<in> set cs \<Longrightarrow> run c = run' c) \<Longrightarrow> h_Batch run cs = h_Batch run' cs"
proof (rule ext)
  fix s
  assume "\<And>c. Some c \<in> set cs \<Longrightarrow> run c = run' c"
  then have "fold (\<lambda>child s'. case child of None \<Rightarrow> s' | Some c \<Rightarrow> run c s') cs s =
      fold (\<lambda>child s'. case child of None \<Rightarrow> s' | Some c \<Rightarrow> run' c s') cs s"
    by (intro fold_cong) (auto simp: fun_eq_iff split: option.split)
  then show "h_Batch run cs s = h_Batch run' cs s" by (simp add: h_Batch_def)
qed

lemma applyPayload_cong [fundef_cong]:
  assumes "p = p'" "ts = ts'" "idx = idx'" "s = s'" "\<And>c. c \<in> set_Payload p' \<Longrightarrow> run c = run' c"
  shows "applyPayload run p ts idx s = applyPayload run' p' ts' idx' s'"
  using assms by (cases p') (auto simp: h_Batch_cong [of _ run run'])

function apply_command :: "uint64 \<Rightarrow> Command \<Rightarrow> State \<Rightarrow> State" where
  "apply_command idx cmd s =
     audit_append cmd idx (applyPayload (apply_command idx) (cmd_payload cmd) (cmd_ts cmd) idx s)"
  by pat_completeness auto
termination
proof (relation "measure (\<lambda>(idx, cmd, s). size cmd)", goal_cases)
  case (2 idx cmd s c s')
  then show ?case by (cases cmd) (auto dest: size_Batch_child)
qed simp

declare apply_command.simps [simp del]

text \<open>Replay of a log: every entry at its index, in order.\<close>

definition run_log :: "(uint64 \<times> Command) list \<Rightarrow> State \<Rightarrow> State" where
  "run_log es s = fold (\<lambda>(idx, cmd). apply_command idx cmd) es s"

lemma run_log_simps [simp]:
  "run_log [] s = s"
  "run_log ((idx, cmd) # es) s = run_log es (apply_command idx cmd s)"
  "run_log (es @ es') s = run_log es' (run_log es s)"
  by (simp_all add: run_log_def)

lemmas fsm_node_defs = h_ClusterInit_def h_NodeJoin_def h_NodeRemove_def h_NodeUpdateSelf_def
  h_NodeStatusUpdate_def

lemmas fsm_deploy_defs = h_DeploymentApply_def h_DeploymentApply_record_def
  h_DeploymentApply_plans_def h_DeploymentApply_routes_def h_DeploymentApply_tcp_def
  h_DeploymentRollback_def h_DeploymentStatusUpdate_def

lemmas fsm_replica_defs = h_ReplicaDesiredUpsert_def h_ReplicaDesiredRemove_def
  removeReplicaDesired_def h_ReplicaObservedUpdate_def h_ReplicaCommandIssue_def
  h_RolloutPlanUpdate_def h_ReplicaCounterIncrement_def h_RestartCounterUpdate_def

lemmas fsm_ingress_defs = h_RouteUpsert_def h_RouteRemove_def h_CertStore_def h_CertLock_def
  h_CertUnlock_def h_ChallengeTokenStore_def h_CertBlobUpsert_def h_CertBlobRemove_def
  h_SubnetAllocate_def h_SubnetFree_def

lemmas fsm_auth_defs = h_TokenIssue_def h_TokenRevoke_def h_JoinTokenIssue_def
  h_JoinTokenConsume_def h_AuditAppend_def h_RegistryCredentialUpsert_def
  h_RegistryCredentialRemove_def

lemmas fsm_defs = fsm_node_defs fsm_deploy_defs fsm_replica_defs fsm_ingress_defs fsm_auth_defs

end
