(* ===== verification/FsmInvariants.thy ===== *)
theory FsmInvariants
  imports Fsm
begin

text \<open>
  What every command keeps. A command is the sequence of its leaves: \<open>flatten\<close> unfolds nested
  batches, and \<open>apply_command\<close> runs the leaves one after the other at the same raft index. Two
  locales carry the induction over batches and logs once: \<open>fsm_invariant\<close> for a property of
  one state under a condition on the commands (it may mention the current raft index), and
  \<open>fsm_simulation\<close> for a relation between two states that run related commands. Each asks
  only for the cases of the switch without \<open>Batch\<close> and for the append of the audit event.
  They are interpreted for well-formedness of the stores, for the order and growth of the
  audit log, and for equality of states up to Go's map iteration order.
\<close>

section \<open>A command is the sequence of its leaves\<close>

definition is_batch :: "'c Payload \<Rightarrow> bool" where
  "is_batch p \<longleftrightarrow> (case p of Batch cs \<Rightarrow> True | _ \<Rightarrow> False)"

fun flatten :: "Command \<Rightarrow> Command list" where
  "flatten (Command cid ri ts ident p) =
     (case p of
        Batch cs \<Rightarrow> concat (map (\<lambda>c. case c of None \<Rightarrow> [] | Some c' \<Rightarrow> flatten c') cs)
      | _ \<Rightarrow> [Command cid ri ts ident p])"

lemma is_batch_iff: "is_batch p \<longleftrightarrow> (\<exists>cs. p = Batch cs)"
  by (cases p) (simp_all add: is_batch_def)

lemma is_batch_Batch [simp]: "is_batch (Batch cs)"
  by (simp add: is_batch_iff)

lemma flatten_single: "\<not> is_batch (cmd_payload c) \<Longrightarrow> flatten c = [c]"
  by (cases c) (auto simp: is_batch_def split: Payload.splits)

lemma flatten_leaf: "c' \<in> set (flatten c) \<Longrightarrow> \<not> is_batch (cmd_payload c')"
proof (induction c rule: flatten.induct)
  case (1 cid ri ts ident p)
  show ?case
  proof (cases "is_batch p")
    case True
    then obtain cs where p: "p = Batch cs" by (auto simp: is_batch_iff)
    with "1.prems" obtain c where "Some c \<in> set cs" "c' \<in> set (flatten c)"
      by (auto split: option.splits)
    with "1.IH" p show ?thesis by auto
  next
    case False
    with "1.prems" show ?thesis by (simp add: flatten_single del: flatten.simps)
  qed
qed

lemma apply_command_flatten: "apply_command i c s = fold (apply_command i) (flatten c) s"
proof (induction c arbitrary: s rule: flatten.induct)
  case (1 cid ri ts ident p)
  show ?case
  proof (cases "is_batch p")
    case True
    then obtain cs where p: "p = Batch cs" by (auto simp: is_batch_iff)
    with "1.IH" have IH: "Some c \<in> set cs \<Longrightarrow> apply_command i c s = fold (apply_command i) (flatten c) s"
      for c s by simp
    have "fst (h_Batch (apply_command i) cs s) = fold (apply_command i)
        (concat (map (\<lambda>c. case c of None \<Rightarrow> [] | Some c' \<Rightarrow> flatten c') cs)) s"
      using IH by (induction cs arbitrary: s) (auto simp: h_Batch_def split: option.split)
    then show ?thesis unfolding p
      by (subst apply_command.simps) (simp add: audit_append_def h_Batch_def)
  next
    case False
    then show ?thesis by (simp add: flatten_single del: flatten.simps)
  qed
qed

text \<open>A leaf does not look at the function its dispatch runs on the children of a batch.\<close>

definition leaf_payload :: "Command \<Rightarrow> uint64 \<Rightarrow> State \<Rightarrow> State \<times> audit_result" where
  "leaf_payload c i s = applyPayload (\<lambda>_::Command. id) (cmd_payload c) (cmd_ts c) i s"

lemma apply_leaf:
  "\<not> is_batch (cmd_payload c) \<Longrightarrow> apply_command i c s = audit_append c i (leaf_payload c i s)"
  by (cases "cmd_payload c") (simp_all add: apply_command.simps [of i c] leaf_payload_def)

text \<open>The leaves of a log, each at the index of its entry.\<close>

definition flatten_log :: "(uint64 \<times> Command) list \<Rightarrow> (uint64 \<times> Command) list" where
  "flatten_log es = concat (map (\<lambda>(i, c). map (Pair i) (flatten c)) es)"

lemma flatten_log_simps [simp]:
  "flatten_log [] = []"
  "flatten_log ((i, c) # es) = map (Pair i) (flatten c) @ flatten_log es"
  by (simp_all add: flatten_log_def)

lemma run_log_single: "run_log (map (Pair i) cs) s = fold (apply_command i) cs s"
  by (simp add: run_log_def fold_map comp_def)

lemma run_log_flatten: "run_log es s = run_log (flatten_log es) s"
proof (induction es arbitrary: s)
  case (Cons e es)
  then show ?case
    by (cases e) (simp add: run_log_single apply_command_flatten [symmetric])
qed simp

section \<open>Induction over commands and logs\<close>

abbreviation with_audit :: "AuditEvent \<Rightarrow> State \<Rightarrow> State" where
  "with_audit ev s \<equiv> s\<lparr>AuditEvents := Audit_Append ev (AuditEvents s)\<rparr>"

text \<open>The raft indices of a log do not decrease, starting from \<open>i\<close>.\<close>

definition log_from :: "uint64 \<Rightarrow> (uint64 \<times> Command) list \<Rightarrow> bool" where
  "log_from i es \<longleftrightarrow> sorted (i # map fst es)"

definition log_end :: "uint64 \<Rightarrow> (uint64 \<times> Command) list \<Rightarrow> uint64" where
  "log_end i es = last (i # map fst es)"

definition leaves_sat :: "(Command \<Rightarrow> bool) \<Rightarrow> (uint64 \<times> Command) list \<Rightarrow> bool" where
  "leaves_sat G es \<longleftrightarrow> list_all (\<lambda>(i, c). list_all G (flatten c)) es"

locale fsm_invariant =
  fixes G :: "Command \<Rightarrow> bool"
    and Inv :: "uint64 \<Rightarrow> State \<Rightarrow> bool"
  assumes leaf: "Inv i s \<Longrightarrow> \<not> is_batch (cmd_payload c) \<Longrightarrow> G c \<Longrightarrow> Inv i (fst (leaf_payload c i s))"
    and audit: "Inv i s \<Longrightarrow> ae_raft_index ev = i \<Longrightarrow> Inv i (with_audit ev s)"
    and mono: "Inv i s \<Longrightarrow> i \<le> j \<Longrightarrow> Inv j s"
begin

lemma leaf_command_inv:
  assumes "Inv i s" "\<not> is_batch (cmd_payload c)" "G c"
  shows "Inv i (apply_command i c s)"
proof -
  obtain t ty m where r: "leaf_payload c i s = (t, ty, m)" by (metis prod_cases3)
  with leaf [OF assms] have "Inv i t" by simp
  with r assms(2) show ?thesis by (simp add: apply_leaf audit_append_def audit)
qed

lemma leaves_inv:
  "Inv i s \<Longrightarrow> list_all (\<lambda>c. \<not> is_batch (cmd_payload c) \<and> G c) cs \<Longrightarrow>
    Inv i (fold (apply_command i) cs s)"
  by (induction cs arbitrary: s) (simp_all add: leaf_command_inv)

lemma apply_command_inv: "Inv i s \<Longrightarrow> list_all G (flatten c) \<Longrightarrow> Inv i (apply_command i c s)"
  by (simp add: apply_command_flatten [of i c s] leaves_inv list_all_iff flatten_leaf)

lemma run_log_inv:
  "Inv i s \<Longrightarrow> log_from i es \<Longrightarrow> leaves_sat G es \<Longrightarrow> Inv (log_end i es) (run_log es s)"
proof (induction es arbitrary: i s)
  case Nil
  then show ?case by (simp add: log_end_def)
next
  case (Cons e es)
  obtain j c where e: "e = (j, c)" by force
  with Cons.prems have "i \<le> j" "log_from j es" "list_all G (flatten c)" "leaves_sat G es"
    by (auto simp: log_from_def leaves_sat_def)
  moreover from this have "Inv j (apply_command j c s)"
    using Cons.prems by (auto intro: apply_command_inv mono)
  ultimately show ?case using Cons.IH e by (simp add: log_end_def)
qed

end

text \<open>The same for a property that does not mention the index: then any log will do.\<close>

locale fsm_index_free = fsm_invariant G "\<lambda>_. P" for G and P :: "State \<Rightarrow> bool"
begin

lemma run_log_keeps: "P s \<Longrightarrow> leaves_sat G es \<Longrightarrow> P (run_log es s)"
proof (induction es arbitrary: s)
  case (Cons e es)
  then show ?case by (cases e) (simp add: leaves_sat_def apply_command_inv)
qed simp

end

locale fsm_simulation =
  fixes R :: "State \<Rightarrow> State \<Rightarrow> bool"
    and tr :: "Command \<Rightarrow> Command"
  assumes sim_leaf: "R s t \<Longrightarrow> \<not> is_batch (cmd_payload c) \<Longrightarrow>
      R (fst (leaf_payload c i s)) (fst (leaf_payload (tr c) i t))
      \<and> snd (leaf_payload c i s) = snd (leaf_payload (tr c) i t)"
    and sim_audit: "R s t \<Longrightarrow> R (with_audit ev s) (with_audit ev t)"
    and tr_cmd: "cmd_ts (tr c) = cmd_ts c" "cmd_identity (tr c) = cmd_identity c"
    and tr_flatten: "flatten (tr c) = map tr (flatten c)"
    and tr_leaf: "is_batch (cmd_payload (tr c)) = is_batch (cmd_payload c)"
begin

lemma leaf_command_sim:
  assumes "R s t" "\<not> is_batch (cmd_payload c)"
  shows "R (apply_command i c s) (apply_command i (tr c) t)"
proof -
  obtain s' ty m where "leaf_payload c i s = (s', ty, m)" by (metis prod_cases3)
  moreover obtain t' ty' m' where "leaf_payload (tr c) i t = (t', ty', m')" by (metis prod_cases3)
  ultimately show ?thesis using sim_leaf [OF assms, of i] assms(2)
    by (simp add: apply_leaf tr_leaf audit_append_def tr_cmd sim_audit)
qed

lemma apply_command_sim: "R s t \<Longrightarrow> R (apply_command i c s) (apply_command i (tr c) t)"
proof -
  have "R s t \<Longrightarrow> list_all (\<lambda>c. \<not> is_batch (cmd_payload c)) cs \<Longrightarrow>
      R (fold (apply_command i) cs s) (fold (apply_command i) (map tr cs) t)" for cs
    by (induction cs arbitrary: s t) (simp_all add: leaf_command_sim)
  moreover assume "R s t"
  ultimately show ?thesis
    by (simp add: apply_command_flatten [of i c s] apply_command_flatten [of i "tr c" t]
        tr_flatten list_all_iff flatten_leaf)
qed

lemma run_log_sim: "R s t \<Longrightarrow> R (run_log es s) (run_log (map (apsnd tr) es) t)"
proof (induction es arbitrary: s t)
  case (Cons e es)
  then show ?case by (cases e) (simp add: apply_command_sim)
qed simp

end

section \<open>Cascading removal of replicas\<close>

lemma fold_removeReplicaDesired:
  "fold (\<lambda>rd s'. if P rd then removeReplicaDesired (rd_id rd) idx s' else s') rds s =
     s\<lparr>ReplicasDesired := fold (\<lambda>rd t. if P rd then del (rd_id rd) idx t else t) rds (ReplicasDesired s),
       ReplicasObserved := fold (\<lambda>rd t. if P rd then del (rd_id rd) idx t else t) rds (ReplicasObserved s),
       RestartCounters := fold (\<lambda>rd t. if P rd then del (rd_id rd) idx t else t) rds (RestartCounters s)\<rparr>"
  by (induction rds arbitrary: s) (simp_all add: removeReplicaDesired_def)

text \<open>\<open>DeploymentDelete\<close> in closed form, one store at a time.\<close>

lemma h_DeploymentDelete_eq:
  "fst (h_DeploymentDelete name idx s) =
     s\<lparr>Routes := remove_where route_key (\<lambda>r. rt_deployment r = name) idx (Routes s),
       TCPRoutes := remove_where tcproute_key (\<lambda>r. tr_deployment r = name) idx (TCPRoutes s),
       ReplicasDesired := remove_where rd_id (\<lambda>rd. rd_deployment rd = name) idx (ReplicasDesired s),
       ReplicasObserved := fold (\<lambda>rd t. if rd_deployment rd = name then del (rd_id rd) idx t else t)
         (Store_List (ReplicasDesired s)) (ReplicasObserved s),
       RestartCounters := fold (\<lambda>rd t. if rd_deployment rd = name then del (rd_id rd) idx t else t)
         (Store_List (ReplicasDesired s)) (RestartCounters s),
       RolloutPlans := remove_where rolloutplan_key (\<lambda>p. rp_deployment p = name) idx (RolloutPlans s),
       Subnets := remove_where subnet_key (\<lambda>sn. sn_deployment sn = name) idx (Subnets s),
       Deployments := del name idx (Deployments s)\<rparr>"
  by (simp add: h_DeploymentDelete_def Let_def fold_removeReplicaDesired remove_where_def)

lemma h_DeploymentDelete_audit:
  "snd (h_DeploymentDelete name idx s) = (AE_DELETE, [''deployment'' \<mapsto> name])"
  by (simp add: h_DeploymentDelete_def Let_def)

section \<open>Well-formedness of the stores\<close>

lemma state_ok_with_audit [simp]: "state_ok (with_audit ev s) = state_ok s"
  by (simp add: state_ok_def)

lemma state_ok_delete: "state_ok s \<Longrightarrow> state_ok (fst (h_DeploymentDelete name idx s))"
  by (simp add: h_DeploymentDelete_eq state_ok_def store_ok_fold_del)

lemma state_ok_leaf:
  assumes "state_ok s" "\<not> is_batch (cmd_payload c)"
  shows "state_ok (fst (leaf_payload c i s))"
  using assms unfolding leaf_payload_def
  by (cases "cmd_payload c") (simp_all add: fsm_defs state_ok_delete,
      simp_all add: state_ok_def Let_def split: option.split RestartAction.split)

interpretation ok_inv: fsm_index_free "\<lambda>_. True" state_ok
  by unfold_locales (simp_all add: state_ok_leaf)

section \<open>The audit log\<close>

text \<open>Only \<open>AuditAppend\<close> writes the log; the other cases return what \<open>Apply\<close> appends.\<close>

lemma leaf_audit_log:
  assumes "\<not> is_batch (cmd_payload c)"
  shows "al_log (AuditEvents (fst (leaf_payload c i s))) =
    al_log (AuditEvents s) @
      (case cmd_payload c of AuditAppend (Some ev) \<Rightarrow> [ev\<lparr>ae_raft_index := i\<rparr>] | _ \<Rightarrow> [])"
  using assms unfolding leaf_payload_def
  by (cases "cmd_payload c") (simp_all add: fsm_defs h_DeploymentDelete_eq Let_def
      split: option.split RestartAction.split)

text \<open>Appending only, with raft indices in order and none beyond the current index.\<close>

definition audit_grows :: "AuditEvent list \<Rightarrow> State \<Rightarrow> bool" where
  "audit_grows old s \<longleftrightarrow> prefix old (al_log (AuditEvents s))"

interpretation grow_inv: fsm_index_free "\<lambda>_. True" "audit_grows old" for old
  by unfold_locales (auto simp: audit_grows_def leaf_audit_log prefix_def split: Payload.split option.split)

definition audit_ordered :: "uint64 \<Rightarrow> State \<Rightarrow> bool" where
  "audit_ordered i s \<longleftrightarrow> sorted (map ae_raft_index (al_log (AuditEvents s)))
     \<and> (\<forall>ev \<in> set (al_log (AuditEvents s)). ae_raft_index ev \<le> i)"

interpretation order_inv: fsm_invariant "\<lambda>_. True" audit_ordered
proof unfold_locales
  fix i j s assume "audit_ordered i s" "i \<le> j"
  then show "audit_ordered j s" by (auto simp: audit_ordered_def)
qed (auto simp: audit_ordered_def leaf_audit_log sorted_append split: Payload.split option.split)

section \<open>Independence of the map iteration order\<close>

definition same_content :: "State \<Rightarrow> State \<Rightarrow> bool" where
  "same_content s t \<longleftrightarrow> state_ok s \<and> state_ok t \<and> state_eq s t"

lemma store_eq_simps:
  assumes "store_eq a b"
  shows "Store_Get a k = Store_Get b k" "store_eq (put kf v i a) (put kf v i b)"
    "store_eq (del k i a) (del k i b)"
  using assms by (simp_all add: store_eq_def)

lemma store_eq_remove_where:
  "store_eq a b \<Longrightarrow> store_ok kf a \<Longrightarrow> store_ok kf b \<Longrightarrow>
     store_eq (remove_where kf P i a) (remove_where kf P i b)"
  by (simp add: store_eq_def)

lemma store_eq_put_all:
  "store_eq a b \<Longrightarrow> store_ok kf a \<Longrightarrow> store_ok kf b \<Longrightarrow>
     store_eq (put_all kf vs i a) (put_all kf vs i b)"
  by (simp add: store_eq_def)

lemma store_eq_set_List:
  "store_eq a b \<Longrightarrow> store_ok kf a \<Longrightarrow> store_ok kf b \<Longrightarrow> set (Store_List a) = set (Store_List b)"
  by (simp add: store_eq_def Store_List_ran [of kf])

lemma store_eq_fold_del:
  assumes "store_eq a b" "store_ok kf a" "store_ok kf b"
    and "store_eq x y" "store_ok kg x" "store_ok kg y"
  shows "store_eq (fold (\<lambda>v t. if P v then del (f v) i t else t) (Store_List x) a)
    (fold (\<lambda>v t. if P v then del (f v) i t else t) (Store_List y) b)"
proof -
  have "set (Store_List x) = set (Store_List y)" using assms(4-6) by (rule store_eq_set_List)
  with assms(1-3) show ?thesis
    by (auto simp: store_eq_def Store_Get_fold_del [of kf] fun_eq_iff)
qed

lemma same_content_delete:
  assumes "same_content s t"
  shows "same_content (fst (h_DeploymentDelete n i s)) (fst (h_DeploymentDelete n i t))"
proof -
  from assms have st: "state_ok s" "state_ok t" "state_eq s t" by (auto simp: same_content_def)
  then have eq: "store_eq (fold (\<lambda>rd t. if rd_deployment rd = n then del (rd_id rd) i t else t)
        (Store_List (ReplicasDesired s)) a)
      (fold (\<lambda>rd t. if rd_deployment rd = n then del (rd_id rd) i t else t)
        (Store_List (ReplicasDesired t)) b)"
    if "store_eq a b" "store_ok kf a" "store_ok kf b" for a b :: "'v Store" and kf
    using that store_eq_fold_del [of a b kf "ReplicasDesired s" "ReplicasDesired t" rd_id]
    by (simp add: state_ok_def state_eq_def)
  note eq [of "ReplicasObserved s" "ReplicasObserved t" ro_id]
    eq [of "RestartCounters s" "RestartCounters t" rs_replica_id]
  with st have "state_eq (fst (h_DeploymentDelete n i s)) (fst (h_DeploymentDelete n i t))"
    by (simp add: h_DeploymentDelete_eq state_eq_def state_ok_def store_eq_simps
        store_eq_remove_where)
  with st show ?thesis by (simp add: same_content_def state_ok_delete)
qed

lemma state_eq_leaf:
  assumes "same_content s t" "\<not> is_batch (cmd_payload c)"
  shows "state_eq (fst (leaf_payload c i s)) (fst (leaf_payload c i t))"
proof -
  from assms(1) have st: "state_ok s" "state_ok t" "state_eq s t"
    by (auto simp: same_content_def)
  then have g: "Store_Get (Nodes s) = Store_Get (Nodes t)"
    "Store_Get (Deployments s) = Store_Get (Deployments t)"
    "Store_Get (Certs s) = Store_Get (Certs t)" "Store_Get (Tokens s) = Store_Get (Tokens t)"
    "Store_Get (JoinTokens s) = Store_Get (JoinTokens t)"
    "Store_Get (ReplicaCounters s) = Store_Get (ReplicaCounters t)"
    "Store_Get (RestartCounters s) = Store_Get (RestartCounters t)"
    by (simp_all add: state_eq_def store_eq_def)
  show ?thesis
    using assms st same_content_delete [OF assms(1)] unfolding leaf_payload_def
    by (cases "cmd_payload c") (simp_all add: fsm_defs g same_content_def, simp_all add: g state_eq_def state_ok_def
        Let_def store_eq_simps store_eq_remove_where store_eq_put_all
        split: option.split RestartAction.split)
qed

lemma snd_leaf_eq:
  assumes "same_content s t" "\<not> is_batch (cmd_payload c)"
  shows "snd (leaf_payload c i s) = snd (leaf_payload c i t)"
proof -
  from assms(1) have g: "Store_Get (Nodes s) = Store_Get (Nodes t)"
    "Store_Get (Deployments s) = Store_Get (Deployments t)"
    "Store_Get (Certs s) = Store_Get (Certs t)" "Store_Get (Tokens s) = Store_Get (Tokens t)"
    "Store_Get (JoinTokens s) = Store_Get (JoinTokens t)"
    by (simp_all add: same_content_def state_eq_def store_eq_def)
  show ?thesis using assms(2) unfolding leaf_payload_def
    by (cases "cmd_payload c") (simp_all add: fsm_defs g Let_def h_DeploymentDelete_audit
        split: option.split RestartAction.split)
qed

interpretation order_sim: fsm_simulation same_content id
proof unfold_locales
  fix s t c i
  assume *: "same_content s t" "\<not> is_batch (cmd_payload c)"
  then show "same_content (fst (leaf_payload c i s)) (fst (leaf_payload (id c) i t)) \<and>
      snd (leaf_payload c i s) = snd (leaf_payload (id c) i t)"
    using state_eq_leaf [OF *] snd_leaf_eq [OF *] by (auto simp: same_content_def state_ok_leaf)
next
  fix s t ev assume "same_content s t"
  then show "same_content (with_audit ev s) (with_audit ev t)"
    by (simp add: same_content_def state_eq_def)
qed simp_all

section \<open>Fields of the state a command leaves alone\<close>

lemma audit_append_sel [simp]:
  "Nodes (audit_append c i r) = Nodes (fst r)"
  "Deployments (audit_append c i r) = Deployments (fst r)"
  "ReplicasDesired (audit_append c i r) = ReplicasDesired (fst r)"
  "ReplicasObserved (audit_append c i r) = ReplicasObserved (fst r)"
  "Routes (audit_append c i r) = Routes (fst r)"
  "TCPRoutes (audit_append c i r) = TCPRoutes (fst r)"
  "Certs (audit_append c i r) = Certs (fst r)"
  "CertBlobs (audit_append c i r) = CertBlobs (fst r)"
  "ChallengeTokens (audit_append c i r) = ChallengeTokens (fst r)"
  "Tokens (audit_append c i r) = Tokens (fst r)"
  "JoinTokens (audit_append c i r) = JoinTokens (fst r)"
  "Subnets (audit_append c i r) = Subnets (fst r)"
  "RolloutPlans (audit_append c i r) = RolloutPlans (fst r)"
  "ReplicaCounters (audit_append c i r) = ReplicaCounters (fst r)"
  "RestartCounters (audit_append c i r) = RestartCounters (fst r)"
  "RegistryCredentials (audit_append c i r) = RegistryCredentials (fst r)"
  "ClusterMetaCell (audit_append c i r) = ClusterMetaCell (fst r)"
  by (simp_all add: audit_append_def split: prod.split)

lemma leaf_ReplicaCounters:
  "\<not> is_batch (cmd_payload c) \<Longrightarrow> ReplicaCounters (fst (leaf_payload c i s)) =
     (case cmd_payload c of ReplicaCounterIncrement d sv \<Rightarrow>
        ReplicaCounters (fst (h_ReplicaCounterIncrement d sv i s)) | _ \<Rightarrow> ReplicaCounters s)"
  unfolding leaf_payload_def
  by (cases "cmd_payload c") (simp_all add: fsm_defs h_DeploymentDelete_eq Let_def
      split: option.split RestartAction.split)

lemma leaf_Certs:
  "\<not> is_batch (cmd_payload c) \<Longrightarrow> Certs (fst (leaf_payload c i s)) =
     (case cmd_payload c of CertLock n l u \<Rightarrow> Certs (fst (h_CertLock n l u (cmd_ts c) i s))
      | CertUnlock n \<Rightarrow> Certs (fst (h_CertUnlock n i s)) | _ \<Rightarrow> Certs s)"
  unfolding leaf_payload_def
  by (cases "cmd_payload c") (simp_all add: fsm_defs h_DeploymentDelete_eq Let_def
      split: option.split RestartAction.split)

lemma leaf_Tokens:
  "\<not> is_batch (cmd_payload c) \<Longrightarrow> Tokens (fst (leaf_payload c i s)) =
     (case cmd_payload c of ClusterInit m \<Rightarrow> Tokens (fst (h_ClusterInit m (cmd_ts c) i s))
      | TokenIssue n h a \<Rightarrow> Tokens (fst (h_TokenIssue n h a (cmd_ts c) i s))
      | TokenRevoke n \<Rightarrow> Tokens (fst (h_TokenRevoke n (cmd_ts c) i s)) | _ \<Rightarrow> Tokens s)"
  unfolding leaf_payload_def
  by (cases "cmd_payload c") (simp_all add: fsm_defs h_DeploymentDelete_eq Let_def
      split: option.split RestartAction.split)

lemma leaf_JoinTokens:
  "\<not> is_batch (cmd_payload c) \<Longrightarrow> JoinTokens (fst (leaf_payload c i s)) =
     (case cmd_payload c of JoinTokenIssue h e \<Rightarrow> JoinTokens (fst (h_JoinTokenIssue h e (cmd_ts c) i s))
      | JoinTokenConsume h \<Rightarrow> JoinTokens (fst (h_JoinTokenConsume h (cmd_ts c) i s)) | _ \<Rightarrow> JoinTokens s)"
  unfolding leaf_payload_def
  by (cases "cmd_payload c") (simp_all add: fsm_defs h_DeploymentDelete_eq Let_def
      split: option.split RestartAction.split)

end
