(* ===== verification/Snapshot.thy ===== *)
theory Snapshot
  imports FsmInvariants
begin

text \<open>
  The bytes around the state machine: \<open>Apply\<close> of \<^verbatim>\<open>fsm.go\<close> on an encoded log entry, and
  \<open>Snapshot\<close>, \<open>Persist\<close> and \<open>Restore\<close> of \<^verbatim>\<open>snapshot.go\<close>. Protobuf encoding and decoding, the
  snapshot sink and the snapshot reader are third-party code and stand as parameters: an
  encoder gives \<open>None\<close> on error, a decoder gives \<open>None\<close> on malformed bytes.
\<close>

section \<open>Apply on encoded log entries\<close>

datatype fsm_error = UnmarshalCommand uint64 | FuelExhausted | MarshalSnapshot | ReadSnapshot
  | UnmarshalSnapshot

text \<open>
  A batch encodes each child again and calls \<open>Apply\<close> on the bytes, so the recursion is not
  structural; the first argument bounds its depth. The result of a child's \<open>Apply\<close> is dropped,
  and a child that cannot be encoded is skipped.
\<close>

fun Apply :: "nat \<Rightarrow> (Command \<Rightarrow> bytes option) \<Rightarrow> (bytes \<Rightarrow> Command option)
    \<Rightarrow> bytes \<Rightarrow> uint64 \<Rightarrow> State \<Rightarrow> fsm_error option \<times> State" where
  "Apply 0 marshal unmarshal data idx s = (Some FuelExhausted, s)"
| "Apply (Suc fuel) marshal unmarshal data idx s =
     (case unmarshal data of
        None \<Rightarrow> (Some (UnmarshalCommand idx), s)
      | Some cmd \<Rightarrow>
          (None, audit_append cmd idx (applyPayload
             (\<lambda>child s'. case marshal child of None \<Rightarrow> s'
                | Some childBytes \<Rightarrow> snd (Apply fuel marshal unmarshal childBytes idx s'))
             (cmd_payload cmd) (cmd_ts cmd) idx s)))"

text \<open>A command and everything nested in its batches.\<close>

fun descendants :: "Command \<Rightarrow> Command list" where
  "descendants (Command cid ri ts ident p) = Command cid ri ts ident p #
     (case p of Batch cs \<Rightarrow> concat (map (\<lambda>c. case c of None \<Rightarrow> [] | Some c' \<Rightarrow> descendants c') cs)
      | _ \<Rightarrow> [])"

lemma descendants_child:
  assumes "cmd_payload c = Batch cs" "Some c' \<in> set cs"
  shows "set (descendants c') \<subseteq> set (descendants c)"
  using assms by (cases c) force

lemma descendants_self: "c \<in> set (descendants c)"
  by (cases c) simp

lemma Apply_decoded:
  assumes "\<forall>d \<in> set (descendants c). \<exists>b. marshal d = Some b \<and> unmarshal b = Some d"
    and "marshal c = Some data" "size c \<le> fuel"
  shows "Apply (Suc fuel) marshal unmarshal data idx s = (None, apply_command idx c s)"
  using assms
proof (induction fuel arbitrary: c data s)
  case (0 c data s)
  then show ?case by (cases c) simp
next
  case (Suc fuel)
  have un: "unmarshal data = Some c"
    using Suc.prems descendants_self by (metis option.inject)
  let ?run = "\<lambda>child s'. case marshal child of None \<Rightarrow> s'
    | Some b \<Rightarrow> snd (Apply (Suc fuel) marshal unmarshal b idx s')"
  have "?run d = apply_command idx d" if d: "d \<in> set_Payload (cmd_payload c)" for d
  proof
    fix s'
    obtain cs where cs: "cmd_payload c = Batch cs" "Some d \<in> set cs"
      using d by (cases "cmd_payload c") auto
    have ds: "\<forall>d' \<in> set (descendants d). \<exists>b. marshal d' = Some b \<and> unmarshal b = Some d'"
      using Suc.prems(1) descendants_child [OF cs] by blast
    then obtain b where b: "marshal d = Some b" using descendants_self by blast
    have "size d \<le> fuel"
      using size_Batch_child [OF d] Suc.prems(3) by (cases c) (metis Command.sel(5) Suc_leI leD not_less_eq_eq order_le_less_trans)
    from Suc.IH [OF ds b this] b show "?run d s' = apply_command idx d s'" by simp
  qed
  then have "applyPayload ?run (cmd_payload c) (cmd_ts c) idx s =
      applyPayload (apply_command idx) (cmd_payload c) (cmd_ts c) idx s"
    by (intro applyPayload_cong) auto
  with un show ?case
    by (simp del: Apply.simps(2) add: Apply.simps(2) [of "Suc fuel"] apply_command.simps [of idx c])
qed

text \<open>
  C10. On the bytes of a command, \<open>Apply\<close> returns no error and does what the structural
  \<open>apply_command\<close> does, batches of batches included, provided protobuf decodes what it
  encoded for the command and its descendants; the recursion ends within the size of the
  command. Bytes that do not decode are reported and change nothing.
\<close>

theorem Apply_refines_command:
  assumes "\<forall>d \<in> set (descendants c). \<exists>b. marshal d = Some b \<and> unmarshal b = Some d"
    and "marshal c = Some data" "size c < fuel" "unmarshal garbage = None"
  shows "Apply fuel marshal unmarshal data idx s = (None, apply_command idx c s)
    \<and> Apply fuel marshal unmarshal garbage idx s = (Some (UnmarshalCommand idx), s)"
proof -
  obtain n where n: "fuel = Suc n" using assms(3) by (cases fuel) auto
  with assms(3) have "size c \<le> n" by simp
  from Apply_decoded [OF assms(1,2) this] assms(4) show ?thesis by (simp add: n)
qed

definition ex_child :: Command where
  "ex_child = mk_cmd ''child'' 1 (NodeRemove ''n1'')"

definition ex_parent :: Command where
  "ex_parent = mk_cmd ''parent'' 1 (Batch [Some ex_child, None])"

definition ex_unmarshal :: "bytes \<Rightarrow> Command option" where
  "ex_unmarshal b = (if b = ''child'' then Some ex_child else if b = ''parent'' then Some ex_parent else None)"

theorem Apply_refines_command_witness:
  "Apply (Suc (size ex_parent)) (\<lambda>c. Some (cmd_identity c)) ex_unmarshal ''parent'' 7 State_New
     = (None, apply_command 7 ex_parent State_New)
   \<and> Apply (Suc (size ex_parent)) (\<lambda>c. Some (cmd_identity c)) ex_unmarshal ''?'' 7 State_New
     = (Some (UnmarshalCommand 7), State_New)"
  by (rule Apply_refines_command)
    (simp_all add: ex_unmarshal_def ex_parent_def ex_child_def mk_cmd_def)

section \<open>Snapshots\<close>

record FSMSnapshot =
  sp_cluster :: "ClusterMeta option"
  sp_nodes :: "Node list"
  sp_deployments :: "Deployment list"
  sp_replicas_desired :: "ReplicaDesired list"
  sp_replicas_observed :: "ReplicaObserved list"
  sp_routes :: "Route list"
  sp_tcp_routes :: "TCPRoute list"
  sp_certs :: "Cert list"
  sp_cert_blobs :: "CertBlob list"
  sp_challenge_tokens :: "ChallengeToken list"
  sp_tokens :: "Token list"
  sp_join_tokens :: "JoinToken list"
  sp_subnets :: "Subnet list"
  sp_rollout_plans :: "RolloutPlan list"
  sp_replica_counters :: "ReplicaCounter list"
  sp_restart_counters :: "RestartCounter list"
  sp_audit_events :: "AuditEvent list"
  sp_registry_credentials :: "RegistryCredential list"

definition capture :: "State \<Rightarrow> FSMSnapshot" where
  "capture s = \<lparr>sp_cluster = Cluster_Get (ClusterMetaCell s), sp_nodes = Store_List (Nodes s),
     sp_deployments = Store_List (Deployments s),
     sp_replicas_desired = Store_List (ReplicasDesired s),
     sp_replicas_observed = Store_List (ReplicasObserved s), sp_routes = Store_List (Routes s),
     sp_tcp_routes = Store_List (TCPRoutes s), sp_certs = Store_List (Certs s),
     sp_cert_blobs = Store_List (CertBlobs s),
     sp_challenge_tokens = Store_List (ChallengeTokens s), sp_tokens = Store_List (Tokens s),
     sp_join_tokens = Store_List (JoinTokens s), sp_subnets = Store_List (Subnets s),
     sp_rollout_plans = Store_List (RolloutPlans s),
     sp_replica_counters = Store_List (ReplicaCounters s),
     sp_restart_counters = Store_List (RestartCounters s),
     sp_audit_events = Audit_List (AuditEvents s),
     sp_registry_credentials = Store_List (RegistryCredentials s)\<rparr>"

definition Snapshot :: "(FSMSnapshot \<Rightarrow> bytes option) \<Rightarrow> State \<Rightarrow> fsm_error + bytes" where
  "Snapshot marshal s = (case marshal (capture s) of None \<Rightarrow> Inl MarshalSnapshot | Some data \<Rightarrow> Inr data)"

definition reapply :: "FSMSnapshot \<Rightarrow> State \<Rightarrow> State" where
  "reapply sp s =
     s\<lparr>ClusterMetaCell := (case sp_cluster sp of Some c \<Rightarrow> Cluster_Set c 0 (ClusterMetaCell s)
         | None \<Rightarrow> ClusterMetaCell s),
       Nodes := put_all nd_hostname (sp_nodes sp) 0 (Nodes s),
       Deployments := put_all dp_name (sp_deployments sp) 0 (Deployments s),
       ReplicasDesired := put_all rd_id (sp_replicas_desired sp) 0 (ReplicasDesired s),
       ReplicasObserved := put_all ro_id (sp_replicas_observed sp) 0 (ReplicasObserved s),
       Routes := put_all route_key (sp_routes sp) 0 (Routes s),
       TCPRoutes := put_all tcproute_key (sp_tcp_routes sp) 0 (TCPRoutes s),
       Certs := put_all ct_domain (sp_certs sp) 0 (Certs s),
       CertBlobs := put_all cb_key (sp_cert_blobs sp) 0 (CertBlobs s),
       ChallengeTokens := put_all ch_token (sp_challenge_tokens sp) 0 (ChallengeTokens s),
       Tokens := put_all tk_identity (sp_tokens sp) 0 (Tokens s),
       JoinTokens := put_all jointoken_key (sp_join_tokens sp) 0 (JoinTokens s),
       Subnets := put_all subnet_key (sp_subnets sp) 0 (Subnets s),
       RolloutPlans := put_all rolloutplan_key (sp_rollout_plans sp) 0 (RolloutPlans s),
       ReplicaCounters := put_all replicacounter_key (sp_replica_counters sp) 0 (ReplicaCounters s),
       RestartCounters := put_all rs_replica_id (sp_restart_counters sp) 0 (RestartCounters s),
       AuditEvents := fold Audit_Append (sp_audit_events sp) (AuditEvents s),
       RegistryCredentials := put_all cr_registry (sp_registry_credentials sp) 0 (RegistryCredentials s)\<rparr>"

text \<open>\<open>read\<close> is what \<open>io.ReadAll\<close> gives on the snapshot reader.\<close>

definition Restore :: "(bytes \<Rightarrow> FSMSnapshot option) \<Rightarrow> bytes option \<Rightarrow> State \<Rightarrow> fsm_error option \<times> State" where
  "Restore unmarshal read s =
     (case read of
        None \<Rightarrow> (Some ReadSnapshot, s)
      | Some data \<Rightarrow>
          (case unmarshal data of
             None \<Rightarrow> (Some UnmarshalSnapshot, s)
           | Some sp \<Rightarrow> (None, reapply sp s)))"

text \<open>
  The sink of a snapshot: whether writing and closing succeed. \<open>Persist\<close> cancels the sink when
  the write fails and otherwise returns what closing returns.
\<close>

datatype sink_event = SinkWrite bytes | SinkCancel | SinkClose

definition Persist :: "bool \<Rightarrow> bool \<Rightarrow> bytes \<Rightarrow> bool \<times> sink_event list" where
  "Persist write_ok close_ok data =
     (if \<not> write_ok then (False, [SinkWrite data, SinkCancel])
      else (close_ok, [SinkWrite data, SinkClose]))"

lemma map_of_rev_distinct: "distinct (map fst xs) \<Longrightarrow> map_of (rev xs) = map_of xs"
  by (rule map_of_eqI) (auto simp: rev_map [symmetric] map_of_eq_Some_iff dest: map_of_SomeD
      intro: map_of_is_SomeI)

lemma keyed_list: "store_ok kf s \<Longrightarrow> map (\<lambda>v. (kf v, v)) (Store_List s) = st_byKey s"
  by (auto simp: store_ok_def Store_List_def intro!: map_idI)

lemma Store_Get_reapply:
  assumes "store_ok kf s" "store_ok kf t"
  shows "Store_Get (put_all kf (Store_List s) i t) = Store_Get t ++ Store_Get s"
proof -
  have "map_of (map (\<lambda>v. (kf v, v)) (rev (Store_List s))) = map_of (st_byKey s)"
    using assms(1) map_of_rev_distinct [of "st_byKey s"]
    by (simp add: rev_map [symmetric] keyed_list) (simp add: store_ok_def)
  also have "\<dots> = Store_Get s" by (simp add: fun_eq_iff Store_Get_def)
  finally show ?thesis using assms(2) by simp
qed

lemma al_log_fold_Append: "al_log (fold Audit_Append evs a) = al_log a @ evs"
  by (induction evs arbitrary: a) simp_all

text \<open>What \<open>Restore\<close> leaves in each part of a state that may already hold entries.\<close>

definition merged :: "State \<Rightarrow> State \<Rightarrow> State \<Rightarrow> bool" where
  "merged t s r \<longleftrightarrow> Store_Get (Nodes r) = Store_Get (Nodes t) ++ Store_Get (Nodes s)
     \<and> Store_Get (Deployments r) = Store_Get (Deployments t) ++ Store_Get (Deployments s)
     \<and> Store_Get (ReplicasDesired r) = Store_Get (ReplicasDesired t) ++ Store_Get (ReplicasDesired s)
     \<and> Store_Get (ReplicasObserved r) = Store_Get (ReplicasObserved t) ++ Store_Get (ReplicasObserved s)
     \<and> Store_Get (Routes r) = Store_Get (Routes t) ++ Store_Get (Routes s)
     \<and> Store_Get (TCPRoutes r) = Store_Get (TCPRoutes t) ++ Store_Get (TCPRoutes s)
     \<and> Store_Get (Certs r) = Store_Get (Certs t) ++ Store_Get (Certs s)
     \<and> Store_Get (CertBlobs r) = Store_Get (CertBlobs t) ++ Store_Get (CertBlobs s)
     \<and> Store_Get (ChallengeTokens r) = Store_Get (ChallengeTokens t) ++ Store_Get (ChallengeTokens s)
     \<and> Store_Get (Tokens r) = Store_Get (Tokens t) ++ Store_Get (Tokens s)
     \<and> Store_Get (JoinTokens r) = Store_Get (JoinTokens t) ++ Store_Get (JoinTokens s)
     \<and> Store_Get (Subnets r) = Store_Get (Subnets t) ++ Store_Get (Subnets s)
     \<and> Store_Get (RolloutPlans r) = Store_Get (RolloutPlans t) ++ Store_Get (RolloutPlans s)
     \<and> Store_Get (ReplicaCounters r) = Store_Get (ReplicaCounters t) ++ Store_Get (ReplicaCounters s)
     \<and> Store_Get (RestartCounters r) = Store_Get (RestartCounters t) ++ Store_Get (RestartCounters s)
     \<and> Store_Get (RegistryCredentials r) = Store_Get (RegistryCredentials t) ++ Store_Get (RegistryCredentials s)
     \<and> al_log (AuditEvents r) = al_log (AuditEvents t) @ al_log (AuditEvents s)
     \<and> cl_meta (ClusterMetaCell r) = (case cl_meta (ClusterMetaCell s) of
         None \<Rightarrow> cl_meta (ClusterMetaCell t) | Some m \<Rightarrow> Some m)"

lemma reapply_merges:
  assumes "state_ok s" "state_ok t"
  shows "merged t s (reapply (capture s) t)"
  using assms unfolding merged_def state_ok_def
  by (simp add: reapply_def capture_def Store_Get_reapply al_log_fold_Append Audit_List_def
      Cluster_Get_def split: option.split del: Store_Get_put_all)

lemma reapply_ok: "state_ok t \<Longrightarrow> state_ok (reapply sp t)"
  by (simp add: state_ok_def reapply_def)

lemma merged_New: "merged State_New s r \<Longrightarrow> state_eq r s"
  by (simp add: merged_def state_eq_def store_eq_def State_New_def split: option.splits)

text \<open>
  C9. Snapshot then Restore into the empty state a daemon starts with gives back the same
  content: every store, the audit log and the cluster record, provided protobuf decodes the
  snapshot it encoded. The restored state is well formed.
\<close>

theorem snapshot_restore_roundtrip:
  assumes "state_ok s" "Snapshot marshal s = Inr data" "unmarshal data = Some (capture s)"
  shows "fst (Restore unmarshal (Some data) State_New) = None
    \<and> state_eq (snd (Restore unmarshal (Some data) State_New)) s
    \<and> state_ok (snd (Restore unmarshal (Some data) State_New))"
  using assms merged_New [OF reapply_merges [OF assms(1) state_ok_New]]
  by (simp add: Restore_def reapply_ok)

text \<open>
  Restore merges, it does not replace: on a state that already holds entries, an entry
  missing from the snapshot survives and the audit events of the snapshot are appended to
  those already there.
\<close>

theorem restore_keeps_stale_entries:
  assumes "state_ok s" "state_ok t" "unmarshal data = Some (capture s)"
  shows "merged t s (snd (Restore unmarshal (Some data) t))"
  using assms reapply_merges [OF assms(1,2)] by (simp add: Restore_def)

theorem snapshot_restore_roundtrip_witness:
  "state_eq (snd (Restore (\<lambda>b. Some (capture (run_log [(1, ex_parent)] State_New))) (Some ''x'') State_New))
     (run_log [(1, ex_parent)] State_New)"
proof -
  have "state_ok (run_log [(1, ex_parent)] State_New)"
    by (rule ok_inv.run_log_keeps) (simp_all add: leaves_sat_def list_all_iff)
  from snapshot_restore_roundtrip [OF this, of "\<lambda>_. Some ''x''" "''x''"
      "\<lambda>b. Some (capture (run_log [(1, ex_parent)] State_New))"]
  show ?thesis by (simp add: Snapshot_def)
qed

text \<open>A follower that holds subnet \<open>web\<close> restores a snapshot of the empty cluster.\<close>

definition ex_follower :: State where
  "ex_follower = run_log [(1, mk_cmd ''ipam'' 1 (SubnetAllocate ''web'' ''default'' ''10.244.0.0/24'' ''n1''))] State_New"

theorem restore_keeps_stale_entries_witness:
  "Store_Get (Subnets State_New) (SubnetKey ''web'' ''default'' ''n1'') = None
   \<and> Store_Get (Subnets (snd (Restore (\<lambda>b. Some (capture State_New)) (Some ''x'') ex_follower)))
       (SubnetKey ''web'' ''default'' ''n1'') \<noteq> None"
proof -
  have "state_ok ex_follower"
    unfolding ex_follower_def by (rule ok_inv.run_log_keeps) (simp_all add: leaves_sat_def list_all_iff)
  from restore_keeps_stale_entries [OF state_ok_New this, of "\<lambda>b. Some (capture State_New)" "''x''"]
  have "Store_Get (Subnets (snd (Restore (\<lambda>b. Some (capture State_New)) (Some ''x'') ex_follower)))
      = Store_Get (Subnets ex_follower)"
    by (simp add: merged_def State_New_def)
  moreover have "Store_Get (Subnets ex_follower) (SubnetKey ''web'' ''default'' ''n1'') \<noteq> None"
    by code_simp
  ultimately show ?thesis by (simp add: State_New_def)
qed

end
