(* ===== verification/FsmProps.thy ===== *)
theory FsmProps
  imports FsmInvariants
begin

text \<open>
  The behaviour of the replicated state machine, command by command and over whole logs:
  replay from the empty state, independence of map iteration order, the audit log, the
  cascades and replace-sets of deployments, the replica counter, the certificate lease,
  revocation of tokens, consumption of join tokens, and secrecy of registry credentials.
\<close>

section \<open>Operations on the content of a store\<close>

definition drop_where :: "('v \<Rightarrow> bool) \<Rightarrow> (string \<rightharpoonup> 'v) \<Rightarrow> (string \<rightharpoonup> 'v)" where
  "drop_where P m = (\<lambda>k. case m k of None \<Rightarrow> None | Some v \<Rightarrow> if P v then None else Some v)"

lemma Store_Get_remove_where_drop:
  "store_ok kf s \<Longrightarrow> Store_Get (remove_where kf P i s) = drop_where P (Store_Get s)"
  by (simp add: drop_where_def)

lemma ran_drop_where: "ran (drop_where P m) = {v \<in> ran m. \<not> P v}"
  by (auto simp: drop_where_def ran_def split: option.splits if_splits)

lemma leaves_sat_True [simp]: "leaves_sat (\<lambda>_. True) es"
  by (simp add: leaves_sat_def list_all_iff)

lemma leaves_sat_append [simp]: "leaves_sat G (es @ es') \<longleftrightarrow> leaves_sat G es \<and> leaves_sat G es'"
  by (simp add: leaves_sat_def)

lemma apply_leaf_case:
  "\<not> is_batch (cmd_payload c) \<Longrightarrow> leaf_payload c i s = (t, a) \<Longrightarrow> apply_command i c s = audit_append c i (t, a)"
  by (simp add: apply_leaf)

section \<open>Replay of a log\<close>


text \<open>
  C3. Replicas stay equal: two well-formed states with the same content still have the same
  content after the same log, although \<open>List\<close> may visit the entries of each replica's maps
  in a different order at every step.
\<close>

theorem run_log_order_independent:
  assumes "state_ok s" "state_ok t" "state_eq s t"
  shows "state_eq (run_log es s) (run_log es t)"
proof -
  have "map (apsnd id) es = es" by (simp add: apsnd_def map_prod.id)
  with order_sim.run_log_sim [of s t es] assms show ?thesis by (simp add: same_content_def)
qed

text \<open>
  C24. The audit log only grows, at its end, and when raft delivers entries in index order the
  recorded indices are in order and never beyond the last entry applied.
\<close>

theorem audit_log_append_only:
  assumes "log_from i es" "audit_ordered i s"
  shows "prefix (al_log (AuditEvents s)) (al_log (AuditEvents (run_log es s)))
    \<and> audit_ordered (log_end i es) (run_log es s)"
proof -
  have "audit_grows (al_log (AuditEvents s)) (run_log es s)"
    by (rule grow_inv.run_log_keeps) (simp_all add: audit_grows_def)
  moreover have "audit_ordered (log_end i es) (run_log es s)"
    using assms by (intro order_inv.run_log_inv) simp_all
  ultimately show ?thesis by (simp add: audit_grows_def)
qed

text \<open>
  A batch is atomic in raft and sequential in effect: applying a log is applying the leaves
  of its batches, however deeply nested, one after the other at the index of their entry, and
  the batch adds no audit entry of its own.
\<close>

theorem batch_is_sequence:
  "run_log es s = run_log (flatten_log es) s
   \<and> list_all (\<lambda>(i, c). \<not> is_batch (cmd_payload c)) (flatten_log es)"
proof
  show "list_all (\<lambda>(i, c). \<not> is_batch (cmd_payload c)) (flatten_log es)"
    by (auto simp: flatten_log_def list_all_iff dest: flatten_leaf)
qed (rule run_log_flatten)

section \<open>Deployments\<close>

definition deleted_replica :: "string \<Rightarrow> State \<Rightarrow> string \<Rightarrow> bool" where
  "deleted_replica d s k \<longleftrightarrow>
     (case Store_Get (ReplicasDesired s) k of None \<Rightarrow> False | Some rd \<Rightarrow> rd_deployment rd = d)"

lemma deleted_replica_iff:
  assumes "store_ok rd_id (ReplicasDesired s)"
  shows "(\<exists>rd \<in> set (Store_List (ReplicasDesired s)). rd_deployment rd = d \<and> rd_id rd = k)
    \<longleftrightarrow> deleted_replica d s k"
proof (cases "Store_Get (ReplicasDesired s) k")
  case None
  then show ?thesis by (auto simp: deleted_replica_def kst.entries_iff [OF assms])
next
  case (Some rd)
  moreover from assms this have "rd_id rd = k" by (rule Store_Get_key)
  ultimately show ?thesis by (auto simp: deleted_replica_def kst.entries_iff [OF assms])
qed

text \<open>
  C23. \<open>DeploymentDelete\<close> removes the deployment and everything filed under it, and nothing
  else: its routes, TCP routes, rollout plans and subnets, its desired replicas and with each
  of them the observation and restart counter of the same id; every other store keeps its
  content (the replica counter too, so ids are not reused after a re-apply) and one audit
  event is appended.
\<close>

theorem DeploymentDelete_cascade:
  assumes "state_ok s" "cmd_payload c = DeploymentDelete d" "s' = apply_command i c s"
  shows "Store_Get (Deployments s') = (Store_Get (Deployments s))(d := None)
    \<and> Store_Get (Routes s') = drop_where (\<lambda>r. rt_deployment r = d) (Store_Get (Routes s))
    \<and> Store_Get (TCPRoutes s') = drop_where (\<lambda>r. tr_deployment r = d) (Store_Get (TCPRoutes s))
    \<and> Store_Get (RolloutPlans s') = drop_where (\<lambda>p. rp_deployment p = d) (Store_Get (RolloutPlans s))
    \<and> Store_Get (Subnets s') = drop_where (\<lambda>sn. sn_deployment sn = d) (Store_Get (Subnets s))
    \<and> Store_Get (ReplicasDesired s') = drop_where (\<lambda>rd. rd_deployment rd = d) (Store_Get (ReplicasDesired s))
    \<and> Store_Get (ReplicasObserved s') = (\<lambda>k. if deleted_replica d s k then None else Store_Get (ReplicasObserved s) k)
    \<and> Store_Get (RestartCounters s') = (\<lambda>k. if deleted_replica d s k then None else Store_Get (RestartCounters s) k)
    \<and> Nodes s' = Nodes s \<and> Certs s' = Certs s \<and> CertBlobs s' = CertBlobs s
    \<and> ChallengeTokens s' = ChallengeTokens s \<and> Tokens s' = Tokens s \<and> JoinTokens s' = JoinTokens s
    \<and> ReplicaCounters s' = ReplicaCounters s \<and> RegistryCredentials s' = RegistryCredentials s
    \<and> ClusterMetaCell s' = ClusterMetaCell s
    \<and> al_log (AuditEvents s') = al_log (AuditEvents s) @
       [\<lparr>ae_raft_index = i, ae_type = AE_DELETE, ae_identity = cmd_identity c, ae_ts = cmd_ts c,
         ae_payload = [''deployment'' \<mapsto> d]\<rparr>]"
proof -
  have s': "s' = with_audit \<lparr>ae_raft_index = i, ae_type = AE_DELETE, ae_identity = cmd_identity c,
      ae_ts = cmd_ts c, ae_payload = [''deployment'' \<mapsto> d]\<rparr> (fst (h_DeploymentDelete d i s))"
    using assms(2,3) h_DeploymentDelete_audit [of d i s]
    by (cases "h_DeploymentDelete d i s") (simp add: apply_command.simps [of i c] audit_append_def)
  have ok: "store_ok route_key (Routes s)" "store_ok tcproute_key (TCPRoutes s)"
    "store_ok rolloutplan_key (RolloutPlans s)" "store_ok subnet_key (Subnets s)"
    "store_ok rd_id (ReplicasDesired s)" "store_ok ro_id (ReplicasObserved s)"
    "store_ok rs_replica_id (RestartCounters s)"
    using assms(1) by (simp_all add: state_ok_def)
  show ?thesis
    unfolding s' h_DeploymentDelete_eq
    by (simp add: ok Store_Get_remove_where_drop Store_Get_fold_del [OF ok(6)]
        Store_Get_fold_del [OF ok(7)] deleted_replica_iff del: Store_Get_remove_where)
qed

text \<open>Applying a slice after removing what it does not name.\<close>

definition replace_set :: "('v \<Rightarrow> string) \<Rightarrow> ('v \<Rightarrow> bool) \<Rightarrow> 'v list \<Rightarrow> (string \<rightharpoonup> 'v) \<Rightarrow> (string \<rightharpoonup> 'v)" where
  "replace_set kf D vs m =
     (\<lambda>k. case map_of (map (\<lambda>v. (kf v, v)) (rev vs)) k of Some v \<Rightarrow> Some v | None \<Rightarrow> drop_where D m k)"

lemma map_of_keyed_None:
  "map_of (map (\<lambda>v. (kf v, v)) (rev vs)) k = None \<longleftrightarrow> k \<notin> kf ` set vs"
  by (simp add: map_of_eq_None_iff image_image)

lemma Store_Get_replace_set:
  assumes "store_ok kf s"
  shows "Store_Get (put_all kf vs i (remove_where kf (\<lambda>r. D r \<and> kf r \<notin> kf ` set vs) i s))
    = replace_set kf D vs (Store_Get s)"
proof (rule ext)
  fix k
  show "Store_Get (put_all kf vs i (remove_where kf (\<lambda>r. D r \<and> kf r \<notin> kf ` set vs) i s)) k
    = replace_set kf D vs (Store_Get s) k"
  proof (cases "map_of (map (\<lambda>v. (kf v, v)) (rev vs)) k")
    case None
    then have "k \<notin> kf ` set vs" by (simp add: map_of_keyed_None)
    with None assms Store_Get_key [OF assms, of k] show ?thesis
      by (auto simp: replace_set_def drop_where_def map_add_def split: option.split)
  next
    case (Some v)
    with assms show ?thesis by (simp add: replace_set_def map_add_def)
  qed
qed

lemma replace_set_members:
  assumes "distinct (map kf vs)" "\<forall>v \<in> set vs. D v"
  shows "{v \<in> ran (replace_set kf D vs m). D v} = set vs"
proof -
  have "map_of (map (\<lambda>v. (kf v, v)) (rev vs)) (kf v) = Some v" if "v \<in> set vs" for v
    using assms(1) that by (intro map_of_is_SomeI) (auto simp: rev_map [symmetric] comp_def)
  then have "v \<in> ran (replace_set kf D vs m)" if "v \<in> set vs" for v
    using that by (auto simp: replace_set_def ran_def split: option.split intro!: exI [of _ "kf v"])
  moreover have "v \<in> set vs" if v: "v \<in> ran (replace_set kf D vs m)" and "D v" for v
  proof -
    from v obtain k where k: "replace_set kf D vs m k = Some v" by (auto simp: ran_def)
    show ?thesis
    proof (cases "map_of (map (\<lambda>v. (kf v, v)) (rev vs)) k")
      case None
      with k \<open>D v\<close> show ?thesis
        by (auto simp: replace_set_def drop_where_def split: option.splits if_splits)
    next
      case (Some w)
      with k have "w = v" by (simp add: replace_set_def)
      with map_of_SomeD [OF Some] show ?thesis by auto
    qed
  qed
  ultimately show ?thesis using assms(2) by blast
qed

lemma apply_DeploymentApply:
  assumes "state_ok s" "cmd_payload c = DeploymentApply da" "s' = apply_command i c s"
  shows "Store_Get (Routes s') = replace_set route_key (\<lambda>r. rt_deployment r = da_deployment da)
           (da_routes da) (Store_Get (Routes s))"
    and "Store_Get (TCPRoutes s') = replace_set tcproute_key (\<lambda>r. tr_deployment r = da_deployment da)
           (da_tcp_routes da) (Store_Get (TCPRoutes s))"
  using assms(1) unfolding assms(3)
  by (simp_all add: apply_command.simps [of i c] assms(2) h_DeploymentApply_def state_ok_def
      h_DeploymentApply_routes_def h_DeploymentApply_tcp_def h_DeploymentApply_plans_def
      h_DeploymentApply_record_def Let_def Store_Get_replace_set
      del: Store_Get_put_all Store_Get_remove_where)

text \<open>
  \<open>DeploymentApply\<close> replaces the deployment's routes as a set: afterwards the HTTP and TCP
  routes of the deployment are exactly those of the command, and a route of another deployment
  is touched only when the command claims its key. The record carries the new revision and
  services, remembers the revision it replaces, and leaves other deployments alone.
\<close>

theorem DeploymentApply_replaces:
  assumes "state_ok s" "cmd_payload c = DeploymentApply da" "s' = apply_command i c s"
    and "\<forall>r \<in> set (da_routes da). rt_deployment r = da_deployment da"
    and "\<forall>r \<in> set (da_tcp_routes da). tr_deployment r = da_deployment da"
    and "distinct (map route_key (da_routes da))" "distinct (map tcproute_key (da_tcp_routes da))"
  shows "{r \<in> ran (Store_Get (Routes s')). rt_deployment r = da_deployment da} = set (da_routes da)
    \<and> {r \<in> ran (Store_Get (TCPRoutes s')). tr_deployment r = da_deployment da} = set (da_tcp_routes da)
    \<and> (\<forall>k r. Store_Get (Routes s) k = Some r \<and> rt_deployment r \<noteq> da_deployment da
          \<and> k \<notin> route_key ` set (da_routes da) \<longrightarrow> Store_Get (Routes s') k = Some r)
    \<and> (\<exists>dep. Store_Get (Deployments s') = (Store_Get (Deployments s))(da_deployment da \<mapsto> dep)
          \<and> dp_applied_revision dep = da_revision da \<and> dp_services dep = da_services da
          \<and> dp_status dep = DS_ACTIVE
          \<and> dp_previous_revision dep = (case Store_Get (Deployments s) (da_deployment da) of
              Some old \<Rightarrow> dp_applied_revision old | None \<Rightarrow> 0))"
proof (intro conjI)
  note eqs = apply_DeploymentApply [OF assms(1-3)]
  show "{r \<in> ran (Store_Get (Routes s')). rt_deployment r = da_deployment da} = set (da_routes da)"
    unfolding eqs(1) using assms(4,6) by (rule replace_set_members [rotated])
  show "{r \<in> ran (Store_Get (TCPRoutes s')). tr_deployment r = da_deployment da} = set (da_tcp_routes da)"
    unfolding eqs(2) using assms(5,7) by (rule replace_set_members [rotated])
  show "\<forall>k r. Store_Get (Routes s) k = Some r \<and> rt_deployment r \<noteq> da_deployment da
      \<and> k \<notin> route_key ` set (da_routes da) \<longrightarrow> Store_Get (Routes s') k = Some r"
    unfolding eqs(1) replace_set_def
    by (auto simp: drop_where_def map_of_keyed_None [symmetric])
  show "\<exists>dep. Store_Get (Deployments s') = (Store_Get (Deployments s))(da_deployment da \<mapsto> dep)
      \<and> dp_applied_revision dep = da_revision da \<and> dp_services dep = da_services da
      \<and> dp_status dep = DS_ACTIVE
      \<and> dp_previous_revision dep = (case Store_Get (Deployments s) (da_deployment da) of
          Some old \<Rightarrow> dp_applied_revision old | None \<Rightarrow> 0)"
    by (intro exI [of _ "the (Store_Get (Deployments s') (da_deployment da))"])
      (simp add: assms(3) apply_command.simps [of i c] assms(2) fsm_deploy_defs Let_def)
qed

text \<open>
  \<open>DeploymentRollback\<close> swaps the two revision markers and nothing more: services and stored
  YAML of the deployment stay those of the revision that is rolled back, and no route moves. A
  second rollback to the marker left behind restores the applied revision.
\<close>

theorem DeploymentRollback_flips_markers:
  assumes "state_ok s" "Store_Get (Deployments s) d = Some dep"
    and "cmd_payload c = DeploymentRollback d r" "s' = apply_command i c s"
    and "cmd_payload c2 = DeploymentRollback d (dp_applied_revision dep)"
  shows "Store_Get (Deployments s') d = Some (dep\<lparr>dp_applied_revision := r,
        dp_previous_revision := dp_applied_revision dep, dp_updated_at := cmd_ts c\<rparr>)
    \<and> Routes s' = Routes s \<and> TCPRoutes s' = TCPRoutes s \<and> ReplicasDesired s' = ReplicasDesired s
    \<and> Store_Get (Deployments (apply_command j c2 s')) d = Some (dep\<lparr>
        dp_previous_revision := r, dp_updated_at := cmd_ts c2\<rparr>)"
proof -
  have "dp_name dep = d"
    using assms(1,2) by (auto simp: state_ok_def intro: Store_Get_key)
  moreover from this have "Store_Get (Deployments s') d = Some (dep\<lparr>dp_applied_revision := r,
        dp_previous_revision := dp_applied_revision dep, dp_updated_at := cmd_ts c\<rparr>)"
    using assms(2-4) by (simp add: apply_command.simps [of i c] h_DeploymentRollback_def)
  ultimately show ?thesis using assms(2-5)
    by (simp add: apply_command.simps [of j c2] apply_command.simps [of i c] h_DeploymentRollback_def)
qed

section \<open>Replica counters\<close>

definition counter_at :: "string \<Rightarrow> State \<Rightarrow> uint64" where
  "counter_at k s = (case Store_Get (ReplicaCounters s) k of None \<Rightarrow> 0 | Some c \<Rightarrow> rc_next_index c)"

definition is_increment :: "string \<Rightarrow> Command \<Rightarrow> bool" where
  "is_increment k c \<longleftrightarrow> (case cmd_payload c of
     ReplicaCounterIncrement d sv \<Rightarrow> ReplicaCounterKey d sv = k | _ \<Rightarrow> False)"

lemma counter_leaf:
  "\<not> is_batch (cmd_payload c) \<Longrightarrow>
    counter_at k (apply_command i c s) = counter_at k s + (if is_increment k c then 1 else 0)"
  by (cases "cmd_payload c") (auto simp: counter_at_def is_increment_def apply_leaf leaf_ReplicaCounters
      h_ReplicaCounterIncrement_def Let_def replicacounter_key_def split: option.split)

lemma counter_leaves:
  "list_all (\<lambda>(i, c). \<not> is_batch (cmd_payload c)) es \<Longrightarrow>
    counter_at k (run_log es s) = counter_at k s + of_nat (length (filter (is_increment k \<circ> snd) es))"
proof (induction es arbitrary: s)
  case (Cons e es)
  then show ?case by (cases e) (simp add: counter_leaf)
qed simp

lemma counter_run_log:
  "counter_at k (run_log es s) =
     counter_at k s + of_nat (length (filter (is_increment k \<circ> snd) (flatten_log es)))"
proof -
  have "list_all (\<lambda>(i, c). \<not> is_batch (cmd_payload c)) (flatten_log es)"
    by (auto simp: flatten_log_def list_all_iff dest: flatten_leaf)
  from counter_leaves [OF this] show ?thesis by (simp flip: run_log_flatten)
qed

text \<open>
  The replica counter of a service counts: after any log it has advanced by exactly the
  number of increments for its key in the log, batches included, modulo \<open>2 ^ 64\<close>; no other
  command, not even deleting the deployment, resets it.
\<close>

theorem replica_counter_counts:
  "counter_at k (run_log es s) =
     counter_at k s + of_nat (length (filter (is_increment k \<circ> snd) (flatten_log es)))"
  by (rule counter_run_log)

section \<open>Certificate leases\<close>

definition lease_held :: "string \<Rightarrow> string \<Rightarrow> time \<Rightarrow> State \<Rightarrow> bool" where
  "lease_held name lessee until s \<longleftrightarrow> (case Store_Get (Certs s) name of
     None \<Rightarrow> False | Some c \<Rightarrow> ct_lessee c = lessee \<and> ct_lock_until c = Some until)"

text \<open>Commands of other holders, before the lease runs out; nobody unlocks the name.\<close>

definition others_before :: "string \<Rightarrow> string \<Rightarrow> time \<Rightarrow> Command \<Rightarrow> bool" where
  "others_before name lessee until c \<longleftrightarrow> (case cmd_payload c of
     CertUnlock n \<Rightarrow> n \<noteq> name
   | CertLock n l _ \<Rightarrow> n = name \<longrightarrow> l \<noteq> lessee \<and> AsTime (cmd_ts c) < until
   | _ \<Rightarrow> True)"

definition lease_kept :: "string \<Rightarrow> string \<Rightarrow> time \<Rightarrow> State \<Rightarrow> bool" where
  "lease_kept name lessee until s \<longleftrightarrow> state_ok s \<and> lessee \<noteq> '''' \<and> lease_held name lessee until s"

lemma lease_CertLock:
  assumes "lease_kept name lessee until s" "n = name \<longrightarrow> l \<noteq> lessee \<and> AsTime ts < until"
  shows "lease_held name lessee until (fst (h_CertLock n l u ts i s))"
proof (cases "n = name")
  case True
  with assms show ?thesis
    by (auto simp: lease_kept_def lease_held_def h_CertLock_def lock_held_by_other_def split: option.splits)
next
  case False
  have "ct_domain c = n" if "Store_Get (Certs s) n = Some c" for c
    using assms(1) that by (auto simp: lease_kept_def state_ok_def intro: Store_Get_key)
  with False assms(1) show ?thesis
    by (auto simp: lease_kept_def lease_held_def h_CertLock_def split: option.splits)
qed

lemma lease_CertUnlock:
  assumes "lease_kept name lessee until s" "n \<noteq> name"
  shows "lease_held name lessee until (fst (h_CertUnlock n i s))"
proof -
  have "ct_domain c = n" if "Store_Get (Certs s) n = Some c" for c
    using assms(1) that by (auto simp: lease_kept_def state_ok_def intro: Store_Get_key)
  with assms show ?thesis
    by (auto simp: lease_kept_def lease_held_def h_CertUnlock_def split: option.splits)
qed

lemma lease_leaf:
  assumes "lease_kept name lessee until s" "\<not> is_batch (cmd_payload c)"
    "others_before name lessee until c"
  shows "lease_kept name lessee until (fst (leaf_payload c i s))"
proof -
  have "lease_held name lessee until (fst (leaf_payload c i s))"
    using assms(1) leaf_Certs [OF assms(2), of i s] lease_CertLock [OF assms(1)]
      lease_CertUnlock [OF assms(1)] assms(3)
    by (cases "cmd_payload c") (simp_all add: lease_kept_def lease_held_def others_before_def)
  with assms(1,2) show ?thesis by (simp add: lease_kept_def state_ok_leaf)
qed

interpretation lease_inv: fsm_index_free "others_before name lessee until"
    "lease_kept name lessee until" for name lessee until
  by unfold_locales (simp_all add: lease_leaf, simp_all add: lease_kept_def lease_held_def)

text \<open>
  A certificate lease is exclusive until it expires: while every attempt of other holders
  carries a command time before the expiry and nobody unlocks the name, the lease stays with
  its holder and keeps its expiry, whatever else the log does.
\<close>

theorem cert_lease_exclusive:
  assumes "state_ok s" "lease_held name lessee until s" "lessee \<noteq> ''''"
    and "leaves_sat (others_before name lessee until) es"
  shows "lease_held name lessee until (run_log es s)"
  using lease_inv.run_log_keeps [of name lessee until s es] assms by (simp add: lease_kept_def)

text \<open>
  A lock attempt is decided by the command's own time: it takes the lease exactly when no
  other holder's lease is still running at that time, and otherwise leaves the state unchanged.
\<close>

theorem CertLock_decision:
  assumes "state_ok s" "cmd_payload c = CertLock name lessee until"
  shows "if (\<exists>ct. Store_Get (Certs s) name = Some ct \<and> lock_held_by_other ct lessee (AsTime (cmd_ts c)))
    then apply_command i c s = s
    else \<exists>ct. Store_Get (Certs (apply_command i c s)) = (Store_Get (Certs s))(name \<mapsto> ct)
           \<and> ct_lessee ct = lessee \<and> ct_lock_until ct = until
           \<and> (\<forall>old. Store_Get (Certs s) name = Some old \<longrightarrow>
                ct = old\<lparr>ct_lessee := lessee, ct_lock_until := until\<rparr>)"
proof (cases "Store_Get (Certs s) name")
  case None
  then show ?thesis
    using assms(2) by (auto simp: apply_command.simps [of i c] h_CertLock_def audit_append_def
        intro!: exI [of _ "\<lparr>ct_domain = name, ct_private_key = '''', ct_cert_chain = '''',
          ct_not_before = None, ct_not_after = None, ct_lessee = lessee, ct_lock_until = until\<rparr>"])
next
  case (Some ct)
  with assms(1) have "ct_domain ct = name" by (auto simp: state_ok_def intro: Store_Get_key)
  with Some show ?thesis
    using assms(2) by (auto simp: apply_command.simps [of i c] h_CertLock_def audit_append_def)
qed

section \<open>Tokens\<close>

text \<open>The token of an identity is revoked and still has a given hash.\<close>

definition token_revoked :: "string \<Rightarrow> bytes \<Rightarrow> State \<Rightarrow> bool" where
  "token_revoked ident h s \<longleftrightarrow> (case Store_Get (Tokens s) ident of
     None \<Rightarrow> False | Some t \<Rightarrow> tk_revoked_at t \<noteq> None \<and> tk_hashed_secret t = h)"

text \<open>
  Commands that do not issue the identity again; a cluster initialisation that carries an
  operator secret issues \<open>bootstrap\<close>. A revocation carries a time.
\<close>

definition no_reissue :: "string \<Rightarrow> Command \<Rightarrow> bool" where
  "no_reissue ident c \<longleftrightarrow> (case cmd_payload c of
     TokenIssue n _ _ \<Rightarrow> n \<noteq> ident
   | TokenRevoke n \<Rightarrow> cmd_ts c \<noteq> None
   | ClusterInit m \<Rightarrow> ci_operator_token_hashed_secret m = '''' \<or> ident \<noteq> ''bootstrap''
   | _ \<Rightarrow> True)"

definition revoked_kept :: "string \<Rightarrow> bytes \<Rightarrow> State \<Rightarrow> bool" where
  "revoked_kept ident h s \<longleftrightarrow> state_ok s \<and> token_revoked ident h s"

lemma revoked_TokenRevoke:
  assumes "revoked_kept ident h s" "ts \<noteq> None"
  shows "token_revoked ident h (fst (h_TokenRevoke n ts i s))"
proof -
  have "tk_identity t = n" if "Store_Get (Tokens s) n = Some t" for t
    using assms(1) that by (auto simp: revoked_kept_def state_ok_def intro: Store_Get_key)
  with assms show ?thesis
    by (auto simp: revoked_kept_def token_revoked_def h_TokenRevoke_def split: option.splits)
qed

lemma revoked_leaf:
  assumes "revoked_kept ident h s" "\<not> is_batch (cmd_payload c)" "no_reissue ident c"
  shows "revoked_kept ident h (fst (leaf_payload c i s))"
proof -
  have "token_revoked ident h (fst (leaf_payload c i s))"
    using assms(1) leaf_Tokens [OF assms(2), of i s] revoked_TokenRevoke [OF assms(1)] assms(3)
    by (cases "cmd_payload c")
      (simp_all add: revoked_kept_def token_revoked_def no_reissue_def h_TokenIssue_def
        h_ClusterInit_def Let_def split: if_splits)
  with assms(1,2) show ?thesis by (simp add: revoked_kept_def state_ok_leaf)
qed

interpretation revoked_inv: fsm_index_free "no_reissue ident" "revoked_kept ident h" for ident h
  by unfold_locales (simp_all add: revoked_leaf, simp_all add: revoked_kept_def token_revoked_def)

text \<open>
  Revocation is final: once the token of an identity is revoked, no log that does not issue
  that identity again can make it valid or change its hash.
\<close>

theorem token_revocation_final:
  assumes "state_ok s" "token_revoked ident h s" "leaves_sat (no_reissue ident) es"
  shows "token_revoked ident h (run_log es s)"
  using revoked_inv.run_log_keeps [of ident h s es] assms by (simp add: revoked_kept_def)

text \<open>A join token that has been consumed.\<close>

definition join_consumed :: "bytes \<Rightarrow> State \<Rightarrow> bool" where
  "join_consumed h s \<longleftrightarrow> (case Store_Get (JoinTokens s) (EncodeToString h) of
     None \<Rightarrow> False | Some t \<Rightarrow> jt_hashed_secret t = h \<and> jt_consumed_at t \<noteq> None)"

definition no_join_reissue :: "bytes \<Rightarrow> Command \<Rightarrow> bool" where
  "no_join_reissue h c \<longleftrightarrow> (case cmd_payload c of
     JoinTokenIssue h' _ \<Rightarrow> h' \<noteq> h | JoinTokenConsume _ \<Rightarrow> cmd_ts c \<noteq> None | _ \<Rightarrow> True)"

definition consumed_kept :: "bytes \<Rightarrow> State \<Rightarrow> bool" where
  "consumed_kept h s \<longleftrightarrow> state_ok s \<and> join_consumed h s"

lemma consumed_JoinTokenConsume:
  assumes "state_ok s" "join_consumed h s \<or> h' = h \<and> Store_Get (JoinTokens s) (EncodeToString h) \<noteq> None"
    "ts \<noteq> None"
  shows "join_consumed h (fst (h_JoinTokenConsume h' ts i s))"
proof -
  have "jt_hashed_secret t = g" if "Store_Get (JoinTokens s) (EncodeToString g) = Some t" for t g
    using assms(1) that Store_Get_key [of jointoken_key "JoinTokens s" "EncodeToString g" t]
    by (simp add: state_ok_def jointoken_key_def)
  with assms(2,3) show ?thesis
    by (auto simp: join_consumed_def h_JoinTokenConsume_def jointoken_key_def split: option.splits)
qed

lemma consumed_leaf:
  assumes "consumed_kept h s" "\<not> is_batch (cmd_payload c)" "no_join_reissue h c"
  shows "consumed_kept h (fst (leaf_payload c i s))"
proof -
  have "state_ok s" "join_consumed h s" using assms(1) by (simp_all add: consumed_kept_def)
  then have "join_consumed h (fst (leaf_payload c i s))"
    using leaf_JoinTokens [OF assms(2), of i s] consumed_JoinTokenConsume [of s h _ "cmd_ts c" i] assms(3)
    by (cases "cmd_payload c")
      (simp_all add: join_consumed_def no_join_reissue_def h_JoinTokenIssue_def jointoken_key_def)
  with assms(1,2) show ?thesis by (simp add: consumed_kept_def state_ok_leaf)
qed

interpretation consumed_inv: fsm_index_free "no_join_reissue h" "consumed_kept h" for h
  by unfold_locales (simp_all add: consumed_leaf, simp_all add: consumed_kept_def join_consumed_def)

text \<open>
  A join token is single-use: consuming a known token marks it, and after that no log that
  does not issue the same hash again can make it unconsumed.
\<close>

theorem join_token_single_use:
  assumes "state_ok s" "Store_Get (JoinTokens s) (EncodeToString h) \<noteq> None"
    and "cmd_payload c = JoinTokenConsume h" "cmd_ts c \<noteq> None"
    and "leaves_sat (no_join_reissue h) es"
  shows "join_consumed h (run_log ((i, c) # es) s)"
proof -
  have "\<not> is_batch (cmd_payload c)" by (simp add: assms(3) is_batch_def)
  then have "JoinTokens (apply_command i c s) = JoinTokens (fst (h_JoinTokenConsume h (cmd_ts c) i s))"
    by (simp add: apply_leaf leaf_JoinTokens assms(3))
  then have "join_consumed h (apply_command i c s)"
    using consumed_JoinTokenConsume [of s h h "cmd_ts c" i] assms by (simp add: join_consumed_def)
  moreover have "state_ok (apply_command i c s)"
    using assms(1) by (rule ok_inv.apply_command_inv) (simp add: list_all_iff)
  ultimately show ?thesis
    using consumed_inv.run_log_keeps [of h "apply_command i c s" es] assms(5)
    by (simp add: consumed_kept_def)
qed

section \<open>Registry credentials\<close>

text \<open>Replace every registry secret in a command, in nested batches too.\<close>

definition redact_leaf :: "bytes \<Rightarrow> 'c Payload \<Rightarrow> 'c Payload" where
  "redact_leaf x p = (case p of
     RegistryCredentialUpsert cr \<Rightarrow> RegistryCredentialUpsert (map_option (cr_secret_update (\<lambda>_. x)) cr)
   | _ \<Rightarrow> p)"

primrec redact :: "bytes \<Rightarrow> Command \<Rightarrow> Command" where
  "redact x (Command cid ri ts ident p) = Command cid ri ts ident (redact_leaf x (map_Payload (redact x) p))"

definition same_but_credentials :: "State \<Rightarrow> State \<Rightarrow> bool" where
  "same_but_credentials s t \<longleftrightarrow> t = s\<lparr>RegistryCredentials := RegistryCredentials t\<rparr>"

lemma redact_sel [simp]:
  "cmd_ts (redact x c) = cmd_ts c" "cmd_identity (redact x c) = cmd_identity c"
  "cmd_payload (redact x c) = redact_leaf x (map_Payload (redact x) (cmd_payload c))"
  by (cases c; simp)+

lemma is_batch_redact: "is_batch (redact_leaf x (map_Payload f p)) = is_batch p"
  by (cases p) (simp_all add: redact_leaf_def is_batch_def)

lemma flatten_redact: "flatten (redact x c) = map (redact x) (flatten c)"
proof (induction c rule: flatten.induct)
  case (1 cid ri ts ident p)
  show ?case
  proof (cases "is_batch p")
    case True
    then obtain cs where p: "p = Batch cs" by (auto simp: is_batch_iff)
    with "1.IH" show ?thesis
      by (auto simp: redact_leaf_def map_concat comp_def intro!: arg_cong [where f = concat]
          split: option.split)
  next
    case False
    then show ?thesis
      by (simp add: flatten_single is_batch_redact del: flatten.simps redact.simps)
  qed
qed

lemma leaf_redact:
  assumes "\<not> is_batch (cmd_payload c)"
  shows "\<exists>r. leaf_payload (redact x c) i (s\<lparr>RegistryCredentials := rc\<rparr>)
    = ((fst (leaf_payload c i s))\<lparr>RegistryCredentials := r\<rparr>, snd (leaf_payload c i s))"
proof (cases "\<exists>cr. cmd_payload c = RegistryCredentialUpsert cr \<or> (\<exists>h. cmd_payload c = RegistryCredentialRemove h)")
  case True
  then show ?thesis
    by (auto simp: leaf_payload_def redact_leaf_def h_RegistryCredentialUpsert_def
        h_RegistryCredentialRemove_def Let_def split: option.split)
next
  case False
  then have "leaf_payload (redact x c) i (s\<lparr>RegistryCredentials := rc\<rparr>)
    = ((fst (leaf_payload c i s))\<lparr>RegistryCredentials := rc\<rparr>, snd (leaf_payload c i s))"
    using assms unfolding leaf_payload_def
    by (cases "cmd_payload c") (simp_all add: redact_leaf_def fsm_defs Let_def prod_eq_iff
        h_DeploymentDelete_eq h_DeploymentDelete_audit split: option.split RestartAction.split)
  then show ?thesis by blast
qed

interpretation secret_sim: fsm_simulation same_but_credentials "redact x" for x
proof unfold_locales
  fix s t c i assume st: "same_but_credentials s t" and leaf: "\<not> is_batch (cmd_payload c)"
  from st have "t = s\<lparr>RegistryCredentials := RegistryCredentials t\<rparr>"
    by (simp add: same_but_credentials_def)
  with leaf_redact [OF leaf, where x = x and s = s and i = i and rc = "RegistryCredentials t"] obtain r where
    "leaf_payload (redact x c) i t
      = ((fst (leaf_payload c i s))\<lparr>RegistryCredentials := r\<rparr>, snd (leaf_payload c i s))" by metis
  then show "same_but_credentials (fst (leaf_payload c i s)) (fst (leaf_payload (redact x c) i t)) \<and>
      snd (leaf_payload c i s) = snd (leaf_payload (redact x c) i t)"
    by (simp add: same_but_credentials_def)
next
  fix s t ev assume "same_but_credentials s t"
  then obtain rc where "t = s\<lparr>RegistryCredentials := rc\<rparr>" by (metis same_but_credentials_def)
  then show "same_but_credentials (with_audit ev s) (with_audit ev t)"
    by (simp add: same_but_credentials_def)
qed (simp_all add: flatten_redact is_batch_redact)

text \<open>
  C22. Registry secrets stay in the credential store: replacing every secret in a log by any
  other string changes no other store, no event any other broker delivers, and no audit entry.
\<close>

theorem registry_secret_confined:
  "\<exists>rc. run_log (map (apsnd (redact x)) es) s = (run_log es s)\<lparr>RegistryCredentials := rc\<rparr>"
proof -
  have "same_but_credentials s s" by (simp add: same_but_credentials_def)
  from secret_sim.run_log_sim [OF this, where es = es and x = x] show ?thesis
    unfolding same_but_credentials_def by blast
qed

end
