(* ===== verification/Applier.thy ===== *)
theory Applier
  imports FsmProps
begin

text \<open>
  The way every leader-side component writes: it marshals a command, submits it through
  \<open>(*Node).Apply\<close> of \<^verbatim>\<open>internal/controlplane/raft/node.go\<close>, and gets an error or the assurance
  that the state machine has applied it. hashicorp/raft is third-party code: the outcome it
  gives for a submission is a parameter. A component is parameterised by its applier; what it
  may rely on is the locale \<open>raft_applier\<close>, interpreted on \<open>Node_Apply\<close> for every behaviour of
  raft. A submission that raft does not report as committed leaves the local state as it was
  when the call returns.
\<close>

datatype raft_outcome = ErrNotLeader | CommitFailed string | Committed uint64

text \<open>An applier: the error text, if any, and the state when the call returns.\<close>

type_synonym applier = "Command \<Rightarrow> State \<Rightarrow> string option \<times> State"

definition Node_Apply :: "(Command \<Rightarrow> State \<Rightarrow> raft_outcome) \<Rightarrow> applier" where
  "Node_Apply raft cmd s =
     (case raft cmd s of
        ErrNotLeader \<Rightarrow> (Some ''node is not the leader'', s)
      | CommitFailed err \<Rightarrow> (Some err, s)
      | Committed idx \<Rightarrow> (None, apply_command idx cmd s))"

locale raft_applier =
  fixes submit :: applier
  assumes applied: "submit cmd s = (None, s') \<Longrightarrow> \<exists>idx. s' = apply_command idx cmd s"
    and rejected: "submit cmd s = (Some err, s') \<Longrightarrow> s' = s"
begin

lemma submit_ok: "state_ok s \<Longrightarrow> state_ok (snd (submit cmd s))"
  using applied [of cmd s] rejected [of cmd s] ok_inv.apply_command_inv
  by (cases "submit cmd s"; cases "fst (submit cmd s)") (auto simp: list_all_iff)

end

interpretation node: raft_applier "Node_Apply raft" for raft
  by unfold_locales (auto simp: Node_Apply_def split: raft_outcome.splits)

text \<open>The applier of a leader whose log is at a given index.\<close>

definition leader_apply :: "uint64 \<Rightarrow> applier" where
  "leader_apply idx = Node_Apply (\<lambda>_ _. Committed idx)"

lemma leader_apply_eq: "leader_apply idx cmd s = (None, apply_command idx cmd s)"
  by (simp add: leader_apply_def Node_Apply_def)

interpretation leader: raft_applier "leader_apply idx" for idx
  unfolding leader_apply_def by (rule node.raft_applier_axioms)

end
