(* ===== verification/Counter.thy ===== *)
theory Counter
  imports Applier
begin

text \<open>
  Replica ids and the replica counter, \<^verbatim>\<open>internal/scheduler/counter/counter.go\<close>: \<open>Next\<close> with
  its error paths, and the ids of indexed and of per-host replicas. Hostnames are ASCII, so a
  rune of the loop in \<open>sanitizeHost\<close> is a byte. \<open>now\<close> is the wall clock.
\<close>

datatype counter_error = CounterNamesRequired | CounterApply string

definition Counter_Next :: "applier \<Rightarrow> time \<Rightarrow> string \<Rightarrow> string \<Rightarrow> State
    \<Rightarrow> (counter_error + uint64) \<times> State" where
  "Counter_Next submit now deployment service s =
     (if deployment = '''' \<or> service = '''' then (Inl CounterNamesRequired, s)
      else
        let current = (case Store_Get (ReplicaCounters s) (ReplicaCounterKey deployment service) of
                         Some rc \<Rightarrow> rc_next_index rc | None \<Rightarrow> 0);
            nxt = current + 1
        in case submit (mk_cmd ''scheduler'' now (ReplicaCounterIncrement deployment service)) s of
             (Some err, s') \<Rightarrow> (Inl (CounterApply err), s')
           | (None, s') \<Rightarrow> (Inr nxt, s'))"

definition ReplicaID :: "string \<Rightarrow> string \<Rightarrow> uint64 \<Rightarrow> string" where
  "ReplicaID deployment service index = deployment @ ''-'' @ service @ ''-'' @ FormatUint (unat index)"

definition host_char :: "char \<Rightarrow> bool" where
  "host_char c \<longleftrightarrow> CHR ''a'' \<le> c \<and> c \<le> CHR ''z'' \<or> CHR ''A'' \<le> c \<and> c \<le> CHR ''Z''
     \<or> CHR ''0'' \<le> c \<and> c \<le> CHR ''9'' \<or> c = CHR ''_'' \<or> c = CHR ''.'' \<or> c = CHR ''-''"

definition sanitizeHost :: "string \<Rightarrow> string" where
  "sanitizeHost host = map (\<lambda>r. if host_char r then r else CHR ''-'') host"

definition ReplicaIDForHost :: "string \<Rightarrow> string \<Rightarrow> string \<Rightarrow> string" where
  "ReplicaIDForHost deployment service host = deployment @ ''-'' @ service @ ''-'' @ sanitizeHost host"

section \<open>Indices\<close>

lemma Counter_Next_leader:
  assumes "d \<noteq> ''''" "sv \<noteq> ''''"
  shows "Counter_Next (leader_apply i) now d sv s =
    (Inr (counter_at (ReplicaCounterKey d sv) s + 1),
     apply_command i (mk_cmd ''scheduler'' now (ReplicaCounterIncrement d sv)) s)"
  using assms by (simp add: Counter_Next_def leader_apply_eq counter_at_def Let_def split: option.split)

lemma counter_after_Next:
  "counter_at (ReplicaCounterKey d sv) (apply_command i (mk_cmd ident now (ReplicaCounterIncrement d sv)) s)
     = counter_at (ReplicaCounterKey d sv) s + 1"
  by (simp add: counter_leaf is_batch_def is_increment_def)

text \<open>
  C35. Indices handed out by the counter never repeat: between two calls for the same service,
  whatever was applied meanwhile (a delete and re-create of the deployment included), the second
  index is the first plus one plus the number of increments in between, modulo \<open>2 ^ 64\<close>. The
  first index of a service is 1.
\<close>

theorem Counter_Next_never_repeats:
  assumes "d \<noteq> ''''" "sv \<noteq> ''''"
    and "Counter_Next (leader_apply i) t d sv s = (Inr n, s')"
    and "Counter_Next (leader_apply j) t' d sv (run_log es s') = (Inr m, s'')"
  shows "m = n + 1 + of_nat (length (filter (is_increment (ReplicaCounterKey d sv) \<circ> snd) (flatten_log es)))
    \<and> (Store_Get (ReplicaCounters s) (ReplicaCounterKey d sv) = None \<longrightarrow> n = 1)"
proof -
  let ?k = "ReplicaCounterKey d sv"
  have "n = counter_at ?k s + 1" "counter_at ?k s' = counter_at ?k s + 1"
    using assms(3) Counter_Next_leader [OF assms(1,2), of i t s] counter_after_Next by auto
  moreover have "m = counter_at ?k (run_log es s') + 1"
    using assms(4) Counter_Next_leader [OF assms(1,2), of j t'] by simp
  ultimately show ?thesis
    using counter_run_log [of ?k es s'] by (simp add: counter_at_def)
qed

theorem Counter_Next_never_repeats_witness:
  "\<exists>s' s''. Counter_Next (leader_apply 1) 5 ''web'' ''app'' State_New = (Inr 1, s')
     \<and> Counter_Next (leader_apply 3) 7 ''web'' ''app''
         (run_log [(2, mk_cmd ''op'' 6 (DeploymentDelete ''web''))] s') = (Inr 2, s'')"
proof -
  let ?es = "[(2, mk_cmd ''op'' 6 (DeploymentDelete ''web''))]"
  obtain n s' where 1: "Counter_Next (leader_apply 1) 5 ''web'' ''app'' State_New = (Inr n, s')"
    using Counter_Next_leader [of "''web''" "''app''"] by simp
  obtain m s'' where 2: "Counter_Next (leader_apply 3) 7 ''web'' ''app'' (run_log ?es s') = (Inr m, s'')"
    using Counter_Next_leader [of "''web''" "''app''"] by simp
  from Counter_Next_never_repeats [OF _ _ 1 2] have "n = 1" "m = 2"
    by (simp_all add: State_New_def mk_cmd_def is_increment_def)
  with 1 2 show ?thesis by auto
qed

section \<open>Ids\<close>

text \<open>
  A replica id determines its service and index only when names are free of the separator:
  then ids of different replicas differ, but \<open>a-b\<close>/\<open>c\<close> and \<open>a\<close>/\<open>b-c\<close> share their ids, so the
  desired replica of one deployment overwrites the other's in the store.
\<close>

theorem ReplicaID_collision:
  "(CHR ''-'' \<notin> set d \<and> CHR ''-'' \<notin> set d' \<and> CHR ''-'' \<notin> set sv \<and> CHR ''-'' \<notin> set sv' \<longrightarrow>
      (ReplicaID d sv n = ReplicaID d' sv' m \<longleftrightarrow> d = d' \<and> sv = sv' \<and> n = m))
   \<and> ReplicaID ''a-b'' ''c'' n = ReplicaID ''a'' ''b-c'' n
   \<and> (rd_id x = ReplicaID ''a-b'' ''c'' n \<and> rd_id y = ReplicaID ''a'' ''b-c'' n \<longrightarrow>
        Store_Len (put rd_id y i (put rd_id x j (NewStore b))) = 1)"
proof (intro conjI impI)
  assume *: "CHR ''-'' \<notin> set d \<and> CHR ''-'' \<notin> set d' \<and> CHR ''-'' \<notin> set sv \<and> CHR ''-'' \<notin> set sv'"
  have "unat n = unat m \<longleftrightarrow> n = m" by (auto intro: word_unat_eq_iff [THEN iffD2])
  with * show "ReplicaID d sv n = ReplicaID d' sv' m \<longleftrightarrow> d = d' \<and> sv = sv' \<and> n = m"
    by (simp add: ReplicaID_def append_sep_inject FormatUint_inject)
next
  assume "rd_id x = ReplicaID ''a-b'' ''c'' n \<and> rd_id y = ReplicaID ''a'' ''b-c'' n"
  then have "rd_id x = rd_id y" by (simp add: ReplicaID_def)
  then show "Store_Len (put rd_id y i (put rd_id x j (NewStore b))) = 1"
    by (simp add: Store_Len_def byKey_Apply NewStore_def)
qed (simp add: ReplicaID_def)

definition ex_rd :: "string \<Rightarrow> ReplicaDesired" where
  "ex_rd i = \<lparr>rd_id = i, rd_deployment = '''', rd_service = '''', rd_index = 0, rd_host = '''',
     rd_image = '''', rd_raft_index = 0, rd_spec_hash = ''''\<rparr>"

theorem ReplicaID_collision_witness:
  "ReplicaID ''web'' ''app'' 3 \<noteq> ReplicaID ''web'' ''db'' 3
   \<and> Store_Len (put rd_id (ex_rd (ReplicaID ''a'' ''b-c'' 0)) 1
        (put rd_id (ex_rd (ReplicaID ''a-b'' ''c'' 0)) 1 (NewStore (NewBroker 1)))) = 1"
proof -
  have ids: "rd_id (ex_rd u) = u" for u by (simp add: ex_rd_def)
  show ?thesis
  proof
    show "ReplicaID ''web'' ''app'' 3 \<noteq> ReplicaID ''web'' ''db'' 3"
      using ReplicaID_collision [THEN conjunct1, of "''web''" "''web''" "''app''" "''db''" 3 3] by simp
  qed (rule ReplicaID_collision [THEN conjunct2, THEN conjunct2, rule_format], simp add: ids)
qed

end
