(* ===== verification/Rollout.thy ===== *)
theory Rollout
  imports Counter
begin

text \<open>
  The rolling-update state machine, \<^verbatim>\<open>internal/scheduler/rollout/rollout.go\<close>. Every operation
  takes the applier and the time \<open>now\<close> its clock reads during the call, and returns the error,
  if any, and the state when it returns. Marshalling belongs to the applier.
\<close>

section \<open>Definitions\<close>

definition StepTimeout :: int where
  "StepTimeout = 60 * 1000000000"

definition HealthFreshness :: int where
  "HealthFreshness = 10 * 1000000000"

datatype rollout_error = RolloutInProgress | NoRolloutPlan | CannotAdvance RolloutState | RolloutApply string

definition planCommand :: "RolloutPlan \<Rightarrow> time \<Rightarrow> Command" where
  "planCommand plan now = mk_cmd ''rollout'' now (RolloutPlanUpdate (Some plan))"

definition rollout_submit :: "applier \<Rightarrow> Command \<Rightarrow> State \<Rightarrow> rollout_error option \<times> State" where
  "rollout_submit submit cmd s =
     (case submit cmd s of (Some err, s') \<Rightarrow> (Some (RolloutApply err), s') | (None, s') \<Rightarrow> (None, s'))"

definition applyPlan :: "applier \<Rightarrow> time \<Rightarrow> RolloutPlan \<Rightarrow> State \<Rightarrow> rollout_error option \<times> State" where
  "applyPlan submit now plan s = rollout_submit submit (planCommand plan now) s"

definition Start :: "applier \<Rightarrow> time \<Rightarrow> string \<Rightarrow> string \<Rightarrow> uint64 \<Rightarrow> int32 \<Rightarrow> State
    \<Rightarrow> rollout_error option \<times> State" where
  "Start submit now deployment service targetRev totalSteps s =
     (let plan = \<lparr>rp_deployment = deployment, rp_service = service, rp_target_revision = targetRev,
            rp_total_steps = totalSteps, rp_current_step = 0, rp_state = RO_IN_PROGRESS,
            rp_failure_reason = '''', rp_started_at = Some now, rp_last_step_at = Some now\<rparr>
      in case Store_Get (RolloutPlans s) (RolloutPlanKey deployment service) of
           Some existing \<Rightarrow>
             if rp_state existing = RO_IN_PROGRESS then (Some RolloutInProgress, s)
             else applyPlan submit now plan s
         | None \<Rightarrow> applyPlan submit now plan s)"

definition belongsToService :: "State \<Rightarrow> ReplicaObserved \<Rightarrow> string \<Rightarrow> string \<Rightarrow> bool" where
  "belongsToService s obs deployment service =
     (case Store_Get (ReplicasDesired s) (ro_id obs) of
        None \<Rightarrow> False
      | Some desired \<Rightarrow> rd_deployment desired = deployment \<and> rd_service desired = service)"

definition isFresh :: "time \<Rightarrow> timestamp \<Rightarrow> bool" where
  "isFresh now ts = (case ts of None \<Rightarrow> False | Some t \<Rightarrow> now - t < HealthFreshness)"

definition not_running :: "State \<Rightarrow> string \<Rightarrow> string \<Rightarrow> nat" where
  "not_running s deployment service =
     length (filter (\<lambda>obs. ro_state obs \<noteq> RS_RUNNING \<and> belongsToService s obs deployment service)
       (Store_List (ReplicasObserved s)))"

definition StepReady :: "time \<Rightarrow> string \<Rightarrow> string \<Rightarrow> State \<Rightarrow> rollout_error + (bool \<times> nat)" where
  "StepReady now deployment service s =
     (case Store_Get (RolloutPlans s) (RolloutPlanKey deployment service) of
        None \<Rightarrow> Inl NoRolloutPlan
      | Some plan \<Rightarrow>
          if rp_state plan \<noteq> RO_IN_PROGRESS then Inr (False, 0)
          else
            let notRunning = not_running s deployment service;
                targetID = ReplicaID deployment service (scast (rp_current_step plan))
            in case Store_Get (ReplicasObserved s) targetID of
                 None \<Rightarrow> Inr (False, notRunning)
               | Some targetObs \<Rightarrow>
                   if ro_state targetObs \<noteq> RS_RUNNING then Inr (False, notRunning)
                   else if \<not> isFresh now (ro_last_health_at targetObs) then Inr (False, notRunning)
                   else Inr (True, notRunning))"

definition auditAndHold :: "applier \<Rightarrow> time \<Rightarrow> string \<Rightarrow> string \<Rightarrow> string \<Rightarrow> State
    \<Rightarrow> rollout_error option \<times> State" where
  "auditAndHold submit now deployment service reason s =
     rollout_submit submit (mk_cmd ''rollout'' now (AuditAppend (Some
       \<lparr>ae_raft_index = 0, ae_type = AE_ROLLOUT_INVARIANT_HOLD, ae_identity = ''rollout'', ae_ts = None,
        ae_payload = [''deployment'' \<mapsto> deployment, ''service'' \<mapsto> service, ''reason'' \<mapsto> reason]\<rparr>))) s"

definition AdvanceStep :: "applier \<Rightarrow> time \<Rightarrow> string \<Rightarrow> string \<Rightarrow> State \<Rightarrow> rollout_error option \<times> State" where
  "AdvanceStep submit now deployment service s =
     (case Store_Get (RolloutPlans s) (RolloutPlanKey deployment service) of
        None \<Rightarrow> (Some NoRolloutPlan, s)
      | Some plan \<Rightarrow>
          if rp_state plan \<noteq> RO_IN_PROGRESS then (Some (CannotAdvance (rp_state plan)), s)
          else case StepReady now deployment service s of
                 Inl err \<Rightarrow> (Some err, s)
               | Inr (_, notRunning) \<Rightarrow>
                   if notRunning > 1
                   then auditAndHold submit now deployment service
                     (''invariant_hold: '' @ FormatUint notRunning @ '' replicas not running (>1)'') s
                   else applyPlan submit now (plan\<lparr>rp_current_step := rp_current_step plan + 1,
                          rp_last_step_at := Some now\<rparr>) s)"

definition Complete :: "applier \<Rightarrow> time \<Rightarrow> string \<Rightarrow> string \<Rightarrow> State \<Rightarrow> rollout_error option \<times> State" where
  "Complete submit now deployment service s =
     (case Store_Get (RolloutPlans s) (RolloutPlanKey deployment service) of
        None \<Rightarrow> (Some NoRolloutPlan, s)
      | Some plan \<Rightarrow> applyPlan submit now (plan\<lparr>rp_state := RO_COMPLETED, rp_last_step_at := Some now\<rparr>) s)"

definition Abort :: "applier \<Rightarrow> time \<Rightarrow> string \<Rightarrow> string \<Rightarrow> string \<Rightarrow> State \<Rightarrow> rollout_error option \<times> State" where
  "Abort submit now deployment service reason s =
     (case Store_Get (RolloutPlans s) (RolloutPlanKey deployment service) of
        None \<Rightarrow> (Some NoRolloutPlan, s)
      | Some plan \<Rightarrow>
          (let plan = plan\<lparr>rp_state := RO_ABORTED, rp_failure_reason := reason, rp_last_step_at := Some now\<rparr>;
               children = [Some (planCommand plan now)];
               children = (case Store_Get (Deployments s) deployment of
                   Some dep \<Rightarrow>
                     if dp_previous_revision dep > 0
                     then children @ [Some (mk_cmd ''rollout'' now
                            (DeploymentRollback deployment (dp_previous_revision dep)))]
                     else children
                 | None \<Rightarrow> children)
           in rollout_submit submit (mk_cmd ''rollout'' now (Batch children)) s))"

fun check_timeouts :: "applier \<Rightarrow> time \<Rightarrow> RolloutPlan list \<Rightarrow> string list \<Rightarrow> State
    \<Rightarrow> string list \<times> rollout_error option \<times> State" where
  "check_timeouts submit now [] aborted s = (aborted, None, s)"
| "check_timeouts submit now (plan # plans) aborted s =
     (if rp_state plan \<noteq> RO_IN_PROGRESS then check_timeouts submit now plans aborted s
      else if rp_last_step_at plan = None then check_timeouts submit now plans aborted s
      else if now - AsTime (rp_last_step_at plan) < StepTimeout then check_timeouts submit now plans aborted s
      else case Abort submit now (rp_deployment plan) (rp_service plan) ''step_timeout'' s of
             (Some err, s') \<Rightarrow> (aborted, Some err, s')
           | (None, s') \<Rightarrow> check_timeouts submit now plans (aborted @ [rp_deployment plan]) s')"

definition CheckTimeouts :: "applier \<Rightarrow> time \<Rightarrow> State \<Rightarrow> string list \<times> rollout_error option \<times> State" where
  "CheckTimeouts submit now s = check_timeouts submit now (Store_List (RolloutPlans s)) [] s"

section \<open>The operations keep the stores well formed\<close>

context raft_applier
begin

lemma rollout_submit_ok: "state_ok s \<Longrightarrow> state_ok (snd (rollout_submit submit cmd s))"
  using submit_ok [of s cmd] by (auto simp: rollout_submit_def split: prod.split option.split)

lemma Start_ok: "state_ok s \<Longrightarrow> state_ok (snd (Start submit now d sv n k s))"
  by (simp add: Start_def applyPlan_def rollout_submit_ok Let_def split: option.split)

lemma Complete_ok: "state_ok s \<Longrightarrow> state_ok (snd (Complete submit now d sv s))"
  by (simp add: Complete_def applyPlan_def rollout_submit_ok split: option.split)

lemma AdvanceStep_ok: "state_ok s \<Longrightarrow> state_ok (snd (AdvanceStep submit now d sv s))"
  by (simp add: AdvanceStep_def applyPlan_def auditAndHold_def rollout_submit_ok split: option.split sum.split)

lemma Abort_ok: "state_ok s \<Longrightarrow> state_ok (snd (Abort submit now d sv r s))"
  by (simp add: Abort_def rollout_submit_ok Let_def split: option.split)

lemma check_timeouts_ok:
  "state_ok s \<Longrightarrow> state_ok (snd (snd (check_timeouts submit now plans acc s)))"
proof (induction plans arbitrary: acc s)
  case (Cons p plans)
  obtain e s1 where a: "Abort submit now (rp_deployment p) (rp_service p) ''step_timeout'' s = (e, s1)" by force
  with Abort_ok [OF Cons.prems, of now "rp_deployment p" "rp_service p" "''step_timeout''"] have "state_ok s1"
    by simp
  with a Cons show ?case by (simp split: option.split)
qed simp

end

section \<open>Effect of the operations on a leader\<close>

lemma applyPlan_leader:
  "applyPlan (leader_apply i) now plan s =
     (None, s\<lparr>RolloutPlans := put rolloutplan_key plan i (RolloutPlans s)\<rparr>)"
  by (simp add: applyPlan_def rollout_submit_def leader_apply_eq planCommand_def apply_command.simps [of i "mk_cmd _ _ _"]
      h_RolloutPlanUpdate_def audit_append_def)

lemma plan_key:
  assumes "state_ok s" "Store_Get (RolloutPlans s) k = Some plan"
  shows "RolloutPlanKey (rp_deployment plan) (rp_service plan) = k"
  using assms Store_Get_key [of rolloutplan_key "RolloutPlans s" k plan]
  by (simp add: state_ok_def rolloutplan_key_def)

lemma StepReady_in_progress:
  assumes "Store_Get (RolloutPlans s) (RolloutPlanKey d sv) = Some plan" "rp_state plan = RO_IN_PROGRESS"
  shows "\<exists>r. StepReady now d sv s = Inr (r, not_running s d sv)"
  using assms by (auto simp: StepReady_def Let_def split: option.split)

text \<open>
  C12. Advancing never takes a service below its replica count minus one: with a plan in progress,
  the step is bumped by exactly one when at most one replica of the service is not running, and
  otherwise the plan stays as it is and a ROLLOUT_INVARIANT_HOLD entry is audited; the call
  reports success either way. Without a plan in progress it is an error that changes nothing.
\<close>

theorem AdvanceStep_invariant:
  assumes "state_ok s" "AdvanceStep (leader_apply i) now d sv s = (err, s')"
  shows "case Store_Get (RolloutPlans s) (RolloutPlanKey d sv) of
      None \<Rightarrow> err = Some NoRolloutPlan \<and> s' = s
    | Some plan \<Rightarrow>
        if rp_state plan \<noteq> RO_IN_PROGRESS then err = Some (CannotAdvance (rp_state plan)) \<and> s' = s
        else err = None \<and>
          (if not_running s d sv \<le> 1
           then s' = s\<lparr>RolloutPlans := put rolloutplan_key (plan\<lparr>rp_current_step := rp_current_step plan + 1,
                  rp_last_step_at := Some now\<rparr>) i (RolloutPlans s)\<rparr>
             \<and> Store_Get (RolloutPlans s') (RolloutPlanKey d sv) = Some (plan\<lparr>
                  rp_current_step := rp_current_step plan + 1, rp_last_step_at := Some now\<rparr>)
           else RolloutPlans s' = RolloutPlans s \<and> (\<exists>ev. ae_type ev = AE_ROLLOUT_INVARIANT_HOLD
             \<and> al_log (AuditEvents s') = al_log (AuditEvents s) @ [ev]))"
proof (cases "Store_Get (RolloutPlans s) (RolloutPlanKey d sv)")
  case None
  with assms(2) show ?thesis by (auto simp: AdvanceStep_def)
next
  case (Some plan)
  show ?thesis
  proof (cases "rp_state plan = RO_IN_PROGRESS")
    case False
    with Some assms(2) show ?thesis by (auto simp: AdvanceStep_def)
  next
    case True
    obtain r where "StepReady now d sv s = Inr (r, not_running s d sv)"
      using StepReady_in_progress [OF Some True] by blast
    with Some True assms(2) plan_key [OF assms(1) Some] show ?thesis
      by (auto simp: AdvanceStep_def applyPlan_leader rolloutplan_key_def auditAndHold_def
          rollout_submit_def leader_apply_eq apply_command.simps [of i "mk_cmd _ _ _"] h_AuditAppend_def audit_append_def
          split: if_splits)
  qed
qed

section \<open>Timeouts\<close>

definition timed_out :: "time \<Rightarrow> RolloutPlan \<Rightarrow> bool" where
  "timed_out now p \<longleftrightarrow> rp_state p = RO_IN_PROGRESS \<and> rp_last_step_at p \<noteq> None
     \<and> now - AsTime (rp_last_step_at p) \<ge> StepTimeout"

definition aborted_plan :: "time \<Rightarrow> RolloutPlan \<Rightarrow> RolloutPlan" where
  "aborted_plan now p = p\<lparr>rp_state := RO_ABORTED, rp_failure_reason := ''step_timeout'', rp_last_step_at := Some now\<rparr>"

definition rolled_back :: "time \<Rightarrow> string \<Rightarrow> Deployment Store \<Rightarrow> uint64 \<Rightarrow> Deployment Store" where
  "rolled_back now d ds i = (case Store_Get ds d of
     Some dep \<Rightarrow> if dp_previous_revision dep > 0
       then put dp_name (dep\<lparr>dp_applied_revision := dp_previous_revision dep,
              dp_previous_revision := dp_applied_revision dep, dp_updated_at := Some now\<rparr>) i ds
       else ds
   | None \<Rightarrow> ds)"

lemma Abort_leader:
  assumes "state_ok s" "Store_Get (RolloutPlans s) (RolloutPlanKey d sv) = Some plan"
    and "Abort (leader_apply i) now d sv ''step_timeout'' s = (err, s')"
  shows "err = None" "Store_Get (RolloutPlans s') = (Store_Get (RolloutPlans s))(RolloutPlanKey d sv \<mapsto> aborted_plan now plan)"
    "Deployments s' = rolled_back now d (Deployments s) i" "state_ok s'"
proof -
  obtain cmd where e: "Abort (leader_apply i) now d sv ''step_timeout'' s = (None, apply_command i cmd s)"
    using assms(2) by (auto simp: Abort_def rollout_submit_def leader_apply_eq Let_def)
  with assms(1,3) show "state_ok s'"
    using ok_inv.apply_command_inv [of s cmd i] by (simp add: list_all_iff)
  from e assms(3) show "err = None" by simp
  note unf = Abort_def rollout_submit_def leader_apply_eq Let_def apply_command.simps [of i "mk_cmd _ _ _"] h_Batch_def
    planCommand_def h_RolloutPlanUpdate_def h_DeploymentRollback_def audit_append_def
  show "Store_Get (RolloutPlans s') = (Store_Get (RolloutPlans s))(RolloutPlanKey d sv \<mapsto> aborted_plan now plan)"
    using assms(2,3) plan_key [OF assms(1,2)]
    by (auto simp: unf rolloutplan_key_def aborted_plan_def split: option.splits if_splits)
  show "Deployments s' = rolled_back now d (Deployments s) i"
    using assms(2,3) by (auto simp: unf rolled_back_def split: option.splits if_splits)
qed

lemma check_timeouts_leader:
  assumes "state_ok s" "distinct (map rolloutplan_key plans)"
    and "\<forall>p \<in> set plans. Store_Get (RolloutPlans s) (rolloutplan_key p) = Some p"
    and "check_timeouts (leader_apply i) now plans acc s = (names, err, s')"
  shows "err = None \<and> names = acc @ map rp_deployment (filter (timed_out now) plans) \<and> state_ok s'
    \<and> Store_Get (RolloutPlans s') = (\<lambda>k. case Store_Get (RolloutPlans s) k of None \<Rightarrow> None
        | Some p \<Rightarrow> Some (if p \<in> set plans \<and> timed_out now p then aborted_plan now p else p))"
  using assms
proof (induction plans arbitrary: acc s)
  case Nil
  then show ?case by (auto simp: fun_eq_iff split: option.split)
next
  case (Cons p plans)
  show ?case
  proof (cases "timed_out now p")
    case False
    with Cons.prems(4) have "check_timeouts (leader_apply i) now plans acc s = (names, err, s')"
      by (auto simp: timed_out_def not_less split: if_splits)
    with Cons.IH [of s acc] Cons.prems False show ?thesis by (auto simp: fun_eq_iff split: option.split)
  next
    case True
    have key: "RolloutPlanKey (rp_deployment p) (rp_service p) = rolloutplan_key p"
      by (simp add: rolloutplan_key_def)
    obtain e s1 where ab: "Abort (leader_apply i) now (rp_deployment p) (rp_service p) ''step_timeout'' s = (e, s1)"
      by force
    have "Store_Get (RolloutPlans s) (RolloutPlanKey (rp_deployment p) (rp_service p)) = Some p"
      using Cons.prems(3) by (simp add: key)
    note A = Abort_leader [OF Cons.prems(1) this ab, unfolded key]
    have rest: "check_timeouts (leader_apply i) now plans (acc @ [rp_deployment p]) s1 = (names, err, s')"
      using Cons.prems(4) True ab A(1) by (auto simp: timed_out_def)
    have kp: "rolloutplan_key q \<noteq> rolloutplan_key p" if "q \<in> set plans" for q
      using Cons.prems(2) that by (auto simp: image_iff)
    then have "\<forall>q \<in> set plans. Store_Get (RolloutPlans s1) (rolloutplan_key q) = Some q"
      using Cons.prems(3) by (simp add: A(2))
    from Cons.IH [OF A(4) _ this rest] Cons.prems(2)
    have I: "err = None" "names = (acc @ [rp_deployment p]) @ map rp_deployment (filter (timed_out now) plans)"
      "state_ok s'" "Store_Get (RolloutPlans s') = (\<lambda>k. case Store_Get (RolloutPlans s1) k of None \<Rightarrow> None
        | Some p \<Rightarrow> Some (if p \<in> set plans \<and> timed_out now p then aborted_plan now p else p))"
      by simp_all
    have "Store_Get (RolloutPlans s') k = (case Store_Get (RolloutPlans s) k of None \<Rightarrow> None
        | Some q \<Rightarrow> Some (if q \<in> set (p # plans) \<and> timed_out now q then aborted_plan now q else q))" for k
    proof (cases "k = rolloutplan_key p")
      case k: True
      have "aborted_plan now p \<notin> set plans"
        using kp [of "aborted_plan now p"] by (auto simp: aborted_plan_def rolloutplan_key_def)
      with k Cons.prems(3) True show ?thesis by (simp add: I(4) A(2))
    next
      case k: False
      have "q \<noteq> p" if "Store_Get (RolloutPlans s) k = Some q" for q
        using Cons.prems(1) that k Store_Get_key [of rolloutplan_key "RolloutPlans s" k q]
        by (auto simp: state_ok_def)
      with k show ?thesis by (simp add: I(4) A(2) split: option.split)
    qed
    with I True show ?thesis by (simp add: fun_eq_iff)
  qed
qed

text \<open>
  C34. One pass of the timeout check on the leader aborts every rollout whose current step has
  lasted \<open>StepTimeout\<close> or longer and no other, whatever order the plans are listed in; it
  reports the deployments of exactly those plans and no error.
\<close>

theorem CheckTimeouts_exact:
  assumes "state_ok s" "CheckTimeouts (leader_apply i) now s = (names, err, s')"
  shows "err = None \<and> set names = {rp_deployment p | p. p \<in> ran (Store_Get (RolloutPlans s)) \<and> timed_out now p}
    \<and> Store_Get (RolloutPlans s') = (\<lambda>k. map_option
         (\<lambda>p. if timed_out now p then aborted_plan now p else p) (Store_Get (RolloutPlans s) k))"
proof -
  have ok: "store_ok rolloutplan_key (RolloutPlans s)" using assms(1) by (simp add: state_ok_def)
  have mem: "p \<in> set (Store_List (RolloutPlans s))" if "Store_Get (RolloutPlans s) k = Some p" for k p
    using that Store_Get_key [OF ok that] by (simp add: kst.entries_iff [OF ok])
  have "\<forall>p \<in> set (Store_List (RolloutPlans s)). Store_Get (RolloutPlans s) (rolloutplan_key p) = Some p"
    by (simp add: kst.entries_iff [OF ok])
  note c = check_timeouts_leader [OF assms(1) kst.distinct_entries [OF ok] this assms(2) [unfolded CheckTimeouts_def]]
  have "Store_Get (RolloutPlans s') k = map_option
      (\<lambda>p. if timed_out now p then aborted_plan now p else p) (Store_Get (RolloutPlans s) k)" for k
    using c mem [of k] by (cases "Store_Get (RolloutPlans s) k") simp_all
  moreover have "set names = {rp_deployment p | p. p \<in> ran (Store_Get (RolloutPlans s)) \<and> timed_out now p}"
    using c kst.set_entries [OF ok] by auto
  ultimately show ?thesis using c by (simp add: fun_eq_iff)
qed

text \<open>
  Two services of one deployment that time out in the same pass roll the deployment back
  twice, and the second rollback undoes the first: the applied revision ends as it began.
\<close>

theorem double_timeout_cancels_rollback:
  assumes "state_ok s" "Store_Get (Deployments s) d = Some dep"
    and "dp_previous_revision dep > 0" "dp_applied_revision dep > 0"
    and "Store_Get (RolloutPlans s) (RolloutPlanKey d sv1) = Some p1"
    and "Store_Get (RolloutPlans s) (RolloutPlanKey d sv2) = Some p2"
    and "Abort (leader_apply i) now d sv1 ''step_timeout'' s = (e1, s1)"
    and "Abort (leader_apply j) now d sv2 ''step_timeout'' s1 = (e2, s2)"
  shows "map_option dp_applied_revision (Store_Get (Deployments s1) d) = Some (dp_previous_revision dep)
    \<and> map_option dp_applied_revision (Store_Get (Deployments s2) d) = Some (dp_applied_revision dep)"
proof -
  have name: "dp_name dep = d" using assms(1,2) by (auto simp: state_ok_def intro: Store_Get_key)
  note A = Abort_leader [OF assms(1,5,7)]
  obtain p where "Store_Get (RolloutPlans s1) (RolloutPlanKey d sv2) = Some p"
    using A(2) assms(6) by (cases "RolloutPlanKey d sv1 = RolloutPlanKey d sv2") auto
  note B = Abort_leader [OF A(4) this assms(8)]
  show ?thesis using assms(2-4) name by (simp add: A(3) B(3) rolled_back_def)
qed

section \<open>The theorems at concrete plans\<close>

definition ex_plan :: "string \<Rightarrow> RolloutPlan" where
  "ex_plan sv = \<lparr>rp_deployment = ''web'', rp_service = sv, rp_target_revision = 2, rp_total_steps = 2,
     rp_current_step = 0, rp_state = RO_IN_PROGRESS, rp_failure_reason = '''', rp_started_at = Some 0,
     rp_last_step_at = Some 0\<rparr>"

definition ex_deploy :: "uint64 \<Rightarrow> Command" where
  "ex_deploy r = mk_cmd ''op'' 0 (DeploymentApply \<lparr>da_deployment = ''web'', da_revision = r,
     da_jaco_yaml = '''', da_compose_yaml = '''', da_services = [\<lparr>ss_name = ''a'', ss_replicas = 1,
       ss_placement = PM_SPREAD, ss_hosts = [], ss_networks = []\<rparr>, \<lparr>ss_name = ''b'', ss_replicas = 1,
       ss_placement = PM_SPREAD, ss_hosts = [], ss_networks = []\<rparr>], da_routes = [], da_tcp_routes = [],
     da_acme_email = ''''\<rparr>)"

definition ex_rolling :: State where
  "ex_rolling = run_log [(1, ex_deploy 1), (2, ex_deploy 2), (3, planCommand (ex_plan ''a'') 0),
     (4, planCommand (ex_plan ''b'') 0)] State_New"

lemma ex_rolling_ok: "state_ok ex_rolling"
  unfolding ex_rolling_def by (rule ok_inv.run_log_keeps) simp_all

lemma ex_rolling_content:
  "Store_Get (RolloutPlans ex_rolling) (RolloutPlanKey ''web'' ''a'') = Some (ex_plan ''a'')"
  "Store_Get (RolloutPlans ex_rolling) (RolloutPlanKey ''web'' ''b'') = Some (ex_plan ''b'')"
  "map_option (\<lambda>d. (dp_applied_revision d, dp_previous_revision d)) (Store_Get (Deployments ex_rolling) ''web'') = Some (2, 1)"
  "not_running ex_rolling ''web'' ''a'' = 0"
  by code_simp+

theorem AdvanceStep_invariant_witness:
  "\<exists>s'. AdvanceStep (leader_apply 5) 9 ''web'' ''a'' ex_rolling = (None, s')
     \<and> map_option rp_current_step (Store_Get (RolloutPlans s') (RolloutPlanKey ''web'' ''a'')) = Some 1"
proof -
  obtain err s' where r: "AdvanceStep (leader_apply 5) 9 ''web'' ''a'' ex_rolling = (err, s')" by force
  from AdvanceStep_invariant [OF ex_rolling_ok r] show ?thesis
    by (simp add: r ex_rolling_content ex_plan_def rolloutplan_key_def)
qed

theorem CheckTimeouts_exact_witness:
  "\<exists>names s'. CheckTimeouts (leader_apply 5) 60000000000 ex_rolling = (names, None, s') \<and> ''web'' \<in> set names
     \<and> map_option rp_state (Store_Get (RolloutPlans s') (RolloutPlanKey ''web'' ''a'')) = Some RO_ABORTED"
proof -
  obtain names err s' where r: "CheckTimeouts (leader_apply 5) 60000000000 ex_rolling = (names, err, s')"
    by (metis prod_cases3)
  have t: "timed_out 60000000000 (ex_plan ''a'')"
    by (simp add: timed_out_def ex_plan_def StepTimeout_def)
  have "ex_plan ''a'' \<in> ran (Store_Get (RolloutPlans ex_rolling))"
    using ex_rolling_content(1) by (rule ranI)
  with t have "''web'' \<in> {rp_deployment p | p. p \<in> ran (Store_Get (RolloutPlans ex_rolling)) \<and> timed_out 60000000000 p}"
    by (force simp: ex_plan_def)
  with CheckTimeouts_exact [OF ex_rolling_ok r] t show ?thesis
    by (simp add: r ex_rolling_content aborted_plan_def)
qed

theorem double_timeout_cancels_rollback_witness:
  "\<exists>s1 s2. Abort (leader_apply 5) 60 ''web'' ''a'' ''step_timeout'' ex_rolling = (None, s1)
     \<and> Abort (leader_apply 6) 60 ''web'' ''b'' ''step_timeout'' s1 = (None, s2)
     \<and> map_option dp_applied_revision (Store_Get (Deployments s2) ''web'') = Some 2"
proof -
  obtain dep where dep: "Store_Get (Deployments ex_rolling) ''web'' = Some dep"
      "dp_applied_revision dep = 2" "dp_previous_revision dep = 1"
    using ex_rolling_content(3) by auto
  obtain e1 s1 where 1: "Abort (leader_apply 5) 60 ''web'' ''a'' ''step_timeout'' ex_rolling = (e1, s1)" by force
  obtain e2 s2 where 2: "Abort (leader_apply 6) 60 ''web'' ''b'' ''step_timeout'' s1 = (e2, s2)" by force
  have "RolloutPlanKey ''web'' ''a'' \<noteq> RolloutPlanKey ''web'' ''b''" by code_simp
  then have p: "Store_Get (RolloutPlans s1) (RolloutPlanKey ''web'' ''b'') = Some (ex_plan ''b'')"
    using Abort_leader(2) [OF ex_rolling_ok ex_rolling_content(1) 1] ex_rolling_content(2) by simp
  have "e1 = None" "state_ok s1" "e2 = None"
    using Abort_leader(1,4) [OF ex_rolling_ok ex_rolling_content(1) 1] Abort_leader(1) [OF _ p 2] by simp_all
  with double_timeout_cancels_rollback [OF ex_rolling_ok dep(1) _ _ ex_rolling_content(1,2) 1 2] dep 1 2
  show ?thesis by auto
qed

end
