(* ===== verification/Placement.thy ===== *)
theory Placement
  imports Entities
begin

text \<open>
  Placement of replicas, \<^verbatim>\<open>internal/scheduler/placement/placement.go\<close>: the eligible hosts of a
  service and the host of one replica in the modes SPREAD, PACK and HOSTS. \<open>fnv.New32a\<close> of the
  Go library is written out on 32-bit words. \<open>sort.Strings\<close> is \<^const>\<open>sort\<close> on the bytewise
  lexicographic order. A missing key of the count map reads as zero, so the map is a function.
\<close>

section \<open>Definitions\<close>

text \<open>\<open>PlacementError\<close>: its code is always \<open>cannot_satisfy_host_placement\<close>.\<close>

record PlacementError =
  pe_service :: string
  pe_requested :: int
  pe_eligible :: nat

definition EligibleHosts :: "ServiceSpec \<Rightarrow> Node list \<Rightarrow> string list" where
  "EligibleHosts spec nodes =
     (let healthy = map nd_hostname (filter (\<lambda>n. nd_status n = NS_READY) nodes);
          healthy = (if ss_placement spec = PM_HOSTS \<and> length (ss_hosts spec) > 0
                     then filter (\<lambda>h. h \<in> set (ss_hosts spec)) healthy else healthy)
      in sort healthy)"

text \<open>FNV-1a, 32 bits.\<close>

definition fnv32a :: "string \<Rightarrow> 32 word" where
  "fnv32a s = foldl (\<lambda>h c. xor h (of_nat (of_char c)) * 16777619) 2166136261 s"

definition pickSpreadHost :: "string \<Rightarrow> string \<Rightarrow> string list \<Rightarrow> nat \<Rightarrow> string" where
  "pickSpreadHost deployment service eligible replicaIndex =
     eligible ! (unat (fnv32a (deployment @ ''-'' @ service @ ''-'' @ FormatUint replicaIndex))
                 mod length eligible)"

fun pack_scan :: "(string \<Rightarrow> int) \<Rightarrow> string \<Rightarrow> int \<Rightarrow> string list \<Rightarrow> string" where
  "pack_scan counts best bestCount [] = best"
| "pack_scan counts best bestCount (h # hs) =
     (let c = counts h
      in if c < bestCount \<or> (c = bestCount \<and> h < best)
         then pack_scan counts h c hs else pack_scan counts best bestCount hs)"

definition pickPackHost :: "string list \<Rightarrow> (string \<Rightarrow> int) \<Rightarrow> string" where
  "pickPackHost eligible counts =
     (let best = hd eligible in pack_scan counts best (counts best) (tl eligible))"

definition PlaceReplica :: "string \<Rightarrow> ServiceSpec \<Rightarrow> string list \<Rightarrow> nat \<Rightarrow> (string \<Rightarrow> int)
    \<Rightarrow> PlacementError + string" where
  "PlaceReplica deployment spec eligible replicaIndex currentReplicaCounts =
     (if length eligible = 0
      then Inl \<lparr>pe_service = ss_name spec, pe_requested = sint (ss_replicas spec), pe_eligible = 0\<rparr>
      else
        let sortedEligible = sort eligible
        in case ss_placement spec of
             PM_HOSTS \<Rightarrow>
               if sint (ss_replicas spec) > int (length sortedEligible)
               then Inl \<lparr>pe_service = ss_name spec, pe_requested = sint (ss_replicas spec),
                          pe_eligible = length sortedEligible\<rparr>
               else Inr (sortedEligible ! (replicaIndex mod length sortedEligible))
           | PM_PACK \<Rightarrow> Inr (pickPackHost sortedEligible currentReplicaCounts)
           | _ \<Rightarrow> Inr (pickSpreadHost deployment (ss_name spec) sortedEligible replicaIndex))"

section \<open>Eligible hosts\<close>

lemma set_EligibleHosts:
  "set (EligibleHosts spec nodes) =
     {nd_hostname n | n. n \<in> set nodes \<and> nd_status n = NS_READY
        \<and> (ss_placement spec = PM_HOSTS \<and> ss_hosts spec \<noteq> [] \<longrightarrow> nd_hostname n \<in> set (ss_hosts spec))}"
  by (auto simp: EligibleHosts_def Let_def)

lemma sort_mset_cong: "mset xs = mset ys \<Longrightarrow> sort xs = sort ys"
  by (rule properties_for_sort) simp_all

lemma mset_EligibleHosts_cong:
  assumes "mset nodes = mset nodes'"
  shows "EligibleHosts spec nodes = EligibleHosts spec nodes'"
proof -
  have "mset (filter Q (map nd_hostname (filter (\<lambda>n. nd_status n = NS_READY) nodes))) =
      mset (filter Q (map nd_hostname (filter (\<lambda>n. nd_status n = NS_READY) nodes')))" for Q
    using assms by (simp add: filter_map comp_def mset_filter)
  note sort_mset_cong [OF this]
  from this [of "\<lambda>_. True"] this show ?thesis by (simp add: EligibleHosts_def Let_def)
qed

lemma distinct_EligibleHosts:
  "distinct (map nd_hostname nodes) \<Longrightarrow> distinct (EligibleHosts spec nodes)"
  by (simp add: EligibleHosts_def Let_def distinct_map_filter)

section \<open>Packing\<close>

text \<open>Hosts ordered by load, then by name.\<close>

definition pack_le :: "(string \<Rightarrow> int) \<Rightarrow> string \<Rightarrow> string \<Rightarrow> bool" where
  "pack_le counts h k \<longleftrightarrow> counts h < counts k \<or> (counts h = counts k \<and> h \<le> k)"

lemma pack_scan_least:
  "pack_scan counts best (counts best) hs \<in> insert best (set hs)
   \<and> (\<forall>h \<in> insert best (set hs). pack_le counts (pack_scan counts best (counts best) hs) h)"
proof (induction hs arbitrary: best)
  case Nil
  then show ?case by (simp add: pack_le_def)
next
  case (Cons h hs)
  show ?case
  proof (cases "counts h < counts best \<or> (counts h = counts best \<and> h < best)")
    case True
    then have "pack_le counts h best" by (auto simp: pack_le_def)
    with True Cons.IH [of h] show ?thesis
      by (auto simp: Let_def pack_le_def intro: order.trans)
  next
    case False
    then have "pack_le counts best h" by (auto simp: pack_le_def)
    with False Cons.IH [of best] show ?thesis
      by (auto simp: Let_def pack_le_def intro: order.trans)
  qed
qed

lemma pickPackHost_least:
  assumes "hosts \<noteq> []"
  shows "pickPackHost hosts counts \<in> set hosts
    \<and> (\<forall>h \<in> set hosts. pack_le counts (pickPackHost hosts counts) h)"
  using assms pack_scan_least [of counts "hd hosts" "tl hosts"]
  by (cases hosts) (simp_all add: pickPackHost_def Let_def)

section \<open>Properties\<close>

text \<open>
  The eligible hosts of a service are exactly the ready nodes, in HOSTS mode those the
  service pins (when it pins any), in lexicographic order, and they do not depend on the order
  in which the node store is listed.
\<close>

theorem EligibleHosts_exact:
  assumes "mset nodes = mset nodes'"
  shows "sorted (EligibleHosts spec nodes) \<and> EligibleHosts spec nodes' = EligibleHosts spec nodes
    \<and> set (EligibleHosts spec nodes) = {nd_hostname n | n. n \<in> set nodes \<and> nd_status n = NS_READY
        \<and> (ss_placement spec = PM_HOSTS \<and> ss_hosts spec \<noteq> [] \<longrightarrow> nd_hostname n \<in> set (ss_hosts spec))}"
proof (intro conjI)
  show "sorted (EligibleHosts spec nodes)" by (simp add: EligibleHosts_def Let_def)
  show "EligibleHosts spec nodes' = EligibleHosts spec nodes"
    using mset_EligibleHosts_cong [OF assms, of spec] by simp
qed (rule set_EligibleHosts)

lemma PlaceReplica_Inr_mem:
  assumes "PlaceReplica d spec eligible i counts = Inr h"
  shows "h \<in> set eligible"
proof -
  have ne: "eligible \<noteq> []" using assms by (auto simp: PlaceReplica_def)
  then have "length (sort eligible) > 0" by simp
  then have nth: "sort eligible ! (n mod length (sort eligible)) \<in> set eligible" for n
    by (metis mod_less_divisor nth_mem set_sort)
  from ne have "pickPackHost (sort eligible) counts \<in> set eligible"
    using pickPackHost_least [of "sort eligible" counts] by (metis length_0_conv length_sort set_sort)
  with assms ne nth show ?thesis
    by (auto simp: PlaceReplica_def pickSpreadHost_def Let_def split: PlacementMode.splits if_splits)
qed

text \<open>
  C36. Placing a replica fails exactly when there is no eligible host or a HOSTS service asks for
  more replicas than it has eligible hosts; otherwise the host is eligible. The decision depends
  only on the set of eligible hosts, not on the order they are listed in.
\<close>

theorem PlaceReplica_total:
  assumes "mset eligible = mset eligible'"
  shows "PlaceReplica d spec eligible' i counts = PlaceReplica d spec eligible i counts
    \<and> (case PlaceReplica d spec eligible i counts of
         Inl _ \<Rightarrow> eligible = [] \<or> ss_placement spec = PM_HOSTS \<and> sint (ss_replicas spec) > int (length eligible)
       | Inr h \<Rightarrow> h \<in> set eligible \<and> \<not> (ss_placement spec = PM_HOSTS \<and> sint (ss_replicas spec) > int (length eligible)))"
proof
  have "length eligible = length eligible'" using assms by (metis size_mset)
  then show "PlaceReplica d spec eligible' i counts = PlaceReplica d spec eligible i counts"
    using sort_mset_cong [OF assms] by (simp add: PlaceReplica_def)
  show "case PlaceReplica d spec eligible i counts of
         Inl _ \<Rightarrow> eligible = [] \<or> ss_placement spec = PM_HOSTS \<and> sint (ss_replicas spec) > int (length eligible)
       | Inr h \<Rightarrow> h \<in> set eligible \<and> \<not> (ss_placement spec = PM_HOSTS \<and> sint (ss_replicas spec) > int (length eligible))"
    by (auto split: sum.split dest: PlaceReplica_Inr_mem)
      (auto simp: PlaceReplica_def Let_def split: PlacementMode.splits if_splits)
qed

text \<open>
  What the modes promise: PACK picks the eligible host with the fewest replicas and among
  those the lexicographically first; HOSTS gives the replicas of a service pairwise different
  hosts.
\<close>

theorem PlaceReplica_modes:
  assumes "eligible \<noteq> []" "distinct eligible"
  shows "(ss_placement spec = PM_PACK \<longrightarrow> (\<exists>h. PlaceReplica d spec eligible i counts = Inr h \<and> h \<in> set eligible
        \<and> (\<forall>k \<in> set eligible. counts h < counts k \<or> counts h = counts k \<and> h \<le> k)))
    \<and> (ss_placement spec = PM_HOSTS \<and> i < nat (sint (ss_replicas spec)) \<and> j < nat (sint (ss_replicas spec)) \<and> i \<noteq> j
        \<and> PlaceReplica d spec eligible i counts = Inr h \<and> PlaceReplica d spec eligible j counts = Inr k
       \<longrightarrow> h \<noteq> k)"
proof (intro conjI impI)
  assume "ss_placement spec = PM_PACK"
  moreover have "sort eligible \<noteq> []" using assms(1) by (metis length_0_conv length_sort)
  moreover note pickPackHost_least [OF this, of counts]
  ultimately show "\<exists>h. PlaceReplica d spec eligible i counts = Inr h \<and> h \<in> set eligible
        \<and> (\<forall>k \<in> set eligible. counts h < counts k \<or> counts h = counts k \<and> h \<le> k)"
    using assms(1) by (auto simp: PlaceReplica_def Let_def pack_le_def)
next
  assume *: "ss_placement spec = PM_HOSTS \<and> i < nat (sint (ss_replicas spec)) \<and> j < nat (sint (ss_replicas spec)) \<and> i \<noteq> j
        \<and> PlaceReplica d spec eligible i counts = Inr h \<and> PlaceReplica d spec eligible j counts = Inr k"
  then have "nat (sint (ss_replicas spec)) \<le> length eligible"
    using assms(1) by (auto simp: PlaceReplica_def Let_def split: if_splits)
  with * have ij: "i < length (sort eligible)" "j < length (sort eligible)" by auto
  with * assms(1) have "h = sort eligible ! i" "k = sort eligible ! j"
    by (auto simp: PlaceReplica_def Let_def split: if_splits)
  with ij * assms(2) show "h \<noteq> k" by (simp add: nth_eq_iff_index_eq)
qed

section \<open>The theorems at concrete services\<close>

definition ex_node :: "string \<Rightarrow> NodeStatus \<Rightarrow> Node" where
  "ex_node h st = \<lparr>nd_hostname = h, nd_address = '''', nd_server_cert_fingerprint = '''',
     nd_wireguard_pubkey = '''', nd_status = st, nd_status_details = Map.empty, nd_joined_at = None,
     nd_grpc_address = '''', nd_cpu_pressure = 0, nd_memory_pressure = 0, nd_last_pressure_at = None\<rparr>"

definition ex_spec :: "PlacementMode \<Rightarrow> int32 \<Rightarrow> string list \<Rightarrow> ServiceSpec" where
  "ex_spec m n hs = \<lparr>ss_name = ''app'', ss_replicas = n, ss_placement = m, ss_hosts = hs, ss_networks = []\<rparr>"

theorem EligibleHosts_exact_witness:
  "EligibleHosts (ex_spec PM_HOSTS 1 [''n1'', ''n2'']) [ex_node ''n2'' NS_READY, ex_node ''n1'' NS_READY, ex_node ''n3'' NS_READY]
     = [''n1'', ''n2'']
   \<and> EligibleHosts (ex_spec PM_HOSTS 1 [''n1'', ''n2'']) [ex_node ''n1'' NS_READY, ex_node ''n3'' NS_READY, ex_node ''n2'' NS_READY]
     = [''n1'', ''n2'']"
proof -
  have e: "EligibleHosts (ex_spec PM_HOSTS 1 [''n1'', ''n2'']) [ex_node ''n2'' NS_READY, ex_node ''n1'' NS_READY, ex_node ''n3'' NS_READY]
     = [''n1'', ''n2'']" by code_simp
  have "mset [ex_node ''n2'' NS_READY, ex_node ''n1'' NS_READY, ex_node ''n3'' NS_READY] =
      mset [ex_node ''n1'' NS_READY, ex_node ''n3'' NS_READY, ex_node ''n2'' NS_READY]" by simp
  from EligibleHosts_exact [OF this, of "ex_spec PM_HOSTS 1 [''n1'', ''n2'']"] e show ?thesis by simp
qed

theorem PlaceReplica_total_witness:
  "PlaceReplica ''web'' (ex_spec PM_SPREAD 3 []) [''n2'', ''n1''] 0 (\<lambda>_. 0)
     = PlaceReplica ''web'' (ex_spec PM_SPREAD 3 []) [''n1'', ''n2''] 0 (\<lambda>_. 0)
   \<and> isl (PlaceReplica ''web'' (ex_spec PM_HOSTS 3 []) [''n1'', ''n2''] 0 (\<lambda>_. 0))"
proof
  show "PlaceReplica ''web'' (ex_spec PM_SPREAD 3 []) [''n2'', ''n1''] 0 (\<lambda>_. 0)
     = PlaceReplica ''web'' (ex_spec PM_SPREAD 3 []) [''n1'', ''n2''] 0 (\<lambda>_. 0)"
    using PlaceReplica_total [of "[''n1'', ''n2'']" "[''n2'', ''n1'']"] by simp
qed code_simp

theorem PlaceReplica_modes_witness:
  "\<exists>h. PlaceReplica ''web'' (ex_spec PM_PACK 3 []) [''n1'', ''n2''] 0 (\<lambda>h. if h = ''n1'' then 2 else 1) = Inr h \<and> h = ''n2''"
proof -
  have "distinct [''n1'', ''n2'']" "ss_placement (ex_spec PM_PACK 3 []) = PM_PACK"
    by (simp_all add: ex_spec_def)
  with PlaceReplica_modes [of "[''n1'', ''n2'']" "ex_spec PM_PACK 3 []" "''web''" 0 "\<lambda>h. if h = ''n1'' then 2 else 1"]
  show ?thesis by auto
qed

end
