(* ===== verification/Scheduler.thy ===== *)
theory Scheduler
  imports Rollout Placement
begin

text \<open>
  The reconcile pass of the scheduler, \<^verbatim>\<open>internal/scheduler/scheduler.go\<close> and
  \<^verbatim>\<open>compose_view.go\<close>: the diff between the replicas a deployment asks for and those that
  exist, the gate of a rolling image change, and the batch submitted to raft.

  Code the scheduler only calls is a parameter: \<open>load\<close> is \<open>compose.LoadBytes\<close> (the services of
  the parsed project as name and image, or the error text), \<open>hash\<close> is
  \<open>compose.ServiceSpecHash\<close>, \<open>quote\<close> is the \<open>%q\<close> verb of \<open>fmt\<close>. The clock of a pass reads
  \<open>now\<close>. The rollout driver may be absent (\<open>rollouts = False\<close>), as in the Go code where it may
  be nil. Indices of lists stand for the \<open>int32\<close> loop counters, which do not overflow: a loop
  runs to an \<open>int32\<close> bound. Logging is left out.
\<close>

section \<open>Definitions\<close>

type_synonym composeProject = "(string \<times> string) list"

fun lookupImage :: "composeProject \<Rightarrow> string \<Rightarrow> string" where
  "lookupImage [] serviceName = ''''"
| "lookupImage ((name, img) # ss) serviceName = (if name = serviceName then img else lookupImage ss serviceName)"

definition PlacementError_Error :: "(string \<Rightarrow> string) \<Rightarrow> PlacementError \<Rightarrow> string" where
  "PlacementError_Error quote e =
     (if pe_eligible e = 0 then ''service '' @ quote (pe_service e) @ '': no eligible hosts''
      else ''service '' @ quote (pe_service e) @ '': only '' @ FormatUint (pe_eligible e) @
        '' eligible host(s) but '' @ Itoa (pe_requested e) @ '' replicas requested'')"

definition markDeploymentPending :: "time \<Rightarrow> string \<Rightarrow> string \<Rightarrow> Command" where
  "markDeploymentPending now name reason =
     mk_cmd ''scheduler'' now (DeploymentStatusUpdate name DS_PENDING [''reason'' \<mapsto> reason])"

definition stickyExistingHost :: "ReplicaDesired \<Rightarrow> ServiceSpec \<Rightarrow> string list \<Rightarrow> string list \<Rightarrow> string" where
  "stickyExistingHost cur svc eligibleSet hostsSet =
     (let h = rd_host cur
      in if h = '''' then ''''
         else if h \<notin> set eligibleSet then ''''
         else if ss_placement svc = PM_HOSTS \<and> h \<notin> set hostsSet then ''''
         else h)"

definition isRollingImageChange :: "ReplicaDesired list \<Rightarrow> string \<Rightarrow> bool" where
  "isRollingImageChange currentByID desiredImage =
     (if length currentByID = 0 then False
      else if \<exists>r \<in> set currentByID. rd_image r = desiredImage then True
      else if \<exists>r \<in> set currentByID. rd_image r = '''' \<or> rd_image r = desiredImage then False
      else True)"

text \<open>\<open>driveRollout\<close> returns the step to upsert, \<open>-1\<close> for none.\<close>

definition driveRollout :: "applier \<Rightarrow> time \<Rightarrow> Deployment \<Rightarrow> ServiceSpec \<Rightarrow> int32 \<Rightarrow> State \<Rightarrow> int \<times> State" where
  "driveRollout submit now dep svc totalSteps s =
     (let key = RolloutPlanKey (dp_name dep) (ss_name svc);
          start = (case Start submit now (dp_name dep) (ss_name svc) (dp_applied_revision dep) totalSteps s of
                     (Some _, s') \<Rightarrow> (-1, s') | (None, s') \<Rightarrow> (0, s'))
      in case Store_Get (RolloutPlans s) key of
           None \<Rightarrow> start
         | Some plan \<Rightarrow>
             if rp_state plan \<noteq> RO_IN_PROGRESS
             then (if rp_target_revision plan = dp_applied_revision dep then (-1, s) else start)
             else
               let cur = sint (rp_current_step plan)
               in if cur \<ge> sint (rp_total_steps plan)
                  then (-1, snd (Complete submit now (dp_name dep) (ss_name svc) s))
                  else case StepReady now (dp_name dep) (ss_name svc) s of
                         Inl _ \<Rightarrow> (-1, s)
                       | Inr (ready, _) \<Rightarrow>
                           if \<not> ready then (cur, s)
                           else case AdvanceStep submit now (dp_name dep) (ss_name svc) s of
                                  (Some _, s') \<Rightarrow> (-1, s')
                                | (None, s') \<Rightarrow>
                                    (case Store_Get (RolloutPlans s') key of
                                       None \<Rightarrow> (-1, s')
                                     | Some plan' \<Rightarrow>
                                         if sint (rp_current_step plan') \<ge> sint (rp_total_steps plan')
                                         then (-1, snd (Complete submit now (dp_name dep) (ss_name svc) s'))
                                         else (sint (rp_current_step plan'), s')))"

record desiredReplica =
  dr_id :: string
  dr_host :: string
  dr_index :: int32

text \<open>The loop that places replicas \<open>i, i + 1, \<dots>\<close>; the first placement error ends it.\<close>

fun place_from :: "string \<Rightarrow> ServiceSpec \<Rightarrow> string list \<Rightarrow> (string \<Rightarrow> int) \<Rightarrow> nat \<Rightarrow> nat
    \<Rightarrow> PlacementError + desiredReplica list" where
  "place_from name svc eligible counts i 0 = Inr []"
| "place_from name svc eligible counts i (Suc n) =
     (case PlaceReplica name svc eligible i counts of
        Inl e \<Rightarrow> Inl e
      | Inr host \<Rightarrow>
          (case place_from name svc eligible counts (Suc i) n of
             Inl e \<Rightarrow> Inl e
           | Inr ds \<Rightarrow> Inr (\<lparr>dr_id = ReplicaID name (ss_name svc) (of_nat i), dr_host = host,
                              dr_index = of_nat i\<rparr> # ds)))"

definition desired_set :: "Deployment \<Rightarrow> ServiceSpec \<Rightarrow> string list \<Rightarrow> (string \<Rightarrow> int)
    \<Rightarrow> PlacementError + desiredReplica list" where
  "desired_set dep svc eligible counts =
     (if ss_placement svc = PM_GLOBAL
      then Inr (map (\<lambda>(i, host). \<lparr>dr_id = ReplicaIDForHost (dp_name dep) (ss_name svc) host,
                  dr_host = host, dr_index = of_nat i\<rparr>) (enumerate 0 eligible))
      else place_from (dp_name dep) svc eligible counts 0 (nat (sint (ss_replicas svc))))"

definition find_current :: "ReplicaDesired list \<Rightarrow> string \<Rightarrow> ReplicaDesired option" where
  "find_current current i = find (\<lambda>r. rd_id r = i) current"

definition chosen_host :: "ReplicaDesired list \<Rightarrow> ServiceSpec \<Rightarrow> string list \<Rightarrow> desiredReplica \<Rightarrow> string" where
  "chosen_host current svc eligible d =
     (case find_current current (dr_id d) of
        None \<Rightarrow> dr_host d
      | Some cur \<Rightarrow> (let sticky = stickyExistingHost cur svc eligible (ss_hosts svc)
                     in if sticky \<noteq> '''' then sticky else dr_host d))"

text \<open>
  The adds and updates, in the order of the desired set; the flag is \<open>imageChangedThisPass\<close>.
  The result is the list of replicas to upsert.
\<close>

fun upserts :: "Deployment \<Rightarrow> ServiceSpec \<Rightarrow> string list \<Rightarrow> ReplicaDesired list \<Rightarrow> string \<Rightarrow> bytes
    \<Rightarrow> bool \<Rightarrow> int \<Rightarrow> bool \<Rightarrow> desiredReplica list \<Rightarrow> ReplicaDesired list" where
  "upserts dep svc eligible current img specHash rolling rolloutStep changed [] = []"
| "upserts dep svc eligible current img specHash rolling rolloutStep changed (d # ds) =
     (let host = chosen_host current svc eligible d;
          rep = \<lparr>rd_id = dr_id d, rd_deployment = dp_name dep, rd_service = ss_name svc,
                 rd_index = dr_index d, rd_host = host, rd_image = img, rd_raft_index = 0,
                 rd_spec_hash = specHash\<rparr>;
          rest = (\<lambda>changed. upserts dep svc eligible current img specHash rolling rolloutStep changed ds)
      in case find_current current (dr_id d) of
           None \<Rightarrow> rep # rest changed
         | Some cur \<Rightarrow>
             if rd_host cur = host \<and> rd_image cur = img \<and> rd_spec_hash cur = specHash then rest changed
             else if rolling \<and> rd_host cur = host \<and> rd_image cur \<noteq> img
             then (if rolloutStep \<ge> 0
                   then (if sint (dr_index d) \<noteq> rolloutStep then rest changed else rep # rest changed)
                   else (if changed then rest changed else rep # rest True))
             else rep # rest changed)"

definition removals :: "ReplicaDesired list \<Rightarrow> desiredReplica list \<Rightarrow> string list" where
  "removals current desired = filter (\<lambda>i. i \<notin> dr_id ` set desired) (map rd_id current)"

definition replicas_of :: "State \<Rightarrow> string \<Rightarrow> string \<Rightarrow> ReplicaDesired list" where
  "replicas_of s d sv = filter (\<lambda>r. rd_deployment r = d \<and> rd_service r = sv) (Store_List (ReplicasDesired s))"

definition host_count :: "ReplicaDesired list \<Rightarrow> string \<Rightarrow> int" where
  "host_count rs h = int (length (filter (\<lambda>r. rd_host r = h) rs))"

definition reconcileService :: "(string \<Rightarrow> string) \<Rightarrow> applier \<Rightarrow> bool \<Rightarrow> time \<Rightarrow> Deployment \<Rightarrow> ServiceSpec
    \<Rightarrow> Node list \<Rightarrow> composeProject \<Rightarrow> bytes \<Rightarrow> State \<Rightarrow> Command list \<times> State" where
  "reconcileService quote submit rollouts now dep svc nodes project specHash s =
     (let img = lookupImage project (ss_name svc)
      in if img = ''''
         then ([markDeploymentPending now (dp_name dep)
                  (''service '' @ quote (ss_name svc) @ '' not found in compose project'')], s)
         else
           let eligible = EligibleHosts svc nodes;
               current = replicas_of s (dp_name dep) (ss_name svc)
           in case desired_set dep svc eligible (host_count current) of
                Inl e \<Rightarrow> ([markDeploymentPending now (dp_name dep) (PlacementError_Error quote e)], s)
              | Inr desired \<Rightarrow>
                  let rolling = isRollingImageChange current img;
                      totalSteps = (if ss_placement svc = PM_GLOBAL then of_nat (length eligible)
                                    else ss_replicas svc);
                      (rolloutStep, s') = (if rollouts \<and> rolling
                                           then driveRollout submit now dep svc totalSteps s else (-1, s))
                  in (map (\<lambda>rep. mk_cmd ''scheduler'' now (ReplicaDesiredUpsert (Some rep)))
                        (upserts dep svc eligible current img specHash rolling rolloutStep False desired)
                      @ map (\<lambda>i. mk_cmd ''scheduler'' now (ReplicaDesiredRemove i)) (removals current desired),
                      s'))"

fun reconcile_services :: "(bytes \<Rightarrow> string \<Rightarrow> string + bytes) \<Rightarrow> (string \<Rightarrow> string) \<Rightarrow> applier \<Rightarrow> bool \<Rightarrow> time
    \<Rightarrow> Deployment \<Rightarrow> Node list \<Rightarrow> composeProject \<Rightarrow> ServiceSpec list \<Rightarrow> State \<Rightarrow> Command list \<times> State" where
  "reconcile_services hash quote submit rollouts now dep nodes project [] s = ([], s)"
| "reconcile_services hash quote submit rollouts now dep nodes project (svc # svcs) s =
     (let (cmds, s1) = (case hash (dp_compose_yaml dep) (ss_name svc) of
            Inl err \<Rightarrow> ([markDeploymentPending now (dp_name dep)
               (''service '' @ quote (ss_name svc) @ '' spec hash failed: '' @ err)], s)
          | Inr specHash \<Rightarrow> reconcileService quote submit rollouts now dep svc nodes project specHash s);
          (more, s2) = reconcile_services hash quote submit rollouts now dep nodes project svcs s1
      in (cmds @ more, s2))"

text \<open>Replicas of services that are no longer part of the deployment.\<close>

definition stale_services :: "time \<Rightarrow> Deployment \<Rightarrow> State \<Rightarrow> Command list" where
  "stale_services now dep s =
     map (\<lambda>r. mk_cmd ''scheduler'' now (ReplicaDesiredRemove (rd_id r)))
       (filter (\<lambda>r. rd_deployment r = dp_name dep \<and> rd_service r \<notin> ss_name ` set (dp_services dep))
         (Store_List (ReplicasDesired s)))"

fun reconcile_deployments :: "(bytes \<Rightarrow> string + composeProject) \<Rightarrow> (bytes \<Rightarrow> string \<Rightarrow> string + bytes)
    \<Rightarrow> (string \<Rightarrow> string) \<Rightarrow> applier \<Rightarrow> bool \<Rightarrow> time \<Rightarrow> Node list \<Rightarrow> string list \<Rightarrow> Deployment list \<Rightarrow> State
    \<Rightarrow> Command list \<times> State" where
  "reconcile_deployments load hash quote submit rollouts now nodes aborted [] s = ([], s)"
| "reconcile_deployments load hash quote submit rollouts now nodes aborted (dep # deps) s =
     (let (cmds, s1) =
            (if dp_name dep \<in> set aborted then ([], s)
             else case load (dp_compose_yaml dep) of
                    Inl err \<Rightarrow> ([markDeploymentPending now (dp_name dep) (''compose parse failed: '' @ err)], s)
                  | Inr project \<Rightarrow>
                      (let (more, s') = reconcile_services hash quote submit rollouts now dep nodes project
                             (dp_services dep) s
                       in (stale_services now dep s @ more, s')));
          (rest, s2) = reconcile_deployments load hash quote submit rollouts now nodes aborted deps s1
      in (cmds @ rest, s2))"

definition Reconcile :: "(bytes \<Rightarrow> string + composeProject) \<Rightarrow> (bytes \<Rightarrow> string \<Rightarrow> string + bytes)
    \<Rightarrow> (string \<Rightarrow> string) \<Rightarrow> applier \<Rightarrow> bool \<Rightarrow> bool \<Rightarrow> time \<Rightarrow> State \<Rightarrow> State" where
  "Reconcile load hash quote submit rollouts isLeader now s =
     (if \<not> isLeader then s
      else
        let (aborted, s1) = (if rollouts then (case CheckTimeouts submit now s of (names, _, s') \<Rightarrow> (names, s'))
                             else ([], s));
            (batch, s2) = reconcile_deployments load hash quote submit rollouts now
               (Store_List (Nodes s1)) aborted (Store_List (Deployments s1)) s1
        in if length batch = 0 then s2
           else snd (submit (mk_cmd ''scheduler'' now (Batch (map Some batch))) s2))"

end
