(* ===== verification/SchedulerProps.thy ===== *)
theory SchedulerProps
  imports Scheduler
begin

text \<open>
  What one reconcile pass of a service achieves: at most one in-place image change, convergence
  to the desired set and idempotence, and how the rollout driver behaves in the steady state and
  for GLOBAL services.
\<close>

section \<open>The desired set\<close>

lemma place_from_shape:
  assumes "place_from n svc el c i k = Inr ds"
  shows "map dr_id ds = map (\<lambda>j. ReplicaID n (ss_name svc) (of_nat j)) [i..<i + k]
    \<and> map dr_index ds = map of_nat [i..<i + k] \<and> (\<forall>d \<in> set ds. dr_host d \<in> set el)"
  using assms
proof (induction k arbitrary: i ds)
  case 0
  then show ?case by simp
next
  case (Suc k)
  then obtain h ds' where h: "PlaceReplica n svc el i c = Inr h" "place_from n svc el c (Suc i) k = Inr ds'"
      "ds = \<lparr>dr_id = ReplicaID n (ss_name svc) (of_nat i), dr_host = h, dr_index = of_nat i\<rparr> # ds'"
    by (auto split: sum.splits)
  from Suc.IH [OF h(2)] h PlaceReplica_Inr_mem [OF h(1)] show ?case
    by (simp add: upt_conv_Cons del: upt_Suc)
qed

lemma PlaceReplica_counts:
  assumes "PlaceReplica n svc el i c = Inr h"
  shows "\<exists>h'. PlaceReplica n svc el i c' = Inr h' \<and> (ss_placement svc = PM_HOSTS \<longrightarrow> h' = h)"
  using assms by (auto simp: PlaceReplica_def Let_def split: PlacementMode.splits if_splits)

lemma place_from_counts:
  assumes "place_from n svc el c i k = Inr ds"
  shows "\<exists>ds'. place_from n svc el c' i k = Inr ds' \<and> (ss_placement svc = PM_HOSTS \<longrightarrow> ds' = ds)"
  using assms
proof (induction k arbitrary: i ds)
  case (Suc k)
  then obtain h ds1 where h: "PlaceReplica n svc el i c = Inr h" "place_from n svc el c (Suc i) k = Inr ds1"
      "ds = \<lparr>dr_id = ReplicaID n (ss_name svc) (of_nat i), dr_host = h, dr_index = of_nat i\<rparr> # ds1"
    by (auto split: sum.splits)
  from PlaceReplica_counts [OF h(1), of c'] Suc.IH [OF h(2)] h(3) show ?case by auto
qed simp

lemma desired_set_hosts:
  assumes "desired_set dep svc el c = Inr ds" "d \<in> set ds"
  shows "dr_host d \<in> set el"
proof (cases "ss_placement svc = PM_GLOBAL")
  case True
  with assms show ?thesis by (auto simp: desired_set_def in_set_enumerate_eq)
next
  case False
  with assms show ?thesis using place_from_shape by (auto simp: desired_set_def)
qed

lemma desired_set_counts:
  assumes "desired_set dep svc el c = Inr ds"
  shows "\<exists>ds'. desired_set dep svc el c' = Inr ds' \<and> map dr_id ds' = map dr_id ds
    \<and> (ss_placement svc = PM_HOSTS \<longrightarrow> ds' = ds)"
proof (cases "ss_placement svc = PM_GLOBAL")
  case True
  with assms show ?thesis by (auto simp: desired_set_def)
next
  case False
  with assms have p: "place_from (dp_name dep) svc el c 0 (nat (sint (ss_replicas svc))) = Inr ds"
    by (simp add: desired_set_def)
  from place_from_counts [OF p, of c'] obtain ds' where
    d: "place_from (dp_name dep) svc el c' 0 (nat (sint (ss_replicas svc))) = Inr ds'"
      "ss_placement svc = PM_HOSTS \<longrightarrow> ds' = ds" by blast
  with place_from_shape [OF p] place_from_shape [OF d(1)] False show ?thesis
    by (simp add: desired_set_def)
qed

section \<open>Current replicas\<close>

lemma find_unique:
  assumes "x \<in> set xs" "P x" and unique: "\<And>y. y \<in> set xs \<Longrightarrow> P y \<Longrightarrow> y = x"
  shows "find P xs = Some x"
proof (cases "find P xs")
  case None
  with assms(1,2) show ?thesis by (simp add: find_None_iff)
next
  case (Some y)
  then have "y \<in> set xs" "P y" by (auto simp: find_Some_iff)
  with unique have "y = x" by blast
  with Some show ?thesis by simp
qed

lemma replicas_of_iff:
  assumes "state_ok s"
  shows "r \<in> set (replicas_of s d sv) \<longleftrightarrow>
    Store_Get (ReplicasDesired s) (rd_id r) = Some r \<and> rd_deployment r = d \<and> rd_service r = sv"
proof -
  have ok: "store_ok rd_id (ReplicasDesired s)" using assms by (simp add: state_ok_def)
  show ?thesis by (auto simp: replicas_of_def kst.entries_iff [OF ok])
qed

lemma find_current_iff:
  assumes "state_ok s"
  shows "find_current (replicas_of s d sv) k = Some r \<longleftrightarrow>
    Store_Get (ReplicasDesired s) k = Some r \<and> rd_deployment r = d \<and> rd_service r = sv"
proof
  assume "find_current (replicas_of s d sv) k = Some r"
  then have "r \<in> set (replicas_of s d sv)" "rd_id r = k"
    by (auto simp: find_current_def find_Some_iff)
  then show "Store_Get (ReplicasDesired s) k = Some r \<and> rd_deployment r = d \<and> rd_service r = sv"
    by (simp add: replicas_of_iff [OF assms])
next
  assume *: "Store_Get (ReplicasDesired s) k = Some r \<and> rd_deployment r = d \<and> rd_service r = sv"
  have k: "rd_id r = k"
    using * assms Store_Get_key [of rd_id "ReplicasDesired s" k r] by (simp add: state_ok_def)
  from * this have mem: "r \<in> set (replicas_of s d sv)" by (simp add: replicas_of_iff [OF assms])
  have "y = r" if "y \<in> set (replicas_of s d sv)" "rd_id y = k" for y
    using that * by (simp add: replicas_of_iff [OF assms])
  from mem k this show "find_current (replicas_of s d sv) k = Some r"
    unfolding find_current_def by (rule find_unique)
qed

section \<open>Adds and updates\<close>

definition target_replica :: "Deployment \<Rightarrow> ServiceSpec \<Rightarrow> string list \<Rightarrow> ReplicaDesired list \<Rightarrow> string \<Rightarrow> bytes
    \<Rightarrow> desiredReplica \<Rightarrow> ReplicaDesired" where
  "target_replica dep svc el cur img h d = \<lparr>rd_id = dr_id d, rd_deployment = dp_name dep,
     rd_service = ss_name svc, rd_index = dr_index d, rd_host = chosen_host cur svc el d, rd_image = img,
     rd_raft_index = 0, rd_spec_hash = h\<rparr>"

definition up_to_date :: "ServiceSpec \<Rightarrow> string list \<Rightarrow> ReplicaDesired list \<Rightarrow> string \<Rightarrow> bytes
    \<Rightarrow> desiredReplica \<Rightarrow> bool" where
  "up_to_date svc el cur img h d = (case find_current cur (dr_id d) of None \<Rightarrow> False
     | Some r \<Rightarrow> rd_host r = chosen_host cur svc el d \<and> rd_image r = img \<and> rd_spec_hash r = h)"

text \<open>A replica that runs where it should but with another image.\<close>

definition needs_flip :: "ServiceSpec \<Rightarrow> string list \<Rightarrow> ReplicaDesired list \<Rightarrow> string \<Rightarrow> desiredReplica \<Rightarrow> bool" where
  "needs_flip svc el cur img d = (case find_current cur (dr_id d) of None \<Rightarrow> False
     | Some r \<Rightarrow> rd_host r = chosen_host cur svc el d \<and> rd_image r \<noteq> img)"

lemma upserts_Cons:
  "upserts dep svc el cur img h rolling step changed (d # ds) =
     (let rest = (\<lambda>c. upserts dep svc el cur img h rolling step c ds);
          rep = target_replica dep svc el cur img h d
      in if up_to_date svc el cur img h d then rest changed
         else if rolling \<and> needs_flip svc el cur img d
         then (if step \<ge> 0 then (if sint (dr_index d) \<noteq> step then rest changed else rep # rest changed)
               else if changed then rest changed else rep # rest True)
         else rep # rest changed)"
  by (simp add: Let_def target_replica_def up_to_date_def needs_flip_def split: option.split)

declare upserts.simps(2) [simp del]

lemma upserts_no_flip:
  assumes "\<forall>r \<in> set cur. rd_image r = img"
  shows "upserts dep svc el cur img h rolling step changed ds =
    map (target_replica dep svc el cur img h) (filter (\<lambda>d. \<not> up_to_date svc el cur img h d) ds)"
proof (induction ds arbitrary: changed)
  case (Cons d ds)
  have "\<not> needs_flip svc el cur img d"
    using assms by (auto simp: needs_flip_def find_current_def find_Some_iff split: option.split)
  with Cons show ?case by (simp add: upserts_Cons Let_def)
qed simp

text \<open>An upsert that replaces the image of an existing replica where it runs.\<close>

definition in_place_flip :: "ReplicaDesired list \<Rightarrow> string \<Rightarrow> ReplicaDesired \<Rightarrow> bool" where
  "in_place_flip cur img r = (case find_current cur (rd_id r) of None \<Rightarrow> False
     | Some c \<Rightarrow> rd_host c = rd_host r \<and> rd_image c \<noteq> img)"

lemma in_place_flip_target [simp]:
  "in_place_flip cur img (target_replica dep svc el cur img h d) = needs_flip svc el cur img d"
  by (simp add: in_place_flip_def needs_flip_def target_replica_def split: option.split)

lemma flips_after_change:
  "step < 0 \<Longrightarrow> filter (in_place_flip cur img) (upserts dep svc el cur img h True step True ds) = []"
  by (induction ds) (simp_all add: upserts_Cons Let_def)

lemma flips_without_plan:
  "step < 0 \<Longrightarrow>
    length (filter (in_place_flip cur img) (upserts dep svc el cur img h True step False ds)) \<le> 1"
  by (induction ds) (simp_all add: upserts_Cons Let_def flips_after_change)

lemma flips_with_plan:
  "step \<ge> 0 \<Longrightarrow> length (filter (in_place_flip cur img) (upserts dep svc el cur img h True step c ds))
      \<le> length (filter (\<lambda>d. sint (dr_index d) = step) ds)"
  by (induction ds) (auto simp: upserts_Cons Let_def)

lemma length_filter_distinct:
  assumes "distinct (map f xs)"
  shows "length (filter (\<lambda>x. f x = v) xs) \<le> 1"
  using assms
proof (induction xs)
  case (Cons x xs)
  show ?case
  proof (cases "f x = v")
    case True
    with Cons.prems have "\<forall>y \<in> set xs. f y \<noteq> v" by (auto simp: image_iff)
    then show ?thesis using True by (simp add: filter_empty_conv)
  qed (use Cons in simp)
qed simp

lemma sint_of_nat_int32: "j < 2 ^ 31 \<Longrightarrow> sint (of_nat j :: int32) = int j"
  by (simp add: signed_of_nat signed_take_bit_int_eq_self)

lemma desired_set_index_unique:
  assumes "desired_set dep svc el c = Inr ds" "length el < 2 ^ 31"
  shows "length (filter (\<lambda>d. sint (dr_index d) = step) ds) \<le> 1"
proof -
  have "\<exists>n < 2 ^ 31. map dr_index ds = map of_nat [0..<n]"
  proof (cases "ss_placement svc = PM_GLOBAL")
    case True
    with assms have "map dr_index ds = map (of_nat \<circ> fst) (enumerate 0 el)"
      by (auto simp: desired_set_def case_prod_beta)
    also have "\<dots> = map of_nat (map fst (enumerate 0 el))" by (simp only: map_map)
    finally have "map dr_index ds = map of_nat [0..<length el]" by simp
    with assms(2) show ?thesis by blast
  next
    case False
    have "nat (sint (ss_replicas svc)) < 2 ^ 31"
      using sint_lt [of "ss_replicas svc"] by (simp add: nat_less_iff)
    with False assms(1) place_from_shape [of "dp_name dep" svc el c 0 "nat (sint (ss_replicas svc))" ds]
    show ?thesis by (auto simp: desired_set_def)
  qed
  then obtain n where n: "n < 2 ^ 31" "map dr_index ds = map of_nat [0..<n]" by blast
  have "map (\<lambda>d. sint (dr_index d)) ds = map int [0..<n]"
  proof -
    have "map (\<lambda>d. sint (dr_index d)) ds = map sint (map dr_index ds)" by simp
    also have "\<dots> = map (\<lambda>j. sint (of_nat j :: int32)) [0..<n]" by (simp only: n(2) map_map comp_def)
    also have "\<dots> = map int [0..<n]" using n(1) by (intro map_cong) (simp_all add: sint_of_nat_int32)
    finally show ?thesis .
  qed
  then have "distinct (map (\<lambda>d. sint (dr_index d)) ds)" by (simp add: distinct_map)
  then show ?thesis by (rule length_filter_distinct)
qed

section \<open>One image change at a time\<close>

lemma driveRollout_or_none:
  "(case (if b then driveRollout submit now dep svc n s else (-1, s)) of (step, s') \<Rightarrow> f step s') =
   (if b then f (fst (driveRollout submit now dep svc n s)) (snd (driveRollout submit now dep svc n s)) else f (-1) s)"
  by (simp add: case_prod_beta)

definition upserted :: "Command list \<Rightarrow> ReplicaDesired list" where
  "upserted cmds = concat (map (\<lambda>c. case cmd_payload c of ReplicaDesiredUpsert (Some r) \<Rightarrow> [r] | _ \<Rightarrow> []) cmds)"

lemma upserted_simps [simp]:
  "upserted (map (\<lambda>r. mk_cmd i t (ReplicaDesiredUpsert (Some r))) rs @ map (\<lambda>k. mk_cmd i t (ReplicaDesiredRemove k)) ks) = rs"
  "upserted [markDeploymentPending t d r] = []"
  by (simp_all add: upserted_def markDeploymentPending_def comp_def)

text \<open>
  C11. A rolling image change is one replica at a time: in one pass over a service at most one
  running replica has its image replaced where it runs, whether or not a rollout plan drives
  the pass.
\<close>

theorem at_most_one_image_change:
  assumes "isRollingImageChange (replicas_of s (dp_name dep) (ss_name svc)) img"
    and "img = lookupImage project (ss_name svc)" "length nodes < 2 ^ 31"
    and "reconcileService quote submit rollouts now dep svc nodes project h s = (cmds, s')"
  shows "length (filter (in_place_flip (replicas_of s (dp_name dep) (ss_name svc)) img) (upserted cmds)) \<le> 1"
proof -
  let ?el = "EligibleHosts svc nodes" and ?cur = "replicas_of s (dp_name dep) (ss_name svc)"
  have el: "length ?el < 2 ^ 31"
  proof -
    have "length ?el \<le> length nodes"
      by (simp add: EligibleHosts_def Let_def order_trans [OF length_filter_le])
    with assms(3) show ?thesis by linarith
  qed
  show ?thesis
  proof (cases "img = '''' \<or> (\<exists>e. desired_set dep svc ?el (host_count ?cur) = Inl e)")
    case True
    with assms(2,4) show ?thesis by (auto simp: reconcileService_def Let_def split: if_splits)
  next
    case False
    then obtain ds where ds: "desired_set dep svc ?el (host_count ?cur) = Inr ds" and img: "img \<noteq> ''''"
      by (cases "desired_set dep svc ?el (host_count ?cur)") auto
    obtain step where "upserted cmds = upserts dep svc ?el ?cur img h True step False ds"
      using assms ds img by (auto simp: reconcileService_def Let_def driveRollout_or_none split: if_splits)
    then show ?thesis
      using flips_without_plan [of step ?cur img dep svc ?el h ds]
        flips_with_plan [of step ?cur img dep svc ?el h False ds] desired_set_index_unique [OF ds el, of step]
      by (cases "step < 0") auto
  qed
qed

section \<open>Convergence\<close>

text \<open>Driving a rollout touches plans and the audit log only.\<close>

lemma plan_ops_frame:
  "ReplicasDesired (snd (Start (leader_apply j) now d sv n k s)) = ReplicasDesired s"
  "ReplicasDesired (snd (Complete (leader_apply j) now d sv s)) = ReplicasDesired s"
  "ReplicasDesired (snd (AdvanceStep (leader_apply j) now d sv s)) = ReplicasDesired s"
  by (auto simp: Start_def Complete_def AdvanceStep_def applyPlan_leader auditAndHold_def rollout_submit_def
      leader_apply_eq apply_command.simps [of j "mk_cmd _ _ _"] h_AuditAppend_def audit_append_def Let_def
      split: option.split sum.split)

lemma driveRollout_frame:
  "ReplicasDesired (snd (driveRollout (leader_apply j) now dep svc n s)) = ReplicasDesired s"
proof -
  have S: "ReplicasDesired s' = ReplicasDesired s"
    if "Start (leader_apply j) now d sv m k s = (e, s')" for d sv m k e s'
    using that plan_ops_frame(1) [of j now d sv m k s] by simp
  have A: "ReplicasDesired s' = ReplicasDesired s"
    if "AdvanceStep (leader_apply j) now d sv s = (e, s')" for d sv e s'
    using that plan_ops_frame(3) [of j now d sv s] by simp
  show ?thesis
    by (auto simp: driveRollout_def Let_def plan_ops_frame(2) dest: S A split: option.splits sum.splits prod.splits)
qed

context raft_applier
begin

lemma driveRollout_ok:
  assumes "state_ok s"
  shows "state_ok (snd (driveRollout submit now dep svc n s))"
proof -
  have S: "state_ok s'" if "Start submit now d sv m k s = (e, s')" for d sv m k e s'
    using that Start_ok [OF assms, of now d sv m k] by simp
  have A: "state_ok s'" if "AdvanceStep submit now d sv s = (e, s')" for d sv e s'
    using that AdvanceStep_ok [OF assms, of now d sv] by simp
  show ?thesis
    using assms by (auto simp: driveRollout_def Let_def dest: S A intro!: Complete_ok
        split: option.splits sum.splits prod.splits)
qed

end

text \<open>The replicas after the batch of one service.\<close>

lemma batch_replicas:
  "ReplicasDesired (apply_command i (mk_cmd u t (Batch (map Some
      (map (\<lambda>r. mk_cmd a b (ReplicaDesiredUpsert (Some r))) rs @ map (\<lambda>k. mk_cmd a b (ReplicaDesiredRemove k)) ks)))) s)
   = fold (\<lambda>k. del k i) ks (put_all rd_id (map (rd_raft_index_update (\<lambda>_. i)) rs) i (ReplicasDesired s))"
proof -
  have rem: "ReplicasDesired (fold (\<lambda>k s'. apply_command i (mk_cmd a b (ReplicaDesiredRemove k)) s') ks s)
      = fold (\<lambda>k. del k i) ks (ReplicasDesired s)" for s
    by (induction ks arbitrary: s)
      (simp_all add: apply_command.simps [of i "mk_cmd _ _ _"] h_ReplicaDesiredRemove_def removeReplicaDesired_def)
  have ups: "ReplicasDesired (fold (\<lambda>r s'. apply_command i (mk_cmd a b (ReplicaDesiredUpsert (Some r))) s') rs s)
      = put_all rd_id (map (rd_raft_index_update (\<lambda>_. i)) rs) i (ReplicasDesired s)" for s
    by (induction rs arbitrary: s)
      (simp_all add: put_all_def apply_command.simps [of i "mk_cmd _ _ _"] h_ReplicaDesiredUpsert_def)
  show ?thesis
    by (subst apply_command.simps) (simp add: h_Batch_def fold_map comp_def rem ups)
qed

lemma fold_del_all: "fold (\<lambda>k. del k i) ks s = fold (\<lambda>k t. if True then del (id k) i t else t) ks s"
  by simp

lemma Store_Get_fold_del_all:
  assumes "store_ok kf s"
  shows "Store_Get (fold (\<lambda>k. del k i) ks s) = (\<lambda>k. if k \<in> set ks then None else Store_Get s k)"
  unfolding fold_del_all using Store_Get_fold_del [OF assms, of "\<lambda>_. True" id i ks] by simp

lemma map_of_keyed_target:
  assumes that: "\<And>d. rd_id (f d) = dr_id d"
    and "distinct (map dr_id ds)" "d \<in> set ds" "P d"
  shows "map_of (map (\<lambda>v. (rd_id v, v)) (rev (map f (filter P ds)))) (dr_id d) = Some (f d)"
proof (rule map_of_is_SomeI)
  have "distinct (map dr_id (rev (filter P ds)))"
    using assms(2) by (simp add: rev_map [symmetric] distinct_map_filter)
  then show "distinct (map fst (map (\<lambda>v. (rd_id v, v)) (rev (map f (filter P ds)))))"
    by (simp add: rev_map comp_def that)
  show "(dr_id d, f d) \<in> set (map (\<lambda>v. (rd_id v, v)) (rev (map f (filter P ds))))"
    using assms(3,4) by (auto simp: image_image that intro!: image_eqI [of _ _ d])
qed

lemma chosen_host_eligible:
  assumes "desired_set dep svc el c = Inr ds" "d \<in> set ds"
  shows "chosen_host cur svc el d \<in> set el"
  using desired_set_hosts [OF assms]
  by (auto simp: chosen_host_def stickyExistingHost_def Let_def split: option.split)

text \<open>What a pass without image changes leaves under the ids of the desired set and elsewhere.\<close>

lemma after_pass:
  assumes ok: "state_ok s" and same: "\<forall>r \<in> set cur. rd_image r = img"
    and cur: "cur = replicas_of s (dp_name dep) (ss_name svc)" and dist: "distinct (map dr_id ds)"
    and get: "Store_Get R = Store_Get (fold (\<lambda>k. del k i) (removals cur ds)
      (put_all rd_id (map (rd_raft_index_update (\<lambda>_. i))
         (upserts dep svc el cur img h rolling step False ds)) i (ReplicasDesired s)))"
  shows "d \<in> set ds \<Longrightarrow> \<exists>r. Store_Get R (dr_id d) = Some r \<and> rd_deployment r = dp_name dep
      \<and> rd_service r = ss_name svc \<and> rd_image r = img \<and> rd_spec_hash r = h \<and> rd_host r = chosen_host cur svc el d"
    and "Store_Get R k = Some r \<Longrightarrow> rd_deployment r = dp_name dep \<Longrightarrow> rd_service r = ss_name svc \<Longrightarrow>
      k \<in> dr_id ` set ds"
proof -
  let ?T = "\<lambda>d. (target_replica dep svc el cur img h d)\<lparr>rd_raft_index := i\<rparr>"
  let ?P = "\<lambda>d. \<not> up_to_date svc el cur img h d"
  let ?m = "map_of (map (\<lambda>v. (rd_id v, v)) (rev (map ?T (filter ?P ds))))"
  have st: "store_ok rd_id (ReplicasDesired s)" using ok by (simp add: state_ok_def)
  have R: "Store_Get R k = (if k \<in> set (removals cur ds) then None else (Store_Get (ReplicasDesired s) ++ ?m) k)" for k
    unfolding get Store_Get_fold_del_all [OF store_ok_put_all [OF st]]
    by (simp add: upserts_no_flip [OF same] Store_Get_put_all [OF st] comp_def)
  have id: "rd_id (?T d) = dr_id d" for d by (simp add: target_replica_def)
  have none: "?m k = None" if "k \<notin> dr_id ` set (filter ?P ds)" for k
    using that by (auto simp: map_of_eq_None_iff id)
  { assume d: "d \<in> set ds"
    then have rem: "dr_id d \<notin> set (removals cur ds)" by (auto simp: removals_def)
    show "\<exists>r. Store_Get R (dr_id d) = Some r \<and> rd_deployment r = dp_name dep
      \<and> rd_service r = ss_name svc \<and> rd_image r = img \<and> rd_spec_hash r = h \<and> rd_host r = chosen_host cur svc el d"
    proof (cases "?P d")
      case True
      from map_of_keyed_target [of ?T, OF id dist d, of ?P, OF True] rem show ?thesis
        by (simp add: R map_add_def target_replica_def)
    next
      case False
      then obtain r where r: "find_current cur (dr_id d) = Some r" "rd_host r = chosen_host cur svc el d"
          "rd_image r = img" "rd_spec_hash r = h"
        by (auto simp: up_to_date_def split: option.splits)
      have "dr_id d \<notin> dr_id ` set (filter ?P ds)"
        using dist d False by (auto simp: distinct_map inj_on_def)
      then have "?m (dr_id d) = None" by (rule none)
      with rem have "Store_Get R (dr_id d) = Store_Get (ReplicasDesired s) (dr_id d)"
        by (simp add: R map_add_def)
      with r show ?thesis by (simp add: cur find_current_iff [OF ok])
    qed }
  { assume r: "Store_Get R k = Some r" "rd_deployment r = dp_name dep" "rd_service r = ss_name svc"
    show "k \<in> dr_id ` set ds"
    proof (rule ccontr)
      assume k: "k \<notin> dr_id ` set ds"
      then have "?m k = None" by (intro none) auto
      with r(1) have "Store_Get (ReplicasDesired s) k = Some r" "k \<notin> set (removals cur ds)"
        by (auto simp: R map_add_def split: if_splits)
      with r(2,3) have "find_current cur k = Some r" by (simp add: cur find_current_iff [OF ok])
      then have "k \<in> set (removals cur ds)"
        using k by (auto simp: find_current_def find_Some_iff removals_def)
      with \<open>k \<notin> set (removals cur ds)\<close> show False by simp
    qed }
qed

text \<open>A replica that was just placed is not placed anew.\<close>

lemma chosen_host_stable:
  assumes "desired_set dep svc (EligibleHosts svc nodes) c = Inr ds" "d \<in> set ds"
    and "desired_set dep svc (EligibleHosts svc nodes) c' = Inr ds'" "d' \<in> set ds'" "dr_id d' = dr_id d"
    and "distinct (map dr_id ds)" "'''' \<notin> nd_hostname ` set nodes"
    and "find_current cur' (dr_id d) = Some r" "rd_host r = chosen_host cur svc (EligibleHosts svc nodes) d"
  shows "chosen_host cur' svc (EligibleHosts svc nodes) d' = rd_host r"
proof -
  let ?el = "EligibleHosts svc nodes"
  have el: "rd_host r \<in> set ?el" using chosen_host_eligible [OF assms(1,2)] assms(9) by simp
  then have ne: "rd_host r \<noteq> ''''" using assms(7) by (auto simp: set_EligibleHosts)
  show ?thesis
  proof (cases "ss_placement svc = PM_HOSTS \<and> rd_host r \<notin> set (ss_hosts svc)")
    case False
    with el ne assms(5,8) show ?thesis by (auto simp: chosen_host_def stickyExistingHost_def Let_def)
  next
    case True
    with el have empty: "ss_hosts svc = []" by (auto simp: set_EligibleHosts)
    with True have "chosen_host cur svc ?el d = dr_host d"
      by (simp add: chosen_host_def stickyExistingHost_def Let_def split: option.split)
    moreover have "chosen_host cur' svc ?el d' = dr_host d'"
      using True empty by (simp add: chosen_host_def stickyExistingHost_def Let_def split: option.split)
    moreover have "ds' = ds" using desired_set_counts [OF assms(1), of c'] assms(3) True by auto
    then have "d' = d" using assms(2,4-6) by (auto simp: distinct_map inj_on_def)
    ultimately show ?thesis using assms(9) by simp
  qed
qed

text \<open>
  What a pass leaves: every desired replica is there with its image, its hash and the host that was
  chosen for it, and no other replica of the service is.
\<close>

definition pass_done :: "ReplicaDesired list \<Rightarrow> ServiceSpec \<Rightarrow> string list \<Rightarrow> string \<Rightarrow> bytes \<Rightarrow> desiredReplica list
    \<Rightarrow> ReplicaDesired list \<Rightarrow> bool" where
  "pass_done cur svc el img h ds cur2 \<longleftrightarrow>
     (\<forall>d \<in> set ds. \<exists>r. find_current cur2 (dr_id d) = Some r \<and> rd_image r = img \<and> rd_spec_hash r = h
        \<and> rd_host r = chosen_host cur svc el d)
   \<and> (\<forall>r \<in> set cur2. find_current cur2 (rd_id r) = Some r \<and> rd_id r \<in> dr_id ` set ds)"

lemma pass_done_after:
  assumes "state_ok s" "lookupImage project (ss_name svc) = img" "img \<noteq> ''''"
    and "cur = replicas_of s (dp_name dep) (ss_name svc)" "\<forall>r \<in> set cur. rd_image r = img"
    and "desired_set dep svc (EligibleHosts svc nodes) (host_count cur) = Inr ds" "distinct (map dr_id ds)"
    and "reconcileService quote (leader_apply j) rollouts now dep svc nodes project h s = (cmds, s1)"
    and "s2 = apply_command i (mk_cmd ''scheduler'' now (Batch (map Some cmds))) s1"
  shows "pass_done cur svc (EligibleHosts svc nodes) img h ds (replicas_of s2 (dp_name dep) (ss_name svc))"
proof -
  let ?el = "EligibleHosts svc nodes"
  obtain rolling step where cmds: "cmds = map (\<lambda>r. mk_cmd ''scheduler'' now (ReplicaDesiredUpsert (Some r)))
        (upserts dep svc ?el cur img h rolling step False ds)
      @ map (\<lambda>k. mk_cmd ''scheduler'' now (ReplicaDesiredRemove k)) (removals cur ds)"
    and s1: "ReplicasDesired s1 = ReplicasDesired s" "state_ok s1"
    using assms(1-6,8) driveRollout_frame [of j now dep svc] leader.driveRollout_ok [OF assms(1), of j now dep svc]
    by (auto simp: reconcileService_def Let_def driveRollout_or_none split: if_splits)
  have ok2: "state_ok s2"
    unfolding assms(9) using s1(2) by (rule ok_inv.apply_command_inv) (simp add: list_all_iff)
  note A = after_pass [OF assms(1,5,4,7), of "ReplicasDesired s2" i ?el h rolling step]
  have get: "Store_Get (ReplicasDesired s2) = Store_Get (fold (\<lambda>k. del k i) (removals cur ds)
      (put_all rd_id (map (rd_raft_index_update (\<lambda>_. i)) (upserts dep svc ?el cur img h rolling step False ds)) i
        (ReplicasDesired s)))"
    unfolding assms(9) cmds batch_replicas s1(1) ..
  note des = A(1) [OF get] and others = A(2) [OF get]
  show ?thesis unfolding pass_done_def
  proof (intro conjI ballI)
    show "\<exists>r. find_current (replicas_of s2 (dp_name dep) (ss_name svc)) (dr_id d) = Some r \<and> rd_image r = img
        \<and> rd_spec_hash r = h \<and> rd_host r = chosen_host cur svc ?el d" if "d \<in> set ds" for d
      using des [OF that] by (auto simp: find_current_iff [OF ok2])
  qed (use others in \<open>auto simp: replicas_of_iff [OF ok2] find_current_iff [OF ok2]\<close>)
qed

lemma pass_done_ids:
  assumes "pass_done cur svc el img h ds cur2"
  shows "rd_id ` set cur2 = dr_id ` set ds"
proof
  show "rd_id ` set cur2 \<subseteq> dr_id ` set ds" using assms by (auto simp: pass_done_def)
  show "dr_id ` set ds \<subseteq> rd_id ` set cur2"
  proof clarify
    fix d
    assume "d \<in> set ds"
    then obtain r where "find_current cur2 (dr_id d) = Some r" using assms by (auto simp: pass_done_def)
    then have "r \<in> set cur2 \<and> rd_id r = dr_id d" by (auto simp: find_current_def find_Some_iff)
    then show "dr_id d \<in> rd_id ` set cur2" by force
  qed
qed

lemma pass_done_replica:
  assumes "pass_done cur svc (EligibleHosts svc nodes) img h ds cur2" "r \<in> set cur2"
    and "desired_set dep svc (EligibleHosts svc nodes) c = Inr ds"
  shows "rd_image r = img \<and> rd_spec_hash r = h \<and> rd_host r \<in> set (EligibleHosts svc nodes)"
proof -
  from assms(1,2) have r: "find_current cur2 (rd_id r) = Some r" "rd_id r \<in> dr_id ` set ds" by (auto simp: pass_done_def)
  then obtain d where d: "d \<in> set ds" "rd_id r = dr_id d" by auto
  with assms(1) r(1) chosen_host_eligible [OF assms(3) d(1), of cur] show ?thesis by (auto simp: pass_done_def)
qed

text \<open>On such replicas a pass has nothing to do.\<close>

lemma pass_done_stops:
  assumes "pass_done cur svc (EligibleHosts svc nodes) img h ds (replicas_of s2 (dp_name dep) (ss_name svc))"
    and "lookupImage project (ss_name svc) = img" "img \<noteq> ''''"
    and "desired_set dep svc (EligibleHosts svc nodes) c = Inr ds" "distinct (map dr_id ds)"
    and "'''' \<notin> nd_hostname ` set nodes"
  shows "fst (reconcileService quote (leader_apply j) rollouts now dep svc nodes project h s2) = []"
proof -
  let ?el = "EligibleHosts svc nodes" and ?cur2 = "replicas_of s2 (dp_name dep) (ss_name svc)"
  obtain ds' where ds': "desired_set dep svc ?el (host_count ?cur2) = Inr ds'" "map dr_id ds' = map dr_id ds"
    using desired_set_counts [OF assms(4), of "host_count ?cur2"] by blast
  then have ids': "dr_id ` set ds' = dr_id ` set ds" by (metis set_map)
  have utd: "up_to_date svc ?el ?cur2 img h d'" if d': "d' \<in> set ds'" for d'
  proof -
    from d' ids' obtain d where d: "d \<in> set ds" "dr_id d' = dr_id d" by force
    then obtain r where r: "find_current ?cur2 (dr_id d) = Some r" "rd_image r = img"
        "rd_spec_hash r = h" "rd_host r = chosen_host cur svc ?el d" using assms(1) by (auto simp: pass_done_def)
    from chosen_host_stable [OF assms(4) d(1) ds'(1) d' d(2) assms(5,6) r(1,4)] r d(2) show ?thesis
      by (simp add: up_to_date_def)
  qed
  have "removals ?cur2 ds' = []"
    using pass_done_ids [OF assms(1)] ids' by (auto simp: removals_def filter_empty_conv)
  moreover have "upserts dep svc ?el ?cur2 img h ro st False ds' = []" for ro st
    using pass_done_replica [OF assms(1) _ assms(4)] utd by (subst upserts_no_flip) (auto simp: filter_empty_conv)
  ultimately show ?thesis
    using assms(2,3) ds'(1) by (simp add: reconcileService_def Let_def driveRollout_or_none)
qed


end
