(* ===== verification/FsmWitness.thy ===== *)
theory FsmWitness
  imports FsmProps
begin

text \<open>
  The theorems of \<^verbatim>\<open>FsmProps\<close> at concrete logs: small clusters built by replaying commands
  from the empty state, on which the hypotheses are discharged and the conclusions computed.
\<close>

lemma state_ok_run_log: "state_ok s \<Longrightarrow> state_ok (run_log es s)"
  by (rule ok_inv.run_log_keeps) simp_all

definition ex_subnet :: "string \<Rightarrow> uint64 \<times> Command" where
  "ex_subnet h = (1, mk_cmd ''ipam'' 5 (SubnetAllocate ''web'' ''default'' (''10.244.'' @ h @ ''.0/24'') h))"

definition ex_route :: "string \<Rightarrow> string \<Rightarrow> Route" where
  "ex_route dn d = \<lparr>rt_domain = dn, rt_deployment = d, rt_service = ''app'', rt_port = 80,
     rt_tls_auto = True, rt_path = ''/'', rt_strip_path = False\<rparr>"

definition ex_replica :: "string \<Rightarrow> string \<Rightarrow> ReplicaDesired" where
  "ex_replica i d = \<lparr>rd_id = i, rd_deployment = d, rd_service = ''app'', rd_index = 0,
     rd_host = ''n1'', rd_image = ''nginx'', rd_raft_index = 0, rd_spec_hash = ''''\<rparr>"

definition ex_apply :: "string \<Rightarrow> uint64 \<Rightarrow> string \<Rightarrow> DeploymentApplyMsg" where
  "ex_apply d r dn = \<lparr>da_deployment = d, da_revision = r, da_jaco_yaml = '''', da_compose_yaml = '''',
     da_services = [], da_routes = [ex_route dn d], da_tcp_routes = [], da_acme_email = ''''\<rparr>"

text \<open>Two deployments with a route and a replica each.\<close>

definition ex_state :: State where
  "ex_state = run_log [(1, mk_cmd ''op'' 1 (DeploymentApply (ex_apply ''web'' 1 ''a.io''))),
     (2, mk_cmd ''op'' 2 (DeploymentApply (ex_apply ''api'' 1 ''b.io''))),
     (3, mk_cmd ''sched'' 3 (Batch [Some (mk_cmd ''sched'' 3 (ReplicaDesiredUpsert (Some (ex_replica ''web-app-0'' ''web'')))),
        Some (mk_cmd ''sched'' 3 (ReplicaDesiredUpsert (Some (ex_replica ''api-app-0'' ''api''))))]))] State_New"

lemma ex_state_ok: "state_ok ex_state"
  unfolding ex_state_def by (intro state_ok_run_log state_ok_New)

theorem run_log_order_independent_witness:
  "Store_List (Subnets (run_log [ex_subnet ''1'', ex_subnet ''2''] State_New)) \<noteq>
     Store_List (Subnets (run_log [ex_subnet ''2'', ex_subnet ''1''] State_New))
   \<and> state_eq (run_log [(9, mk_cmd ''op'' 9 (NodeRemove ''1''))] (run_log [ex_subnet ''1'', ex_subnet ''2''] State_New))
       (run_log [(9, mk_cmd ''op'' 9 (NodeRemove ''1''))] (run_log [ex_subnet ''2'', ex_subnet ''1''] State_New))"
proof -
  have "state_eq (run_log [ex_subnet ''1'', ex_subnet ''2''] State_New) (run_log [ex_subnet ''2'', ex_subnet ''1''] State_New)"
    by (simp add: ex_subnet_def apply_command.simps [of _ "mk_cmd _ _ _"] audit_append_def h_SubnetAllocate_def
        state_eq_def store_eq_def subnet_key_def SubnetKey_def fun_upd_twist)
  moreover have "Store_List (Subnets (run_log [ex_subnet ''1'', ex_subnet ''2''] State_New)) \<noteq>
     Store_List (Subnets (run_log [ex_subnet ''2'', ex_subnet ''1''] State_New))"
    by code_simp
  ultimately show ?thesis
    using run_log_order_independent [OF state_ok_run_log [OF state_ok_New] state_ok_run_log [OF state_ok_New]]
    by blast
qed

theorem audit_log_append_only_witness:
  "map ae_raft_index (al_log (AuditEvents (run_log [(4, mk_cmd ''op'' 4 (NodeRemove ''a'')),
     (6, mk_cmd ''op'' 6 (TokenRevoke ''b''))] State_New))) = [4, 6]
   \<and> audit_ordered 6 (run_log [(4, mk_cmd ''op'' 4 (NodeRemove ''a'')),
     (6, mk_cmd ''op'' 6 (TokenRevoke ''b''))] State_New)"
proof
  show "audit_ordered 6 (run_log [(4, mk_cmd ''op'' 4 (NodeRemove ''a'')),
     (6, mk_cmd ''op'' 6 (TokenRevoke ''b''))] State_New)"
    using audit_log_append_only [of 0 "[(4, mk_cmd ''op'' 4 (NodeRemove ''a'')),
     (6, mk_cmd ''op'' 6 (TokenRevoke ''b''))]" State_New]
    by (simp add: log_from_def log_end_def audit_ordered_def State_New_def)
qed code_simp

lemma ex_state_content:
  "Store_Get (Routes ex_state) (RouteKey ''a.io'' ''/'') = Some (ex_route ''a.io'' ''web'')"
  "Store_Get (Routes ex_state) (RouteKey ''b.io'' ''/'') = Some (ex_route ''b.io'' ''api'')"
  "map_option rd_deployment (Store_Get (ReplicasDesired ex_state) ''web-app-0'') = Some ''web''"
  "map_option rd_deployment (Store_Get (ReplicasDesired ex_state) ''api-app-0'') = Some ''api''"
  "map_option dp_applied_revision (Store_Get (Deployments ex_state) ''web'') = Some 1"
  by code_simp+

theorem DeploymentDelete_cascade_witness:
  "let s' = apply_command 4 (mk_cmd ''op'' 4 (DeploymentDelete ''web'')) ex_state
   in Store_Get (Routes s') (RouteKey ''a.io'' ''/'') = None
      \<and> Store_Get (Routes s') (RouteKey ''b.io'' ''/'') = Some (ex_route ''b.io'' ''api'')
      \<and> Store_Get (ReplicasDesired s') ''web-app-0'' = None
      \<and> Store_Get (ReplicasDesired s') ''api-app-0'' \<noteq> None"
  using DeploymentDelete_cascade [OF ex_state_ok, of "mk_cmd ''op'' 4 (DeploymentDelete ''web'')" "''web''" _ 4]
    ex_state_content
  by (auto simp: Let_def drop_where_def ex_route_def)

theorem DeploymentApply_replaces_witness:
  "let s' = apply_command 4 (mk_cmd ''op'' 4 (DeploymentApply (ex_apply ''web'' 2 ''c.io''))) ex_state
   in {r \<in> ran (Store_Get (Routes s')). rt_deployment r = ''web''} = {ex_route ''c.io'' ''web''}
      \<and> Store_Get (Routes s') (RouteKey ''b.io'' ''/'') = Some (ex_route ''b.io'' ''api'')"
proof -
  let ?c = "mk_cmd ''op'' 4 (DeploymentApply (ex_apply ''web'' 2 ''c.io''))"
  have "{r \<in> ran (Store_Get (Routes (apply_command 4 ?c ex_state))). rt_deployment r = ''web''} = {ex_route ''c.io'' ''web''}
      \<and> (\<forall>k r. Store_Get (Routes ex_state) k = Some r \<and> rt_deployment r \<noteq> ''web''
          \<and> k \<noteq> RouteKey ''c.io'' ''/'' \<longrightarrow> Store_Get (Routes (apply_command 4 ?c ex_state)) k = Some r)"
    using DeploymentApply_replaces [OF ex_state_ok, of ?c "ex_apply ''web'' 2 ''c.io''" _ 4]
    by (simp add: ex_apply_def ex_route_def route_key_def)
  moreover have "RouteKey ''b.io'' ''/'' \<noteq> RouteKey ''c.io'' ''/''" by code_simp
  ultimately show ?thesis
    using ex_state_content(2) by (auto simp: Let_def ex_route_def)
qed

theorem DeploymentRollback_flips_markers_witness:
  "map_option dp_applied_revision (Store_Get (Deployments (apply_command 4
     (mk_cmd ''op'' 4 (DeploymentRollback ''web'' 7)) ex_state)) ''web'') = Some 7"
proof -
  obtain dep where "Store_Get (Deployments ex_state) ''web'' = Some dep"
    using ex_state_content(5) by auto
  then show ?thesis
    using conjunct1 [OF DeploymentRollback_flips_markers [OF ex_state_ok, of "''web''" dep
        "mk_cmd ''op'' 4 (DeploymentRollback ''web'' 7)" 7 _ 4
        "mk_cmd ''op'' 5 (DeploymentRollback ''web'' (dp_applied_revision dep))"]]
    by simp
qed

text \<open>Host \<open>n1\<close> holds the lease of \<open>a.io\<close> until time 100; \<open>n2\<close> tries at time 50.\<close>

definition ex_lease_state :: State where
  "ex_lease_state = run_log [(1, mk_cmd ''n1'' 10 (CertLock ''a.io'' ''n1'' (Some 100)))] State_New"

definition ex_steal :: Command where
  "ex_steal = mk_cmd ''n2'' 50 (CertLock ''a.io'' ''n2'' (Some 200))"

lemma ex_lease_ok: "state_ok ex_lease_state"
  unfolding ex_lease_state_def by (intro state_ok_run_log state_ok_New)

theorem cert_lease_exclusive_witness:
  "lease_held ''a.io'' ''n1'' 100 (run_log [(2, ex_steal)] ex_lease_state)"
proof (rule cert_lease_exclusive [OF ex_lease_ok])
  show "lease_held ''a.io'' ''n1'' 100 ex_lease_state" by code_simp
  show "leaves_sat (others_before ''a.io'' ''n1'' 100) [(2, ex_steal)]" by code_simp
qed simp

theorem CertLock_decision_witness:
  "apply_command 2 ex_steal ex_lease_state = ex_lease_state
   \<and> map_option ct_lessee (Store_Get (Certs (apply_command 2
       (mk_cmd ''n2'' 100 (CertLock ''a.io'' ''n2'' (Some 200))) ex_lease_state)) ''a.io'') = Some ''n2''"
proof -
  obtain ct where ct: "Store_Get (Certs ex_lease_state) ''a.io'' = Some ct" "lock_held_by_other ct ''n2'' 50"
      "\<not> lock_held_by_other ct ''n2'' 100"
  proof -
    have "case Store_Get (Certs ex_lease_state) ''a.io'' of None \<Rightarrow> False
      | Some ct \<Rightarrow> lock_held_by_other ct ''n2'' 50 \<and> \<not> lock_held_by_other ct ''n2'' 100" by code_simp
    then show thesis by (auto split: option.splits intro: that)
  qed
  then show ?thesis
    using CertLock_decision [OF ex_lease_ok, of ex_steal "''a.io''" "''n2''" "Some 200" 2]
      CertLock_decision [OF ex_lease_ok, of "mk_cmd ''n2'' 100 (CertLock ''a.io'' ''n2'' (Some 200))"
        "''a.io''" "''n2''" "Some 200" 2]
    by (auto simp: ex_steal_def)
qed

theorem token_revocation_final_witness:
  "token_revoked ''ci'' ''h'' (run_log [(3, mk_cmd ''op'' 3 (TokenIssue ''dev'' ''k'' False))]
     (run_log [(1, mk_cmd ''op'' 1 (TokenIssue ''ci'' ''h'' True)), (2, mk_cmd ''op'' 2 (TokenRevoke ''ci''))] State_New))"
proof (rule token_revocation_final)
  show "token_revoked ''ci'' ''h'' (run_log [(1, mk_cmd ''op'' 1 (TokenIssue ''ci'' ''h'' True)),
      (2, mk_cmd ''op'' 2 (TokenRevoke ''ci''))] State_New)" by code_simp
  show "leaves_sat (no_reissue ''ci'') [(3, mk_cmd ''op'' 3 (TokenIssue ''dev'' ''k'' False))]" by code_simp
qed (intro state_ok_run_log state_ok_New)

theorem join_token_single_use_witness:
  "join_consumed ''h'' (run_log ((2, mk_cmd ''n'' 2 (JoinTokenConsume ''h'')) #
     [(3, mk_cmd ''op'' 3 (JoinTokenIssue ''k'' None))])
     (run_log [(1, mk_cmd ''op'' 1 (JoinTokenIssue ''h'' (Some 9)))] State_New))"
proof (rule join_token_single_use)
  show "Store_Get (JoinTokens (run_log [(1, mk_cmd ''op'' 1 (JoinTokenIssue ''h'' (Some 9)))] State_New))
      (EncodeToString ''h'') \<noteq> None" by code_simp
  show "leaves_sat (no_join_reissue ''h'') [(3, mk_cmd ''op'' 3 (JoinTokenIssue ''k'' None))]" by code_simp
  show "state_ok (run_log [(1, mk_cmd ''op'' 1 (JoinTokenIssue ''h'' (Some 9)))] State_New)"
    by (intro state_ok_run_log state_ok_New)
qed simp_all

end
