(* ===== verification/SchedulerRollout.thy ===== *)
theory SchedulerRollout
  imports SchedulerProps FsmWitness
begin

text \<open>
  The reconcile pass as a whole, and how the pass drives rollout plans: the stores stay well
  formed whatever raft answers, a service that already runs its image still starts a plan, and
  the plan of a GLOBAL service never advances. The theorems about the pass are evaluated at the
  end on small clusters.
\<close>

section \<open>The whole pass\<close>

context raft_applier
begin

lemma reconcileService_ok:
  "state_ok s \<Longrightarrow> state_ok (snd (reconcileService quote submit rollouts now dep svc nodes project h s))"
  by (auto simp: reconcileService_def Let_def driveRollout_or_none driveRollout_ok split: sum.split)

lemma reconcile_services_ok:
  "state_ok s \<Longrightarrow> state_ok (snd (reconcile_services hash quote submit rollouts now dep nodes project svcs s))"
proof (induction svcs arbitrary: s)
  case (Cons svc svcs)
  have "state_ok (snd (case hash (dp_compose_yaml dep) (ss_name svc) of
            Inl err \<Rightarrow> ([markDeploymentPending now (dp_name dep)
               (''service '' @ quote (ss_name svc) @ '' spec hash failed: '' @ err)], s)
          | Inr specHash \<Rightarrow> reconcileService quote submit rollouts now dep svc nodes project specHash s))"
    using reconcileService_ok [OF Cons.prems] Cons.prems by (simp split: sum.split)
  with Cons.IH show ?case by (auto simp: Let_def case_prod_beta)
qed simp

lemma reconcile_deployments_ok:
  "state_ok s \<Longrightarrow> state_ok (snd (reconcile_deployments load hash quote submit rollouts now nodes aborted deps s))"
proof (induction deps arbitrary: s)
  case (Cons dep deps)
  show ?case
    using Cons.IH Cons.prems reconcile_services_ok [OF Cons.prems]
    by (auto simp: Let_def case_prod_beta split: sum.split)
qed simp

lemma Reconcile_ok:
  "state_ok s \<Longrightarrow> state_ok (Reconcile load hash quote submit rollouts isLeader now s)"
  using check_timeouts_ok [of s now "Store_List (RolloutPlans s)" "[]"]
  by (auto simp: Reconcile_def Let_def CheckTimeouts_def case_prod_beta intro!: submit_ok reconcile_deployments_ok)

end


section \<open>Rollout plans\<close>

text \<open>
  A service that already runs the image of its deployment is treated as rolling: with one
  replica at the new image and no plan, a pass starts a rollout plan for the applied revision,
  whose step timer then runs.
\<close>

theorem steady_service_starts_rollout:
  assumes "state_ok s" "lookupImage project (ss_name svc) = img" "img \<noteq> ''''"
    and "r \<in> set (replicas_of s (dp_name dep) (ss_name svc))" "rd_image r = img"
    and "desired_set dep svc (EligibleHosts svc nodes) (host_count (replicas_of s (dp_name dep) (ss_name svc))) = Inr ds"
    and "Store_Get (RolloutPlans s) (RolloutPlanKey (dp_name dep) (ss_name svc)) = None"
    and "reconcileService quote (leader_apply j) True now dep svc nodes project h s = (cmds, s')"
  shows "\<exists>plan. Store_Get (RolloutPlans s') (RolloutPlanKey (dp_name dep) (ss_name svc)) = Some plan
    \<and> rp_state plan = RO_IN_PROGRESS \<and> rp_target_revision plan = dp_applied_revision dep
    \<and> rp_current_step plan = 0 \<and> rp_last_step_at plan = Some now"
proof -
  have rolling: "isRollingImageChange (replicas_of s (dp_name dep) (ss_name svc)) img"
    using assms(4,5) by (auto simp: isRollingImageChange_def)
  have "s' = snd (driveRollout (leader_apply j) now dep svc
      (if ss_placement svc = PM_GLOBAL then of_nat (length (EligibleHosts svc nodes)) else ss_replicas svc) s)"
    using assms(2,3,6,8) rolling by (simp add: reconcileService_def Let_def driveRollout_or_none)
  then show ?thesis
    using assms(7) by (simp add: driveRollout_def Start_def applyPlan_leader Let_def rolloutplan_key_def)
qed

lemma sanitizeHost_no_number:
  assumes "\<exists>c \<in> set host. \<not> is_digit c"
  shows "sanitizeHost host \<noteq> FormatUint n"
proof
  assume eq: "sanitizeHost host = FormatUint n"
  from assms obtain c where c: "c \<in> set host" "\<not> is_digit c" by blast
  then have "(if host_char c then c else CHR ''-'') \<in> set (FormatUint n)"
    unfolding eq [symmetric] by (auto simp: sanitizeHost_def)
  then have "is_digit (if host_char c then c else CHR ''-'')" by (rule FormatUint_digits)
  with c(2) show False by (simp add: is_digit_def split: if_splits)
qed

text \<open>
  The rollout of a GLOBAL service never advances: its replicas are named after hosts while
  the plan waits for the replica named after the step, so as long as no hostname is a number and
  the observed replicas are those the pass desires, driving the plan returns its current step and
  changes nothing, however healthy the replicas are.
\<close>

theorem global_rollout_never_advances:
  assumes "ss_placement svc = PM_GLOBAL" "desired_set dep svc el counts = Inr ds"
    and "dom (Store_Get (ReplicasObserved s)) \<subseteq> dr_id ` set ds" "\<forall>h \<in> set el. \<exists>c \<in> set h. \<not> is_digit c"
    and "Store_Get (RolloutPlans s) (RolloutPlanKey (dp_name dep) (ss_name svc)) = Some plan"
    and "rp_state plan = RO_IN_PROGRESS" "sint (rp_current_step plan) < sint (rp_total_steps plan)"
  shows "driveRollout submit now dep svc n s = (sint (rp_current_step plan), s)"
proof -
  let ?id = "ReplicaID (dp_name dep) (ss_name svc) (scast (rp_current_step plan))"
  have "?id \<notin> dr_id ` set ds"
  proof
    assume "?id \<in> dr_id ` set ds"
    then obtain a where a: "a < length el" "?id = ReplicaIDForHost (dp_name dep) (ss_name svc) (el ! a)"
      using assms(1,2) by (auto simp: desired_set_def in_set_enumerate_eq)
    from a(1) assms(4) have "sanitizeHost (el ! a) \<noteq> FormatUint k" for k
      by (intro sanitizeHost_no_number) simp
    moreover from a(2) have "FormatUint (unat (scast (rp_current_step plan) :: uint64)) = sanitizeHost (el ! a)"
      by (simp add: ReplicaID_def ReplicaIDForHost_def)
    ultimately show False by (rule notE [OF _ sym])
  qed
  with assms(3) have "Store_Get (ReplicasObserved s) ?id = None" by blast
  with assms(5-7) show ?thesis by (simp add: driveRollout_def StepReady_def Let_def)
qed


section \<open>Examples\<close>

text \<open>
  In \<open>ex_state\<close> the deployment \<open>web\<close> has one replica, on \<open>n1\<close> with image \<open>nginx\<close>. It is
  reconciled as a service of two replicas on the nodes \<open>n1\<close> and \<open>n2\<close>.
\<close>

definition ex_dep :: Deployment where
  "ex_dep = \<lparr>dp_name = ''web'', dp_applied_revision = 1, dp_previous_revision = 0, dp_status = DS_ACTIVE,
     dp_status_details = Map.empty, dp_jaco_yaml = '''', dp_compose_yaml = '''',
     dp_services = [ex_spec PM_PACK 2 []], dp_updated_at = None, dp_acme_email = ''''\<rparr>"

definition ex_nodes :: "Node list" where
  "ex_nodes = [ex_node ''n1'' NS_READY, ex_node ''n2'' NS_READY]"

definition ex_project :: "string \<Rightarrow> composeProject" where
  "ex_project img = [(''app'', img)]"

lemma ex_desired:
  "\<exists>ds. desired_set ex_dep (ex_spec PM_PACK 2 []) (EligibleHosts (ex_spec PM_PACK 2 []) ex_nodes)
     (host_count (replicas_of ex_state ''web'' ''app'')) = Inr ds \<and> map dr_id ds = [''web-app-0'', ''web-app-1'']"
proof -
  have "(case desired_set ex_dep (ex_spec PM_PACK 2 []) (EligibleHosts (ex_spec PM_PACK 2 []) ex_nodes)
     (host_count (replicas_of ex_state ''web'' ''app'')) of Inl _ \<Rightarrow> None | Inr ds \<Rightarrow> Some (map dr_id ds))
     = Some [''web-app-0'', ''web-app-1'']" by code_simp
  then show ?thesis by (auto split: sum.splits)
qed

lemma ex_current:
  "\<forall>r \<in> set (replicas_of ex_state ''web'' ''app''). rd_image r = ''nginx''"
  "map rd_id (replicas_of ex_state ''web'' ''app'') = [''web-app-0'']"
  "Store_Get (RolloutPlans ex_state) (RolloutPlanKey ''web'' ''app'') = None"
  "'''' \<notin> nd_hostname ` set ex_nodes" "length ex_nodes < 2 ^ 31"
  "lookupImage (ex_project img) ''app'' = img"
  "dp_name ex_dep = ''web''" "ss_name (ex_spec m n hs) = ''app''"
  by (code_simp, code_simp, code_simp, code_simp,
      simp_all add: ex_project_def ex_dep_def ex_spec_def ex_nodes_def)



theorem at_most_one_image_change_witness:
  "\<exists>cmds s1. reconcileService id (leader_apply 7) True 10 ex_dep (ex_spec PM_PACK 2 []) ex_nodes
      (ex_project ''caddy'') ''h'' ex_state = (cmds, s1)
    \<and> length (filter (in_place_flip (replicas_of ex_state ''web'' ''app'') ''caddy'') (upserted cmds)) \<le> 1"
proof -
  obtain cmds s1 where r: "reconcileService id (leader_apply 7) True 10 ex_dep (ex_spec PM_PACK 2 []) ex_nodes
      (ex_project ''caddy'') ''h'' ex_state = (cmds, s1)"
    by (metis surj_pair)
  have "isRollingImageChange (replicas_of ex_state ''web'' ''app'') ''caddy''" by code_simp
  from r at_most_one_image_change [OF _ _ ex_current(5) r, of "''caddy''", unfolded ex_current(6-8), OF this refl]
  show ?thesis by (intro exI conjI)
qed

theorem steady_service_starts_rollout_witness:
  "\<exists>cmds s1. reconcileService id (leader_apply 7) True 10 ex_dep (ex_spec PM_PACK 2 []) ex_nodes
      (ex_project ''nginx'') ''h'' ex_state = (cmds, s1)
    \<and> map_option rp_state (Store_Get (RolloutPlans s1) (RolloutPlanKey ''web'' ''app'')) = Some RO_IN_PROGRESS"
proof -
  obtain cmds s1 where r: "reconcileService id (leader_apply 7) True 10 ex_dep (ex_spec PM_PACK 2 []) ex_nodes
      (ex_project ''nginx'') ''h'' ex_state = (cmds, s1)"
    by (metis surj_pair)
  obtain ds where ds: "desired_set ex_dep (ex_spec PM_PACK 2 []) (EligibleHosts (ex_spec PM_PACK 2 []) ex_nodes)
     (host_count (replicas_of ex_state ''web'' ''app'')) = Inr ds"
    using ex_desired by (elim exE conjE)
  obtain x where x: "x \<in> set (replicas_of ex_state ''web'' ''app'')" "rd_image x = ''nginx''"
    using ex_current(1,2) by (cases "replicas_of ex_state ''web'' ''app''") auto
  have "''nginx'' \<noteq> ''''" by simp
  from steady_service_starts_rollout [OF ex_state_ok _ _ _ x(2) _ _ r, of ds, unfolded ex_current(6-8),
      OF refl this x(1) ds ex_current(3)]
  have "map_option rp_state (Store_Get (RolloutPlans s1) (RolloutPlanKey ''web'' ''app'')) = Some RO_IN_PROGRESS"
    by auto
  with r show ?thesis by (intro exI conjI)
qed

text \<open>The GLOBAL service runs on \<open>n1\<close> and \<open>n2\<close>, both replicas running with fresh health.\<close>

definition ex_running :: "string \<Rightarrow> uint64 \<times> Command" where
  "ex_running i = (5, mk_cmd i 5 (ReplicaObservedUpdate (Some \<lparr>ro_id = i, ro_state = RS_RUNNING, ro_code = '''',
     ro_message = '''', ro_details = Map.empty, ro_container_id = '''', ro_host = '''', ro_started_at = None,
     ro_last_health_at = Some 10\<rparr>)))"

definition ex_global :: State where
  "ex_global = run_log [(3, planCommand (ex_plan ''app'') 0), ex_running ''web-app-n1'', ex_running ''web-app-n2''] State_New"

theorem global_rollout_never_advances_witness:
  "driveRollout (leader_apply 7) 10 ex_dep (ex_spec PM_GLOBAL 0 []) 2 ex_global = (0, ex_global)"
proof -
  have ds: "desired_set ex_dep (ex_spec PM_GLOBAL 0 []) [''n1'', ''n2''] (\<lambda>_. 0) =
      Inr [\<lparr>dr_id = ''web-app-n1'', dr_host = ''n1'', dr_index = 0\<rparr>, \<lparr>dr_id = ''web-app-n2'', dr_host = ''n2'', dr_index = 1\<rparr>]"
    by code_simp
  have "fst ` set (st_byKey (ReplicasObserved ex_global)) = {''web-app-n1'', ''web-app-n2''}" by code_simp
  then have obs: "dom (Store_Get (ReplicasObserved ex_global)) = {''web-app-n1'', ''web-app-n2''}"
    by (simp add: Store_Get_def [abs_def] dom_map_of_conv_image_fst)
  have plan: "Store_Get (RolloutPlans ex_global) (RolloutPlanKey ''web'' ''app'') = Some (ex_plan ''app'')"
    by code_simp
  show ?thesis
    using global_rollout_never_advances [OF _ ds, of ex_global "ex_plan ''app''" "leader_apply 7" 10 2] plan obs
    by (simp add: ex_current(7,8) ex_plan_def ex_spec_def is_digit_def)
qed

end
