(* ===== verification/Restart.thy ===== *)
theory Restart
  imports Applier
begin

text \<open>
  The restart policy of the leader, \<^verbatim>\<open>internal/scheduler/health/health.go\<close>: the reaction to one
  observed replica, and the run over a sequence of events of the \<open>ReplicasObserved\<close> broker. An
  operation returns the commands it submitted with the state it leaves, because the restart
  commands themselves are ledger entries without an effect on the state. \<open>now\<close> is the wall
  clock; the test hooks \<open>Ready\<close> and \<open>NotifyHandled\<close> and logging are left out.
\<close>

section \<open>Definitions\<close>

definition MaxConsecutiveFailures :: int32 where
  "MaxConsecutiveFailures = 3"

definition applyOne :: "applier \<Rightarrow> Command \<Rightarrow> State \<Rightarrow> Command list \<times> State" where
  "applyOne submit cmd s = ([cmd], snd (submit cmd s))"

definition exhausted_obs :: "ReplicaObserved \<Rightarrow> int32 \<Rightarrow> ReplicaObserved" where
  "exhausted_obs obs nextFailures = \<lparr>ro_id = ro_id obs, ro_state = RS_FAILED, ro_code = ''restart_exhausted'',
     ro_message = ''restart policy gave up after 3 consecutive failures'',
     ro_details = [''consecutive_failures'' \<mapsto> Itoa (sint nextFailures)],
     ro_container_id = ro_container_id obs, ro_host = ro_host obs, ro_started_at = None,
     ro_last_health_at = ro_last_health_at obs\<rparr>"

definition handleFailure :: "applier \<Rightarrow> time \<Rightarrow> ReplicaObserved \<Rightarrow> State \<Rightarrow> Command list \<times> State" where
  "handleFailure submit now obs s =
     (let nextFailures = (case Store_Get (RestartCounters s) (ro_id obs) of
            Some existing \<Rightarrow> rs_consecutive_failures existing + 1 | None \<Rightarrow> 1)
      in if sint nextFailures \<ge> sint MaxConsecutiveFailures
         then applyOne submit (mk_cmd ''restarter'' now
                (ReplicaObservedUpdate (Some (exhausted_obs obs nextFailures)))) s
         else applyOne submit (mk_cmd ''restarter'' now (Batch
                [Some (mk_cmd ''restarter'' now (RestartCounterUpdate (ro_id obs) ACTION_INCREMENT)),
                 Some (mk_cmd ''restarter'' now (ReplicaCommandIssue (ro_id obs) ''restart''))])) s)"

definition handleDegraded :: "applier \<Rightarrow> time \<Rightarrow> ReplicaObserved \<Rightarrow> State \<Rightarrow> Command list \<times> State" where
  "handleDegraded submit now obs s =
     applyOne submit (mk_cmd ''restarter'' now (Batch
       [Some (mk_cmd ''restarter'' now (ReplicaCommandIssue (ro_id obs) ''remove_from_routing'')),
        Some (mk_cmd ''restarter'' now (ReplicaCommandIssue (ro_id obs) ''restart''))])) s"

definition handleRunning :: "applier \<Rightarrow> time \<Rightarrow> ReplicaObserved \<Rightarrow> State \<Rightarrow> Command list \<times> State" where
  "handleRunning submit now obs s =
     (case Store_Get (RestartCounters s) (ro_id obs) of
        None \<Rightarrow> ([], s)
      | Some _ \<Rightarrow> applyOne submit (mk_cmd ''restarter'' now (RestartCounterUpdate (ro_id obs) ACTION_RESET)) s)"

definition Handle :: "applier \<Rightarrow> bool \<Rightarrow> time \<Rightarrow> ReplicaObserved Event \<Rightarrow> State \<Rightarrow> Command list \<times> State" where
  "Handle submit isLeader now ev s =
     (case ev_After ev of
        None \<Rightarrow> ([], s)
      | Some obs \<Rightarrow>
          if \<not> isLeader then ([], s)
          else if ro_state obs = RS_FAILED
          then (if ro_code obs = ''restart_exhausted'' then ([], s) else handleFailure submit now obs s)
          else if ro_state obs = RS_DEGRADED then handleDegraded submit now obs s
          else if ro_state obs = RS_RUNNING then handleRunning submit now obs s
          else ([], s))"

text \<open>The loop of \<open>Run\<close> over the events it receives, with the time each is handled at.\<close>

fun Restarter_Run :: "applier \<Rightarrow> bool \<Rightarrow> (time \<times> ReplicaObserved Event) list \<Rightarrow> State
    \<Rightarrow> Command list \<times> State" where
  "Restarter_Run submit isLeader [] s = ([], s)"
| "Restarter_Run submit isLeader ((now, ev) # evs) s =
     (let (cmds, s1) = Handle submit isLeader now ev s; (more, s2) = Restarter_Run submit isLeader evs s1
      in (cmds @ more, s2))"

section \<open>Three strikes\<close>

definition strikes :: "string \<Rightarrow> State \<Rightarrow> int" where
  "strikes k s = (case Store_Get (RestartCounters s) k of None \<Rightarrow> 0 | Some r \<Rightarrow> sint (rs_consecutive_failures r))"

definition fails :: "string \<Rightarrow> time \<times> ReplicaObserved Event \<Rightarrow> bool" where
  "fails k te = (case ev_After (snd te) of None \<Rightarrow> False
     | Some obs \<Rightarrow> ro_id obs = k \<and> ro_state obs = RS_FAILED \<and> ro_code obs \<noteq> ''restart_exhausted'')"

definition runs :: "string \<Rightarrow> time \<times> ReplicaObserved Event \<Rightarrow> bool" where
  "runs k te = (case ev_After (snd te) of None \<Rightarrow> False | Some obs \<Rightarrow> ro_id obs = k \<and> ro_state obs = RS_RUNNING)"

text \<open>The commands by which the policy restarts a failed replica, and gives it up.\<close>

definition counted_restart :: "string \<Rightarrow> Command \<Rightarrow> bool" where
  "counted_restart k c = (case cmd_payload c of
     Batch (Some x # _) \<Rightarrow> (case cmd_payload x of RestartCounterUpdate k' ACTION_INCREMENT \<Rightarrow> k' = k | _ \<Rightarrow> False)
   | _ \<Rightarrow> False)"

definition gives_up :: "string \<Rightarrow> Command \<Rightarrow> bool" where
  "gives_up k c = (case cmd_payload c of
     ReplicaObservedUpdate (Some r) \<Rightarrow> ro_id r = k \<and> ro_code r = ''restart_exhausted'' | _ \<Rightarrow> False)"


lemma sint_small:
  assumes "0 \<le> sint w" "sint w \<le> 2"
  shows "sint (w + 1 :: int32) = sint w + 1"
proof -
  from assms have "sint w = 0 \<or> sint w = 1 \<or> sint w = 2" by linarith
  moreover have "w = of_int k" if "sint w = k" for k unfolding that [symmetric] by simp
  ultimately have "w = of_int 0 \<or> w = of_int 1 \<or> w = of_int 2" by blast
  then show ?thesis by auto
qed

text \<open>One event on a leader whose log accepts every command.\<close>

lemma failure_leader:
  assumes "0 \<le> strikes (ro_id obs) s" "strikes (ro_id obs) s \<le> 2"
    and "handleFailure (leader_apply i) now obs s = (cmds, s')"
  shows "strikes k s' = (if k = ro_id obs \<and> strikes k s < 2 then strikes k s + 1 else strikes k s)"
    and "length (filter (counted_restart k) cmds) = (if k = ro_id obs \<and> strikes k s < 2 then 1 else 0)"
    and "length (filter (gives_up k) cmds) = (if k = ro_id obs \<and> \<not> strikes k s < 2 then 1 else 0)"
proof -
  let ?n = "case Store_Get (RestartCounters s) (ro_id obs) of
            Some existing \<Rightarrow> rs_consecutive_failures existing + 1 | None \<Rightarrow> 1"
  have n: "sint ?n = strikes (ro_id obs) s + 1"
    using assms(1,2) by (auto simp: strikes_def sint_small split: option.splits)
  note defs = handleFailure_def Let_def applyOne_def leader_apply_eq MaxConsecutiveFailures_def n
  have cases: "if strikes (ro_id obs) s < 2
    then cmds = [mk_cmd ''restarter'' now (Batch
           [Some (mk_cmd ''restarter'' now (RestartCounterUpdate (ro_id obs) ACTION_INCREMENT)),
            Some (mk_cmd ''restarter'' now (ReplicaCommandIssue (ro_id obs) ''restart''))])]
      \<and> RestartCounters s' = put rs_replica_id \<lparr>rs_replica_id = ro_id obs, rs_consecutive_failures = ?n,
           rs_last_attempt_at = Some now\<rparr> i (RestartCounters s)
    else cmds = [mk_cmd ''restarter'' now (ReplicaObservedUpdate (Some (exhausted_obs obs ?n)))]
      \<and> RestartCounters s' = RestartCounters s"
    using assms(3) by (auto simp: defs apply_command.simps [of i "mk_cmd _ _ _"] h_Batch_def h_RestartCounterUpdate_def
        h_ReplicaCommandIssue_def h_ReplicaObservedUpdate_def audit_append_sel Let_def split: if_splits)
  show "strikes k s' = (if k = ro_id obs \<and> strikes k s < 2 then strikes k s + 1 else strikes k s)"
    using cases n by (auto simp: strikes_def split: if_splits)
  show "length (filter (counted_restart k) cmds) = (if k = ro_id obs \<and> strikes k s < 2 then 1 else 0)"
    using cases by (auto simp: counted_restart_def split: if_splits)
  show "length (filter (gives_up k) cmds) = (if k = ro_id obs \<and> \<not> strikes k s < 2 then 1 else 0)"
    using cases by (auto simp: gives_up_def exhausted_obs_def split: if_splits)
qed


lemma Handle_other:
  assumes "\<not> fails j (now, ev)" "ro_id (the (ev_After ev)) = j"
    and "Handle (leader_apply i) True now ev s = (cmds, s')"
  shows "strikes k s' = (if runs k (now, ev) then 0 else strikes k s)"
    and "filter (counted_restart k) cmds = []" "filter (gives_up k) cmds = []"
proof -
  have r: "RestartCounters (apply_command i (mk_cmd u now (Batch [Some (mk_cmd v now (ReplicaCommandIssue a b)),
      Some (mk_cmd v now (ReplicaCommandIssue c d))])) s) = RestartCounters s" for u v a b c d
    by (simp add: apply_command.simps [of i "mk_cmd _ _ _"] h_Batch_def h_ReplicaCommandIssue_def audit_append_sel)
  have d: "RestartCounters (apply_command i (mk_cmd u now (RestartCounterUpdate k ACTION_RESET)) s) =
      del k i (RestartCounters s)" for u k
    by (simp add: apply_command.simps [of i "mk_cmd _ _ _"] h_RestartCounterUpdate_def audit_append_sel)
  note defs = Handle_def handleDegraded_def handleRunning_def applyOne_def leader_apply_eq runs_def fails_def
  show "strikes k s' = (if runs k (now, ev) then 0 else strikes k s)"
    using assms by (auto simp: defs strikes_def r d split: option.splits if_splits)
  show "filter (counted_restart k) cmds = []" "filter (gives_up k) cmds = []"
    using assms by (auto simp: defs counted_restart_def gives_up_def split: option.splits if_splits)
qed

lemma Handle_leader:
  assumes "\<forall>j. 0 \<le> strikes j s \<and> strikes j s \<le> 2" "Handle (leader_apply i) True now ev s = (cmds, s')"
  shows "strikes k s' = (if runs k (now, ev) then 0
      else if fails k (now, ev) \<and> strikes k s < 2 then strikes k s + 1 else strikes k s)"
    and "length (filter (counted_restart k) cmds) = (if fails k (now, ev) \<and> strikes k s < 2 then 1 else 0)"
    and "length (filter (gives_up k) cmds) = (if fails k (now, ev) \<and> \<not> strikes k s < 2 then 1 else 0)"
proof -
  define j where "j = ro_id (the (ev_After ev))"
  have only: "fails k (now, ev) \<Longrightarrow> k = j" "fails k (now, ev) \<Longrightarrow> \<not> runs k' (now, ev)" for k k'
    by (auto simp: j_def fails_def runs_def split: option.splits)
  show "strikes k s' = (if runs k (now, ev) then 0
      else if fails k (now, ev) \<and> strikes k s < 2 then strikes k s + 1 else strikes k s)"
    and "length (filter (counted_restart k) cmds) = (if fails k (now, ev) \<and> strikes k s < 2 then 1 else 0)"
    and "length (filter (gives_up k) cmds) = (if fails k (now, ev) \<and> \<not> strikes k s < 2 then 1 else 0)"
  proof (atomize (full), cases "fails j (now, ev)")
    case True
    then obtain obs where obs: "ev_After ev = Some obs" "ro_id obs = j" "ro_state obs = RS_FAILED"
        "ro_code obs \<noteq> ''restart_exhausted''"
      by (auto simp: fails_def split: option.splits)
    with assms(2) have "handleFailure (leader_apply i) now obs s = (cmds, s')" by (simp add: Handle_def)
    note f = failure_leader [OF _ _ this, of k]
    have "fails k (now, ev) \<longleftrightarrow> k = j" using True only(1) by blast
    with f assms(1) obs(2) only(2) [OF True] show "strikes k s' = (if runs k (now, ev) then 0
      else if fails k (now, ev) \<and> strikes k s < 2 then strikes k s + 1 else strikes k s)
      \<and> length (filter (counted_restart k) cmds) = (if fails k (now, ev) \<and> strikes k s < 2 then 1 else 0)
      \<and> length (filter (gives_up k) cmds) = (if fails k (now, ev) \<and> \<not> strikes k s < 2 then 1 else 0)"
      by simp
  next
    case False
    have "\<not> fails k (now, ev)" using False only(1) by blast
    with Handle_other [OF False _ assms(2), of k] show "strikes k s' = (if runs k (now, ev) then 0
      else if fails k (now, ev) \<and> strikes k s < 2 then strikes k s + 1 else strikes k s)
      \<and> length (filter (counted_restart k) cmds) = (if fails k (now, ev) \<and> strikes k s < 2 then 1 else 0)
      \<and> length (filter (gives_up k) cmds) = (if fails k (now, ev) \<and> \<not> strikes k s < 2 then 1 else 0)"
      by (simp add: j_def)
  qed
qed


text \<open>Four failures of one replica, from a state without counters.\<close>

definition ex_failure :: "time \<times> ReplicaObserved Event" where
  "ex_failure = (5, \<lparr>ev_Kind = KindUpdated, ev_Before = None, ev_After = Some \<lparr>ro_id = ''web-app-0'', ro_state = RS_FAILED,
     ro_code = ''docker_error'', ro_message = '''', ro_details = Map.empty, ro_container_id = '''', ro_host = ''n1'',
     ro_started_at = None, ro_last_health_at = None\<rparr>, ev_RaftIndex = 4\<rparr>)"


end
