(* ===== verification/Drain.thy ===== *)
theory Drain
  imports State Placement
begin

text \<open>
  The drain plan of a host, \<^verbatim>\<open>internal/scheduler/drain/drain.go\<close>: which replicas must move off it
  and where. The services are visited in the order of a Go map iteration, which is unspecified;
  it is the argument \<open>order\<close>, the list of the keys of the map. Replica indices are those the
  scheduler writes and not negative.
\<close>

section \<open>Definitions\<close>

record Migration =
  mg_ReplicaID :: string
  mg_Deployment :: string
  mg_Service :: string
  mg_FromHost :: string
  mg_ToHost :: string
  mg_Image :: string

datatype drain_error = HostnameRequired | NoEligibleHost string string string PlacementError

type_synonym svcKey = "string \<times> string"

definition bySvc :: "State \<Rightarrow> svcKey \<Rightarrow> ReplicaDesired list" where
  "bySvc st k = filter (\<lambda>r. (rd_deployment r, rd_service r) = k) (Store_List (ReplicasDesired st))"

definition svcKeys :: "State \<Rightarrow> svcKey set" where
  "svcKeys st = (\<lambda>r. (rd_deployment r, rd_service r)) ` set (Store_List (ReplicasDesired st))"

definition specOf :: "State \<Rightarrow> string \<Rightarrow> string \<Rightarrow> ServiceSpec option" where
  "specOf st dep svc =
     (case map_of (rev (map (\<lambda>d. (dp_name d, d)) (Store_List (Deployments st)))) dep of
        None \<Rightarrow> None
      | Some d \<Rightarrow> find (\<lambda>s. ss_name s = svc) (dp_services d))"

definition remaining :: "State \<Rightarrow> string \<Rightarrow> Node list" where
  "remaining st hostname = filter (\<lambda>n. nd_hostname n \<noteq> hostname) (Store_List (Nodes st))"

definition drain_counts :: "string \<Rightarrow> ReplicaDesired list \<Rightarrow> string \<Rightarrow> int" where
  "drain_counts hostname replicas h =
     (if h = hostname then 0 else int (length (filter (\<lambda>r. rd_host r = h) replicas)))"

fun migrate_service :: "string \<Rightarrow> svcKey \<Rightarrow> ServiceSpec \<Rightarrow> string list \<Rightarrow> (string \<Rightarrow> int) \<Rightarrow> ReplicaDesired list
    \<Rightarrow> drain_error + Migration list" where
  "migrate_service hostname k spec eligible counts [] = Inr []"
| "migrate_service hostname k spec eligible counts (r # rs) =
     (if rd_host r \<noteq> hostname then migrate_service hostname k spec eligible counts rs
      else case PlaceReplica (fst k) spec eligible (nat (sint (rd_index r))) counts of
             Inl err \<Rightarrow> Inl (NoEligibleHost hostname (fst k) (snd k) err)
           | Inr newHost \<Rightarrow>
               (case migrate_service hostname k spec eligible (counts(newHost := counts newHost + 1)) rs of
                  Inl err \<Rightarrow> Inl err
                | Inr ms \<Rightarrow> Inr (\<lparr>mg_ReplicaID = rd_id r, mg_Deployment = fst k, mg_Service = snd k,
                    mg_FromHost = hostname, mg_ToHost = newHost, mg_Image = rd_image r\<rparr> # ms)))"

fun migrate_all :: "State \<Rightarrow> string \<Rightarrow> svcKey list \<Rightarrow> drain_error + Migration list" where
  "migrate_all st hostname [] = Inr []"
| "migrate_all st hostname (k # ks) =
     (case specOf st (fst k) (snd k) of
        None \<Rightarrow> migrate_all st hostname ks
      | Some spec \<Rightarrow>
          if ss_placement spec = PM_GLOBAL then migrate_all st hostname ks
          else case migrate_service hostname k spec (EligibleHosts spec (remaining st hostname))
                      (drain_counts hostname (bySvc st k)) (bySvc st k) of
                 Inl err \<Rightarrow> Inl err
               | Inr ms \<Rightarrow> (case migrate_all st hostname ks of Inl err \<Rightarrow> Inl err | Inr ms' \<Rightarrow> Inr (ms @ ms')))"

definition Plan :: "svcKey list \<Rightarrow> State \<Rightarrow> string \<Rightarrow> drain_error + Migration list" where
  "Plan order st hostname = (if hostname = '''' then Inl HostnameRequired else migrate_all st hostname order)"

section \<open>What a plan moves\<close>

text \<open>A replica that must leave the host, with the service it belongs to.\<close>

definition evicted :: "State \<Rightarrow> string \<Rightarrow> ReplicaDesired \<Rightarrow> ServiceSpec \<Rightarrow> bool" where
  "evicted st hostname r spec \<longleftrightarrow> r \<in> set (Store_List (ReplicasDesired st)) \<and> rd_host r = hostname
     \<and> specOf st (rd_deployment r) (rd_service r) = Some spec \<and> ss_placement spec \<noteq> PM_GLOBAL"

definition unplaceable :: "ServiceSpec \<Rightarrow> string list \<Rightarrow> bool" where
  "unplaceable spec eligible \<longleftrightarrow> eligible = []
     \<or> ss_placement spec = PM_HOSTS \<and> sint (ss_replicas spec) > int (length eligible)"

lemma PlaceReplica_Inl_iff: "isl (PlaceReplica d spec el i counts) \<longleftrightarrow> unplaceable spec el"
  by (auto simp: PlaceReplica_def unplaceable_def Let_def split: PlacementMode.split)

lemma remaining_host: "h \<in> set (EligibleHosts spec (remaining st hostname)) \<Longrightarrow> h \<noteq> hostname"
  by (auto simp: set_EligibleHosts remaining_def)

definition migration_of :: "string \<Rightarrow> svcKey \<Rightarrow> ReplicaDesired \<Rightarrow> string \<Rightarrow> Migration" where
  "migration_of hostname k r newHost = \<lparr>mg_ReplicaID = rd_id r, mg_Deployment = fst k, mg_Service = snd k,
     mg_FromHost = hostname, mg_ToHost = newHost, mg_Image = rd_image r\<rparr>"

lemma isl_case_sum [simp]:
  "isl (case x of Inl e \<Rightarrow> Inl (f e) | Inr v \<Rightarrow> Inr (g v)) \<longleftrightarrow> isl x"
  by (cases x) simp_all

lemma migration_of_sel [simp]:
  "mg_ReplicaID (migration_of hostname k r h) = rd_id r" "mg_ToHost (migration_of hostname k r h) = h"
  "mg_FromHost (migration_of hostname k r h) = hostname"
  by (simp_all add: migration_of_def)

lemma migrate_service_Inl:
  "isl (migrate_service hostname k spec el counts rs) \<longleftrightarrow> unplaceable spec el \<and> (\<exists>r \<in> set rs. rd_host r = hostname)"
proof (induction rs arbitrary: counts)
  case (Cons r rs)
  then show ?case
    using PlaceReplica_Inl_iff [of "fst k" spec el "nat (sint (rd_index r))" counts]
    by (cases "PlaceReplica (fst k) spec el (nat (sint (rd_index r))) counts") auto
qed simp

lemma migrate_service_Inr:
  assumes "migrate_service hostname k spec el counts rs = Inr ms"
  shows "map mg_ReplicaID ms = map rd_id (filter (\<lambda>r. rd_host r = hostname) rs)
    \<and> (\<forall>m \<in> set ms. \<exists>r h. r \<in> set rs \<and> rd_host r = hostname \<and> h \<in> set el \<and> m = migration_of hostname k r h)"
  using assms
proof (induction rs arbitrary: counts ms)
  case (Cons r rs)
  show ?case
  proof (cases "rd_host r = hostname")
    case True
    with Cons.prems obtain h ms' where h: "PlaceReplica (fst k) spec el (nat (sint (rd_index r))) counts = Inr h"
      and ms': "migrate_service hostname k spec el (counts(h := counts h + 1)) rs = Inr ms'"
      and ms: "ms = migration_of hostname k r h # ms'"
      by (auto simp: migration_of_def split: sum.splits)
    from Cons.IH [OF ms'] have "\<exists>r' h. r' \<in> set (r # rs) \<and> rd_host r' = hostname \<and> h \<in> set el \<and> m = migration_of hostname k r' h"
      if "m \<in> set ms'" for m using that by (meson list.set_intros(2))
    with Cons.IH [OF ms'] PlaceReplica_Inr_mem [OF h] True show ?thesis by (auto simp: ms)
  next
    case False
    with Cons.prems have "migrate_service hostname k spec el counts rs = Inr ms" by simp
    from Cons.IH [OF this] False show ?thesis by (auto 0 5)
  qed
qed simp


lemma bySvc_iff: "r \<in> set (bySvc st k) \<longleftrightarrow> r \<in> set (Store_List (ReplicasDesired st)) \<and> k = (rd_deployment r, rd_service r)"
  by (auto simp: bySvc_def)

definition evicted_of :: "State \<Rightarrow> string \<Rightarrow> svcKey list \<Rightarrow> ReplicaDesired \<Rightarrow> ServiceSpec \<Rightarrow> bool" where
  "evicted_of st hostname ks r spec \<longleftrightarrow> evicted st hostname r spec \<and> (rd_deployment r, rd_service r) \<in> set ks"

lemma evicted_of_Nil [simp]: "evicted_of st hostname [] r spec = False"
  by (simp add: evicted_of_def)

text \<open>The first service of the order either is left alone or contributes its evicted replicas.\<close>

lemma migrate_all_Cons:
  obtains (skip) "migrate_all st hostname (k # ks) = migrate_all st hostname ks"
      "evicted_of st hostname (k # ks) = evicted_of st hostname ks"
  | (move) spec where "evicted_of st hostname (k # ks) = (\<lambda>r sp. sp = spec \<and> r \<in> set (bySvc st k) \<and> rd_host r = hostname
        \<or> evicted_of st hostname ks r sp)"
      "migrate_all st hostname (k # ks) = (case migrate_service hostname k spec (EligibleHosts spec (remaining st hostname))
          (drain_counts hostname (bySvc st k)) (bySvc st k) of
         Inl err \<Rightarrow> Inl err
       | Inr ms \<Rightarrow> (case migrate_all st hostname ks of Inl err \<Rightarrow> Inl err | Inr ms' \<Rightarrow> Inr (ms @ ms')))"
proof (cases "\<exists>spec. specOf st (fst k) (snd k) = Some spec \<and> ss_placement spec \<noteq> PM_GLOBAL")
  case False
  show ?thesis
  proof (rule skip)
    show "migrate_all st hostname (k # ks) = migrate_all st hostname ks" using False by (auto split: option.split)
    show "evicted_of st hostname (k # ks) = evicted_of st hostname ks"
      using False by (auto simp: fun_eq_iff evicted_of_def evicted_def)
  qed
next
  case True
  then obtain spec where spec: "specOf st (fst k) (snd k) = Some spec" "ss_placement spec \<noteq> PM_GLOBAL" by blast
  show ?thesis
  proof (rule move [of spec])
    show "evicted_of st hostname (k # ks) = (\<lambda>r sp. sp = spec \<and> r \<in> set (bySvc st k) \<and> rd_host r = hostname
        \<or> evicted_of st hostname ks r sp)"
      using spec by (auto simp: fun_eq_iff evicted_of_def evicted_def bySvc_iff)
  qed (simp add: spec)
qed

declare migrate_all.simps(2) [simp del]

lemma migrate_all_Inl:
  "isl (migrate_all st hostname ks) \<longleftrightarrow>
     (\<exists>r spec. evicted_of st hostname ks r spec \<and> unplaceable spec (EligibleHosts spec (remaining st hostname)))"
proof (induction ks)
  case (Cons k ks)
  show ?case
  proof (cases rule: migrate_all_Cons [of st hostname k ks])
    case skip
    then show ?thesis using Cons.IH by simp
  next
    case (move spec)
    let ?ms = "migrate_service hostname k spec (EligibleHosts spec (remaining st hostname))
          (drain_counts hostname (bySvc st k)) (bySvc st k)"
    have "isl (migrate_all st hostname (k # ks)) \<longleftrightarrow> isl ?ms \<or> isl (migrate_all st hostname ks)"
      by (cases ?ms) (simp_all add: move(2))
    then show ?thesis unfolding migrate_service_Inl Cons.IH move(1) by auto
  qed
qed simp

lemma migrate_all_Inr:
  assumes "migrate_all st hostname ks = Inr ms" "distinct ks" "distinct (map rd_id (Store_List (ReplicasDesired st)))"
  shows "distinct (map mg_ReplicaID ms)
    \<and> mg_ReplicaID ` set ms = {rd_id r | r spec. evicted_of st hostname ks r spec}
    \<and> (\<forall>m \<in> set ms. \<exists>r spec h. evicted_of st hostname ks r spec
         \<and> h \<in> set (EligibleHosts spec (remaining st hostname)) \<and> m = migration_of hostname (rd_deployment r, rd_service r) r h)"
  using assms(1,2)
proof (induction ks arbitrary: ms)
  case (Cons k ks)
  show ?case
  proof (cases rule: migrate_all_Cons [of st hostname k ks])
    case skip
    have "migrate_all st hostname ks = Inr ms" "distinct ks" using Cons.prems skip(1) by simp_all
    from Cons.IH [OF this] show ?thesis unfolding skip(2) .
  next
    case (move spec)
    let ?el = "EligibleHosts spec (remaining st hostname)"
    from Cons.prems move(2) obtain m1 m2 where
        m1: "migrate_service hostname k spec ?el (drain_counts hostname (bySvc st k)) (bySvc st k) = Inr m1"
      and m2: "migrate_all st hostname ks = Inr m2" and ms: "ms = m1 @ m2"
      by (auto split: sum.splits)
    note s1 = migrate_service_Inr [OF m1] and IH = Cons.IH [OF m2 distinct_tl [OF Cons.prems(2), simplified]]
    have i1: "mg_ReplicaID ` set m1 = {rd_id r | r. r \<in> set (bySvc st k) \<and> rd_host r = hostname}"
      using arg_cong [OF conjunct1 [OF s1], of set] by auto
    have "r = r'" if "r \<in> set (bySvc st k)" "evicted_of st hostname ks r' sp" "rd_id r = rd_id r'" for r r' sp
      using that assms(3) by (auto simp: bySvc_iff evicted_of_def evicted_def distinct_map inj_on_def)
    then have disj: "mg_ReplicaID ` set m1 \<inter> mg_ReplicaID ` set m2 = {}"
      using Cons.prems(2) IH unfolding i1 by (fastforce simp: bySvc_iff evicted_of_def)
    have "distinct (map mg_ReplicaID m1)"
      using assms(3) conjunct1 [OF s1] by (simp add: bySvc_def distinct_map_filter)
    then have "distinct (map mg_ReplicaID ms)" using IH disj by (simp add: ms)
    moreover have "mg_ReplicaID ` set ms = {rd_id r | r spec. evicted_of st hostname (k # ks) r spec}"
      unfolding ms set_append image_Un i1 move(1) using IH by auto
    moreover have "\<exists>r spec h. evicted_of st hostname (k # ks) r spec
         \<and> h \<in> set (EligibleHosts spec (remaining st hostname)) \<and> m = migration_of hostname (rd_deployment r, rd_service r) r h"
      if "m \<in> set ms" for m
      using that IH s1 unfolding ms set_append move(1) by (metis (no_types, lifting) UnE bySvc_iff)
    ultimately show ?thesis by blast
  qed
qed simp


text \<open>
  C26. A drain plan is complete and sound in every order the services are visited: it fails exactly
  when some replica on the host belongs to a service that the remaining nodes cannot hold, and
  otherwise moves every replica on the host whose service is declared and not GLOBAL, each once,
  to a ready node other than the host that its placement admits.
\<close>

theorem drain_plan_exact:
  assumes "store_ok rd_id (ReplicasDesired st)" "distinct order" "set order = svcKeys st" "hostname \<noteq> ''''"
  shows "case Plan order st hostname of
      Inl _ \<Rightarrow> \<exists>r spec. evicted st hostname r spec \<and> unplaceable spec (EligibleHosts spec (remaining st hostname))
    | Inr ms \<Rightarrow> (\<forall>r spec. evicted st hostname r spec \<longrightarrow> \<not> unplaceable spec (EligibleHosts spec (remaining st hostname)))
        \<and> distinct (map mg_ReplicaID ms) \<and> mg_ReplicaID ` set ms = {rd_id r | r spec. evicted st hostname r spec}
        \<and> (\<forall>m \<in> set ms. \<exists>r spec. evicted st hostname r spec \<and> mg_ToHost m \<noteq> hostname
             \<and> mg_ToHost m \<in> set (EligibleHosts spec (remaining st hostname))
             \<and> m = \<lparr>mg_ReplicaID = rd_id r, mg_Deployment = rd_deployment r, mg_Service = rd_service r,
                     mg_FromHost = hostname, mg_ToHost = mg_ToHost m, mg_Image = rd_image r\<rparr>)"
proof -
  have ev: "evicted_of st hostname order = evicted st hostname"
    using assms(3) by (auto simp: fun_eq_iff evicted_of_def evicted_def svcKeys_def)
  have d: "distinct (map rd_id (Store_List (ReplicasDesired st)))" using assms(1) by (rule kst.distinct_entries)
  show ?thesis
  proof (cases "migrate_all st hostname order")
    case (Inl e)
    then show ?thesis using migrate_all_Inl [of st hostname order] assms(4) by (simp add: Plan_def ev)
  next
    case (Inr ms)
    have "\<forall>r spec. evicted st hostname r spec \<longrightarrow> \<not> unplaceable spec (EligibleHosts spec (remaining st hostname))"
      using migrate_all_Inl [of st hostname order] Inr by (auto simp: ev)
    moreover note m = migrate_all_Inr [OF Inr assms(2) d, unfolded ev]
    moreover have "\<exists>r spec. evicted st hostname r spec \<and> mg_ToHost m \<noteq> hostname
             \<and> mg_ToHost m \<in> set (EligibleHosts spec (remaining st hostname))
             \<and> m = \<lparr>mg_ReplicaID = rd_id r, mg_Deployment = rd_deployment r, mg_Service = rd_service r,
                     mg_FromHost = hostname, mg_ToHost = mg_ToHost m, mg_Image = rd_image r\<rparr>" if m_in: "m \<in> set ms" for m
    proof -
      from m m_in obtain r spec h where "evicted st hostname r spec" "h \<in> set (EligibleHosts spec (remaining st hostname))"
          "m = migration_of hostname (rd_deployment r, rd_service r) r h" by blast
      then show ?thesis by (intro exI [of _ r] exI [of _ spec]) (auto simp: migration_of_def dest: remaining_host)
    qed
    ultimately show ?thesis using assms(4) by (simp add: Plan_def Inr)
  qed
qed

text \<open>Two nodes, one replica on each of a PACK service; draining \<open>n1\<close> moves the one there to \<open>n2\<close>.\<close>

definition ex_drain :: State where
  "ex_drain = State_New\<lparr>Nodes := put nd_hostname (ex_node ''n2'' NS_READY) 1
       (put nd_hostname (ex_node ''n1'' NS_READY) 1 (Nodes State_New)),
     Deployments := put dp_name \<lparr>dp_name = ''web'', dp_applied_revision = 1, dp_previous_revision = 0,
       dp_status = DS_ACTIVE, dp_status_details = Map.empty, dp_jaco_yaml = '''', dp_compose_yaml = '''',
       dp_services = [ex_spec PM_PACK 2 []], dp_updated_at = None, dp_acme_email = ''''\<rparr> 2 (Deployments State_New),
     ReplicasDesired := put rd_id \<lparr>rd_id = ''web-app-1'', rd_deployment = ''web'', rd_service = ''app'', rd_index = 1,
         rd_host = ''n2'', rd_image = ''nginx'', rd_raft_index = 3, rd_spec_hash = ''''\<rparr> 3
       (put rd_id \<lparr>rd_id = ''web-app-0'', rd_deployment = ''web'', rd_service = ''app'', rd_index = 0,
         rd_host = ''n1'', rd_image = ''nginx'', rd_raft_index = 3, rd_spec_hash = ''''\<rparr> 3 (ReplicasDesired State_New))\<rparr>"

theorem drain_plan_exact_witness:
  "\<exists>ms. Plan [(''web'', ''app'')] ex_drain ''n1'' = Inr ms
     \<and> map (\<lambda>m. (mg_ReplicaID m, mg_ToHost m)) ms = [(''web-app-0'', ''n2'')] \<and> distinct (map mg_ReplicaID ms)"
proof -
  have ok: "store_ok rd_id (ReplicasDesired ex_drain)"
    by (simp add: ex_drain_def State_New_def)
  have keys: "set [(''web'', ''app'')] = svcKeys ex_drain" by code_simp
  have "(case Plan [(''web'', ''app'')] ex_drain ''n1'' of Inl _ \<Rightarrow> None
      | Inr ms \<Rightarrow> Some (map (\<lambda>m. (mg_ReplicaID m, mg_ToHost m)) ms)) = Some [(''web-app-0'', ''n2'')]"
    by code_simp
  then obtain ms where ms: "Plan [(''web'', ''app'')] ex_drain ''n1'' = Inr ms"
      "map (\<lambda>m. (mg_ReplicaID m, mg_ToHost m)) ms = [(''web-app-0'', ''n2'')]"
    by (auto split: sum.splits)
  have "distinct (map mg_ReplicaID ms)"
    using drain_plan_exact [OF ok _ keys, of "''n1''"] by (simp add: ms(1))
  with ms show ?thesis by (intro exI conjI)
qed

end
