(* ===== verification/NetIP.thy ===== *)
theory NetIP
  imports Prelude
begin

text \<open>
  The part of the Go packages \<open>net\<close> and \<open>net/netip\<close> the allocator of subnets uses: parsing and
  printing of dotted IPv4 addresses and of CIDR prefixes. An address is its list of octets,
  sixteen as \<open>net.ParseIP\<close> returns it or four after \<open>To4\<close>. The IPv6 notation is only recognised,
  by its first colon; its parser is the argument \<open>p6\<close>, which gives the sixteen octets of a
  zone-free address.
\<close>

type_synonym octet = "8 word"

section \<open>Splitting\<close>

fun splitOn :: "char \<Rightarrow> string \<Rightarrow> string list" where
  "splitOn c [] = [[]]"
| "splitOn c (x # xs) =
     (if x = c then [] # splitOn c xs
      else case splitOn c xs of [] \<Rightarrow> [[x]] | f # fs \<Rightarrow> (x # f) # fs)"

lemma splitOn_no: "c \<notin> set xs \<Longrightarrow> splitOn c xs = [xs]"
  by (induction xs) auto

lemma splitOn_append: "c \<notin> set xs \<Longrightarrow> splitOn c (xs @ c # ys) = xs # splitOn c ys"
  by (induction xs) auto

section \<open>Addresses\<close>

text \<open>A decimal field: digits only, no leading zero, at most 255.\<close>

definition parse_octet :: "string \<Rightarrow> octet option" where
  "parse_octet s =
     (if s = [] \<or> \<not> list_all is_digit s \<or> (length s > 1 \<and> hd s = CHR ''0'') \<or> digits_val s > 255
      then None else Some (of_nat (digits_val s)))"

definition parseIPv4 :: "string \<Rightarrow> octet list option" where
  "parseIPv4 s =
     (case splitOn CHR ''.'' s of
        [a, b, c, d] \<Rightarrow>
          (case (parse_octet a, parse_octet b, parse_octet c, parse_octet d) of
             (Some a, Some b, Some c, Some d) \<Rightarrow> Some [a, b, c, d]
           | _ \<Rightarrow> None)
      | _ \<Rightarrow> None)"

definition v4InV6Prefix :: "octet list" where
  "v4InV6Prefix = [0, 0, 0, 0, 0, 0, 0, 0, 0, 0, 255, 255]"

definition ParseAddr :: "(string \<Rightarrow> octet list option) \<Rightarrow> string \<Rightarrow> (octet list \<times> nat) option" where
  "ParseAddr p6 s =
     (case find (\<lambda>c. c = CHR ''.'' \<or> c = CHR '':'' \<or> c = CHR ''%'') s of
        None \<Rightarrow> None
      | Some c \<Rightarrow>
          if c = CHR ''.'' then map_option (\<lambda>ip. (v4InV6Prefix @ ip, 32)) (parseIPv4 s)
          else if c = CHR '':'' then map_option (\<lambda>ip. (ip, 128)) (p6 s)
          else None)"

definition ParseIP :: "(string \<Rightarrow> octet list option) \<Rightarrow> string \<Rightarrow> octet list option" where
  "ParseIP p6 s = map_option fst (ParseAddr p6 s)"

definition To4 :: "octet list \<Rightarrow> octet list option" where
  "To4 ip =
     (if length ip = 4 then Some ip
      else if length ip = 16 \<and> take 12 ip = v4InV6Prefix then Some (drop 12 ip)
      else None)"

text \<open>\<open>net.IP.String\<close> of four octets.\<close>

fun IP_String :: "octet list \<Rightarrow> string" where
  "IP_String [] = ''''"
| "IP_String [a] = FormatUint (unat a)"
| "IP_String (a # b # ip) = FormatUint (unat a) @ ''.'' @ IP_String (b # ip)"

text \<open>
  \<open>net.ParseCIDR\<close>: the masked address as four octets (sixteen for IPv6), the prefix length and
  the number of bits.
\<close>

definition mask_octet :: "nat \<Rightarrow> octet \<Rightarrow> octet" where
  "mask_octet n b = (if n \<ge> 8 then b else and b (push_bit (8 - n) (mask n)))"

fun ip_mask :: "nat \<Rightarrow> octet list \<Rightarrow> octet list" where
  "ip_mask n [] = []"
| "ip_mask n (b # ip) = mask_octet n b # ip_mask (n - 8) ip"

definition ParseCIDR :: "(string \<Rightarrow> octet list option) \<Rightarrow> string \<Rightarrow> (octet list \<times> nat \<times> nat) option" where
  "ParseCIDR p6 s =
     (if CHR ''/'' \<notin> set s then None
      else
        let addr = takeWhile (\<lambda>c. c \<noteq> CHR ''/'') s;
            m = drop (Suc (length addr)) s
        in case ParseAddr p6 addr of
             None \<Rightarrow> None
           | Some (ip, bits) \<Rightarrow>
               if m = [] \<or> \<not> list_all is_digit m \<or> digits_val m > bits then None
               else Some (ip_mask (digits_val m) (if bits = 32 then drop 12 ip else ip), digits_val m, bits))"

section \<open>Printing and parsing\<close>

lemma FormatUint_hd: "n > 0 \<Longrightarrow> hd (FormatUint n) \<noteq> CHR ''0''"
proof (induction n rule: FormatUint.induct)
  case (1 n)
  show ?case
  proof (cases "n < 10")
    case True
    then have "digit n \<noteq> CHR ''0''" using 1(2) digit_val_digit [of n] by (auto simp: digit_val_def)
    with True show ?thesis by (subst FormatUint.simps) simp
  next
    case False
    then have "n div 10 > 0" by simp
    with 1 False show ?thesis by (subst FormatUint.simps) simp
  qed
qed

lemma parse_octet_FormatUint [simp]: "parse_octet (FormatUint (unat o')) = Some o'"
proof -
  have "unat o' < 2 ^ LENGTH(8)" by (rule unsigned_less)
  moreover have "\<not> (length (FormatUint (unat o')) > 1 \<and> hd (FormatUint (unat o')) = CHR ''0'')"
  proof (cases "unat o' = 0")
    case True
    then show ?thesis by (subst FormatUint.simps) simp
  qed (simp add: FormatUint_hd)
  ultimately show ?thesis
    by (auto simp: parse_octet_def list_all_iff dest: FormatUint_digits)
qed

lemma FormatUint_no_sep:
  "CHR ''.'' \<notin> set (FormatUint n)" "CHR '':'' \<notin> set (FormatUint n)" "CHR ''%'' \<notin> set (FormatUint n)" "CHR ''/'' \<notin> set (FormatUint n)"
  by (auto simp: is_digit_def dest: FormatUint_digits)

lemma parseIPv4_String: "parseIPv4 (IP_String [a, b, c, d]) = Some [a, b, c, d]"
  by (simp add: parseIPv4_def splitOn_append splitOn_no FormatUint_no_sep)

lemma find_append_none: "\<forall>x \<in> set xs. \<not> P x \<Longrightarrow> find P (xs @ ys) = find P ys"
  by (induction xs) auto

lemma ParseAddr_String: "ParseAddr p6 (IP_String [a, b, c, d]) = Some (v4InV6Prefix @ [a, b, c, d], 32)"
proof -
  have "\<forall>x \<in> set (FormatUint (unat a)). \<not> (x = CHR ''.'' \<or> x = CHR '':'' \<or> x = CHR ''%'')"
    using FormatUint_no_sep by blast
  then have "find (\<lambda>c. c = CHR ''.'' \<or> c = CHR '':'' \<or> c = CHR ''%'') (IP_String [a, b, c, d]) = Some CHR ''.''"
    by (simp add: find_append_none)
  then show ?thesis by (simp only: ParseAddr_def option.case parseIPv4_String) simp
qed

lemma To4_v4 [simp]: "length ip = 4 \<Longrightarrow> To4 (v4InV6Prefix @ ip) = Some ip"
  by (simp add: To4_def v4InV6Prefix_def)

end
