(* ===== verification/Ipam.thy ===== *)
theory Ipam
  imports NetIP Applier
begin

text \<open>
  The allocator of /24 subnets, \<^verbatim>\<open>internal/discovery/ipam/ipam.go\<close>: a pool is a /16 given by its four
  octets, subnets live in the replicated state, and every operation of the leader runs under the
  allocator's mutex, so it is one step. \<open>p6\<close> is the IPv6 parser of the Go library.
\<close>

section \<open>Definitions\<close>

datatype ipam_error = InvalidPool | NotSlash16 nat | NamesRequired | PoolExhausted | RaftApply string

definition DefaultPoolCIDR :: string where
  "DefaultPoolCIDR = ''10.244.0.0/16''"

definition IsExhausted :: "ipam_error \<Rightarrow> bool" where
  "IsExhausted err \<longleftrightarrow> err = PoolExhausted"

definition Ipam_New :: "(string \<Rightarrow> octet list option) \<Rightarrow> string \<Rightarrow> ipam_error + octet list" where
  "Ipam_New p6 poolCIDR =
     (let poolCIDR = (if poolCIDR = '''' then DefaultPoolCIDR else poolCIDR)
      in case ParseCIDR p6 poolCIDR of
           None \<Rightarrow> Inl InvalidPool
         | Some (ip, ones, bits) \<Rightarrow> if bits \<noteq> 32 \<or> ones \<noteq> 16 then Inl (NotSlash16 ones) else Inr ip)"

definition thirdOctet :: "(string \<Rightarrow> octet list option) \<Rightarrow> string \<Rightarrow> octet option" where
  "thirdOctet p6 cidr =
     (if CHR ''/'' \<notin> set cidr then None
      else case ParseIP p6 (takeWhile (\<lambda>c. c \<noteq> CHR ''/'') cidr) of
             None \<Rightarrow> None
           | Some ip \<Rightarrow> (case To4 ip of None \<Rightarrow> None | Some ip \<Rightarrow> Some (ip ! 2)))"

definition taken :: "(string \<Rightarrow> octet list option) \<Rightarrow> State \<Rightarrow> octet list" where
  "taken p6 s = List.map_filter (\<lambda>sn. thirdOctet p6 (sn_cidr sn)) (Store_List (Subnets s))"

definition cidr24 :: "octet list \<Rightarrow> octet \<Rightarrow> string" where
  "cidr24 pool o' = IP_String ((pool[2 := o'])[3 := 0]) @ ''/24''"

definition nextFree :: "(string \<Rightarrow> octet list option) \<Rightarrow> octet list \<Rightarrow> State \<Rightarrow> ipam_error + string" where
  "nextFree p6 pool s =
     (case find (\<lambda>n. of_nat n \<notin> set (taken p6 s)) [0..<256] of
        None \<Rightarrow> Inl PoolExhausted
      | Some n \<Rightarrow> Inr (cidr24 pool (of_nat n)))"

definition Allocate :: "(string \<Rightarrow> octet list option) \<Rightarrow> octet list \<Rightarrow> applier \<Rightarrow> time \<Rightarrow> string \<Rightarrow> string \<Rightarrow> string
    \<Rightarrow> State \<Rightarrow> (ipam_error + Subnet option) \<times> State" where
  "Allocate p6 pool submit now deployment network host s =
     (if deployment = '''' \<or> network = '''' \<or> host = '''' then (Inl NamesRequired, s)
      else case Store_Get (Subnets s) (SubnetKey deployment network host) of
             Some existing \<Rightarrow> (Inr (Some existing), s)
           | None \<Rightarrow>
               (case nextFree p6 pool s of
                  Inl err \<Rightarrow> (Inl err, s)
                | Inr cidr \<Rightarrow>
                    (case submit (mk_cmd ''scheduler'' now (SubnetAllocate deployment network cidr host)) s of
                       (Some err, s') \<Rightarrow> (Inl (RaftApply err), s')
                     | (None, s') \<Rightarrow>
                         (Inr (Store_Get (Subnets s') (SubnetKey deployment network host)), s'))))"

definition Free :: "applier \<Rightarrow> time \<Rightarrow> string \<Rightarrow> string \<Rightarrow> string \<Rightarrow> State \<Rightarrow> ipam_error option \<times> State" where
  "Free submit now deployment network host s =
     (if deployment = '''' \<or> network = '''' \<or> host = '''' then (Some NamesRequired, s)
      else case Store_Get (Subnets s) (SubnetKey deployment network host) of
             None \<Rightarrow> (None, s)
           | Some _ \<Rightarrow>
               (case submit (mk_cmd ''scheduler'' now (SubnetFree deployment network host)) s of
                  (Some err, s') \<Rightarrow> (Some (RaftApply err), s')
                | (None, s') \<Rightarrow> (None, s')))"

definition allocatedCIDRs :: "State \<Rightarrow> string list" where
  "allocatedCIDRs s = sort (map sn_cidr (Store_List (Subnets s)))"

section \<open>The pool\<close>

lemma length_ip_mask [simp]: "length (ip_mask n ip) = length ip"
  by (induction n ip rule: ip_mask.induct) simp_all

lemma parseIPv4_length: "parseIPv4 s = Some ip \<Longrightarrow> length ip = 4"
  by (auto simp: parseIPv4_def split: list.splits option.splits)

lemma Ipam_New_pool:
  assumes "Ipam_New p6 c = Inr pool"
  shows "length pool = 4"
proof -
  obtain c' where "ParseCIDR p6 c' = Some (pool, 16, 32)"
    using assms by (auto simp: Ipam_New_def Let_def split: option.splits if_splits)
  then show ?thesis
    by (auto simp: ParseCIDR_def ParseAddr_def Let_def v4InV6Prefix_def dest!: parseIPv4_length
        split: option.splits if_splits)
qed

lemma four_octets:
  assumes "length pool = 4"
  shows "(pool[2 := o'])[3 := 0] = [pool ! 0, pool ! 1, o', 0]"
proof -
  obtain a b c d where "pool = [a, b, c, d]"
    using assms by (auto simp: numeral_eq_Suc length_Suc_conv)
  then show ?thesis by (simp add: numeral_eq_Suc)
qed

lemma IP_String_no_slash: "CHR ''/'' \<notin> set (IP_String [a, b, c, d])"
  by (simp add: FormatUint_no_sep)

lemma takeWhile_sep: "c \<notin> set xs \<Longrightarrow> takeWhile (\<lambda>x. x \<noteq> c) (xs @ c # ys) = xs"
  by (induction xs) auto

lemma thirdOctet_cidr24:
  assumes "length pool = 4"
  shows "thirdOctet p6 (cidr24 pool o') = Some o'"
proof -
  let ?ip = "IP_String [pool ! 0, pool ! 1, o', 0]"
  have "takeWhile (\<lambda>c. c \<noteq> CHR ''/'') (cidr24 pool o') = ?ip"
    unfolding cidr24_def four_octets [OF assms] by (rule takeWhile_sep [OF IP_String_no_slash])
  moreover have "CHR ''/'' \<in> set (cidr24 pool o')" by (simp add: cidr24_def)
  ultimately show ?thesis
    by (simp only: thirdOctet_def ParseIP_def ParseAddr_String) simp
qed

lemma cidr24_inject: "length pool = 4 \<Longrightarrow> cidr24 pool a = cidr24 pool b \<longleftrightarrow> a = b"
  by (metis option.inject thirdOctet_cidr24)

section \<open>No two subnets overlap\<close>

definition subnets_ok :: "octet list \<Rightarrow> State \<Rightarrow> bool" where
  "subnets_ok pool s \<longleftrightarrow> store_ok subnet_key (Subnets s)
     \<and> (\<forall>k v. Store_Get (Subnets s) k = Some v \<longrightarrow> (\<exists>o'. sn_cidr v = cidr24 pool o'))
     \<and> (\<forall>k k' v v'. Store_Get (Subnets s) k = Some v \<and> Store_Get (Subnets s) k' = Some v'
          \<and> sn_cidr v = sn_cidr v' \<longrightarrow> k = k')"

lemma set_taken:
  assumes "subnets_ok pool s" "length pool = 4"
  shows "set (taken p6 s) = {o'. \<exists>v \<in> ran (Store_Get (Subnets s)). sn_cidr v = cidr24 pool o'}"
proof -
  have ok: "store_ok subnet_key (Subnets s)" using assms(1) by (simp add: subnets_ok_def)
  have c: "\<exists>o'. sn_cidr v = cidr24 pool o'" if "v \<in> ran (Store_Get (Subnets s))" for v
    using that assms(1) by (auto simp: subnets_ok_def ran_def)
  have t: "thirdOctet p6 (sn_cidr v) = Some o' \<longleftrightarrow> sn_cidr v = cidr24 pool o'"
    if "v \<in> ran (Store_Get (Subnets s))" for v o'
  proof -
    from c [OF that] obtain b where "sn_cidr v = cidr24 pool b" ..
    then show ?thesis by (simp add: thirdOctet_cidr24 [OF assms(2)] cidr24_inject [OF assms(2)])
  qed
  have "set (List.map_filter f xs) = {y. \<exists>x \<in> set xs. f x = Some y}" for f :: "Subnet \<Rightarrow> octet option" and xs
    by (induction xs) (auto simp: map_filter_simps split: option.splits)
  then show ?thesis using t by (auto simp: taken_def Store_List_ran [OF ok])
qed


lemma nextFree_cases:
  assumes "subnets_ok pool s" "length pool = 4"
  shows "case nextFree p6 pool s of
      Inl e \<Rightarrow> e = PoolExhausted \<and> set (taken p6 s) = UNIV
    | Inr c \<Rightarrow> \<exists>o'. c = cidr24 pool o' \<and> o' \<notin> set (taken p6 s) \<and> (\<forall>b < o'. b \<in> set (taken p6 s))"
proof (cases "find (\<lambda>n. of_nat n \<notin> set (taken p6 s)) [0..<256]")
  case None
  have "b \<in> set (taken p6 s)" for b
  proof -
    have "unat b < 2 ^ LENGTH(8)" by (rule unsigned_less)
    then have "unat b \<in> set [0..<256]" by simp
    with None have "(of_nat (unat b) :: octet) \<in> set (taken p6 s)" unfolding find_None_iff by blast
    then show ?thesis by simp
  qed
  with None show ?thesis by (auto simp: nextFree_def)
next
  case (Some n)
  then obtain i where i: "i < 256" "n = i" "of_nat n \<notin> set (taken p6 s)"
      "\<forall>j < i. (of_nat j :: octet) \<in> set (taken p6 s)"
    unfolding find_Some_iff by (auto simp: nth_upt)
  have un: "unat (of_nat n :: octet) = n" using i(1,2) by (simp add: unat_of_nat take_bit_eq_mod)
  have "b \<in> set (taken p6 s)" if "b < of_nat n" for b :: octet
  proof -
    have "unat b < n" using that un by (simp add: word_less_nat_alt)
    with i(2,4) have "(of_nat (unat b) :: octet) \<in> set (taken p6 s)" by blast
    then show ?thesis by simp
  qed
  with Some i(3) show ?thesis by (auto simp: nextFree_def)
qed

lemma Subnets_leader:
  "Subnets (apply_command i (mk_cmd u t (SubnetAllocate d n c h)) s) =
     put subnet_key \<lparr>sn_deployment = d, sn_network = n, sn_cidr = c, sn_allocated_at = Some t, sn_host = h\<rparr> i (Subnets s)"
  "d \<noteq> '''' \<Longrightarrow> n \<noteq> '''' \<Longrightarrow> h \<noteq> '''' \<Longrightarrow>
    Subnets (apply_command i (mk_cmd u t (SubnetFree d n h)) s) = del (SubnetKey d n h) i (Subnets s)"
  by (simp_all add: apply_command.simps [of i "mk_cmd _ _ _"] h_SubnetAllocate_def h_SubnetFree_def audit_append_sel)

lemma subnets_ok_put:
  assumes "subnets_ok pool s" "length pool = 4" "o' \<notin> set (taken p6 s)" "sn_cidr v = cidr24 pool o'"
    and "Subnets s' = put subnet_key v i (Subnets s)"
  shows "subnets_ok pool s'"
proof -
  have free: "sn_cidr w \<noteq> cidr24 pool o'" if "Store_Get (Subnets s) k = Some w" for k w
    using that assms(3) set_taken [OF assms(1,2), of p6] by (auto simp: ran_def)
  show ?thesis
    using assms(1,4) free unfolding subnets_ok_def assms(5) Store_Get_Apply
    by (intro conjI) (auto split: if_splits; metis)+
qed

lemma subnets_ok_del:
  assumes "subnets_ok pool s" "Subnets s' = del k i (Subnets s)"
  shows "subnets_ok pool s'"
  using assms(1) unfolding subnets_ok_def assms(2) Store_Get_Remove by (auto split: if_splits)


lemma card_taken:
  assumes "subnets_ok pool s" "length pool = 4"
  shows "card (set (taken p6 s)) = Store_Len (Subnets s)"
proof -
  let ?f = "\<lambda>k. the (thirdOctet p6 (sn_cidr (the (Store_Get (Subnets s) k))))"
  have ok: "store_ok subnet_key (Subnets s)" using assms(1) by (simp add: subnets_ok_def)
  have f: "sn_cidr v = cidr24 pool (?f k)" if k: "Store_Get (Subnets s) k = Some v" for k v
  proof -
    from assms(1) k obtain o' where o': "sn_cidr v = cidr24 pool o'" unfolding subnets_ok_def by blast
    have "?f k = o'" by (simp only: k o' thirdOctet_cidr24 [OF assms(2)] option.sel)
    with o' show ?thesis by simp
  qed
  have "set (taken p6 s) = ?f ` dom (Store_Get (Subnets s))"
  proof (intro set_eqI iffI)
    fix o'
    assume "o' \<in> set (taken p6 s)"
    then obtain k v where "Store_Get (Subnets s) k = Some v" "sn_cidr v = cidr24 pool o'"
      unfolding set_taken [OF assms] by (auto simp: ran_def)
    with f [of k v] have "?f k = o'" "k \<in> dom (Store_Get (Subnets s))"
      using cidr24_inject [OF assms(2)] by auto
    then show "o' \<in> ?f ` dom (Store_Get (Subnets s))" by blast
  next
    fix o'
    assume "o' \<in> ?f ` dom (Store_Get (Subnets s))"
    then obtain k v where "Store_Get (Subnets s) k = Some v" "o' = ?f k" by blast
    with f [of k v] show "o' \<in> set (taken p6 s)" unfolding set_taken [OF assms] by (blast intro: ranI)
  qed
  moreover have "inj_on ?f (dom (Store_Get (Subnets s)))"
  proof (rule inj_onI)
    fix k k'
    assume "k \<in> dom (Store_Get (Subnets s))" "k' \<in> dom (Store_Get (Subnets s))" "?f k = ?f k'"
    then obtain v v' where "Store_Get (Subnets s) k = Some v" "Store_Get (Subnets s) k' = Some v'" "sn_cidr v = sn_cidr v'"
      using f by (metis domD)
    then show "k = k'" using assms(1) unfolding subnets_ok_def by blast
  qed
  ultimately show ?thesis by (simp add: card_image Store_Len_card [OF ok])
qed

lemma taken_bound:
  assumes "subnets_ok pool s" "length pool = 4"
  shows "Store_Len (Subnets s) \<le> 256" "set (taken p6 s) = UNIV \<longleftrightarrow> Store_Len (Subnets s) = 256"
proof -
  have u: "card (UNIV :: octet set) = 256" by (simp add: card_word)
  show "Store_Len (Subnets s) \<le> 256"
    using card_mono [OF finite subset_UNIV, of "set (taken p6 s)"] by (simp add: card_taken [OF assms] u)
  show "set (taken p6 s) = UNIV \<longleftrightarrow> Store_Len (Subnets s) = 256"
    using card_taken [OF assms, of p6] card_subset_eq [OF finite subset_UNIV, of "set (taken p6 s)"] u by force
qed

context raft_applier
begin

lemma Allocate_keeps:
  assumes "subnets_ok pool s" "length pool = 4"
  shows "subnets_ok pool (snd (Allocate p6 pool submit now d n h s))"
proof (cases "(d = '''' \<or> n = '''' \<or> h = '''') \<or> Store_Get (Subnets s) (SubnetKey d n h) \<noteq> None \<or> isl (nextFree p6 pool s)")
  case True
  then show ?thesis using assms(1) by (auto simp: Allocate_def split: sum.splits option.split)
next
  case False
  then obtain c where c: "nextFree p6 pool s = Inr c" by (cases "nextFree p6 pool s") auto
  with nextFree_cases [OF assms, of p6] obtain o' where o': "c = cidr24 pool o'" "o' \<notin> set (taken p6 s)" by auto
  obtain e s' where sub: "submit (mk_cmd ''scheduler'' now (SubnetAllocate d n c h)) s = (e, s')" by (metis surj_pair)
  have "snd (Allocate p6 pool submit now d n h s) = s'" using False c sub by (auto simp: Allocate_def split: option.split)
  moreover have "subnets_ok pool s'"
  proof (cases e)
    case None
    with applied sub obtain i where "s' = apply_command i (mk_cmd ''scheduler'' now (SubnetAllocate d n c h)) s" by blast
    then have "Subnets s' = put subnet_key \<lparr>sn_deployment = d, sn_network = n, sn_cidr = c, sn_allocated_at = Some now,
        sn_host = h\<rparr> i (Subnets s)" by (simp add: Subnets_leader)
    from subnets_ok_put [OF assms o'(2) _ this] o'(1) show ?thesis by simp
  next
    case (Some e)
    with rejected sub assms(1) show ?thesis by blast
  qed
  ultimately show ?thesis by simp
qed

lemma Free_keeps:
  assumes "subnets_ok pool s"
  shows "subnets_ok pool (snd (Free submit now d n h s))"
proof (cases "(d = '''' \<or> n = '''' \<or> h = '''') \<or> Store_Get (Subnets s) (SubnetKey d n h) = None")
  case True
  then show ?thesis using assms(1) by (auto simp: Free_def)
next
  case False
  obtain e s' where sub: "submit (mk_cmd ''scheduler'' now (SubnetFree d n h)) s = (e, s')" by (metis surj_pair)
  have "snd (Free submit now d n h s) = s'" using False sub by (auto simp: Free_def split: option.split)
  moreover have "subnets_ok pool s'"
  proof (cases e)
    case None
    with applied sub obtain i where "s' = apply_command i (mk_cmd ''scheduler'' now (SubnetFree d n h)) s" by blast
    with False have "Subnets s' = del (SubnetKey d n h) i (Subnets s)" by (simp add: Subnets_leader)
    from subnets_ok_del [OF assms this] show ?thesis .
  next
    case (Some e)
    with rejected sub assms(1) show ?thesis by blast
  qed
  ultimately show ?thesis by simp
qed

end

text \<open>
  C13. Subnets never overlap and there are never more than 256: starting from subnets that are
  different /24 blocks of the pool, allocating and freeing keep it so whatever raft answers.
\<close>

theorem ipam_no_overlap:
  assumes "Ipam_New p6 c = Inr pool" "subnets_ok pool s"
  shows "subnets_ok pool (snd (Allocate p6 pool (Node_Apply raft) now d n h s))
    \<and> subnets_ok pool (snd (Free (Node_Apply raft) now d n h s)) \<and> Store_Len (Subnets s) \<le> 256"
  using assms(2) Ipam_New_pool [OF assms(1)]
  by (intro conjI node.Allocate_keeps node.Free_keeps taken_bound(1))

text \<open>
  C37. An allocation on the leader succeeds exactly while fewer than 256 subnets exist: a known key
  gets its subnet back unchanged, a new one the /24 with the lowest third octet that is free,
  which a repeated call returns again, and a full pool is reported as exhausted without a change.
\<close>

theorem ipam_allocate_exact:
  assumes "Ipam_New p6 c = Inr pool" "subnets_ok pool s" "d \<noteq> ''''" "n \<noteq> ''''" "h \<noteq> ''''"
    and "Allocate p6 pool (leader_apply i) now d n h s = (res, s')"
  shows "case Store_Get (Subnets s) (SubnetKey d n h) of
      Some sn \<Rightarrow> res = Inr (Some sn) \<and> s' = s
    | None \<Rightarrow>
        if Store_Len (Subnets s) = 256 then res = Inl PoolExhausted \<and> s' = s
        else \<exists>o' sn. res = Inr (Some sn) \<and> sn_cidr sn = cidr24 pool o'
          \<and> (\<forall>v \<in> ran (Store_Get (Subnets s)). sn_cidr v \<noteq> cidr24 pool o')
          \<and> (\<forall>b < o'. \<exists>v \<in> ran (Store_Get (Subnets s)). sn_cidr v = cidr24 pool b)
          \<and> Store_Get (Subnets s') = (Store_Get (Subnets s))(SubnetKey d n h \<mapsto> sn)
          \<and> Allocate p6 pool (leader_apply j) now' d n h s' = (res, s')"
proof -
  have pool: "length pool = 4" by (rule Ipam_New_pool [OF assms(1)])
  note t = set_taken [OF assms(2) pool, of p6]
  show ?thesis
  proof (cases "Store_Get (Subnets s) (SubnetKey d n h)")
    case (Some sn)
    with assms(3-6) show ?thesis by (simp add: Allocate_def)
  next
    case None
    show ?thesis
    proof (cases "nextFree p6 pool s")
      case (Inl e)
      with nextFree_cases [OF assms(2) pool, of p6] taken_bound(2) [OF assms(2) pool, of p6] None assms(3-6)
      show ?thesis by (simp add: Allocate_def)
    next
      case (Inr c)
      with nextFree_cases [OF assms(2) pool, of p6] obtain o' where o': "c = cidr24 pool o'" "o' \<notin> set (taken p6 s)"
          "\<forall>b < o'. b \<in> set (taken p6 s)" by auto
      then have "Store_Len (Subnets s) \<noteq> 256" using taken_bound(2) [OF assms(2) pool, of p6] by blast
      let ?sn = "\<lparr>sn_deployment = d, sn_network = n, sn_cidr = c, sn_allocated_at = Some now, sn_host = h\<rparr>"
      have s': "s' = apply_command i (mk_cmd ''scheduler'' now (SubnetAllocate d n c h)) s" "res = Inr (Some ?sn)"
        using assms(3-6) None Inr by (auto simp: Allocate_def leader_apply_eq Subnets_leader subnet_key_def)
      have get: "Store_Get (Subnets s') = (Store_Get (Subnets s))(SubnetKey d n h \<mapsto> ?sn)"
        by (simp add: s'(1) Subnets_leader subnet_key_def)
      then have "Allocate p6 pool (leader_apply j) now' d n h s' = (res, s')"
        using assms(3-5) s'(2) by (simp add: Allocate_def)
      moreover have "\<forall>v \<in> ran (Store_Get (Subnets s)). sn_cidr v \<noteq> cidr24 pool o'"
          "\<forall>b < o'. \<exists>v \<in> ran (Store_Get (Subnets s)). sn_cidr v = cidr24 pool b"
        using o'(2,3) unfolding t by blast+
      ultimately have "\<exists>o' sn. res = Inr (Some sn) \<and> sn_cidr sn = cidr24 pool o'
          \<and> (\<forall>v \<in> ran (Store_Get (Subnets s)). sn_cidr v \<noteq> cidr24 pool o')
          \<and> (\<forall>b < o'. \<exists>v \<in> ran (Store_Get (Subnets s)). sn_cidr v = cidr24 pool b)
          \<and> Store_Get (Subnets s') = (Store_Get (Subnets s))(SubnetKey d n h \<mapsto> sn)
          \<and> Allocate p6 pool (leader_apply j) now' d n h s' = (res, s')"
        using get s'(2) o'(1) by (intro exI [of _ o'] exI [of _ ?sn]) simp
      with None \<open>Store_Len (Subnets s) \<noteq> 256\<close> show ?thesis by simp
    qed
  qed
qed


text \<open>The default pool, empty and after one allocation.\<close>

lemma ex_pool: "Ipam_New (\<lambda>_. None) '''' = Inr [10, 244, 0, 0]"
  by code_simp

lemma ex_subnets_ok: "subnets_ok [10, 244, 0, 0] State_New"
  by (simp add: subnets_ok_def State_New_def)

theorem ipam_no_overlap_witness:
  "subnets_ok [10, 244, 0, 0] (snd (Allocate (\<lambda>_. None) [10, 244, 0, 0] (Node_Apply (\<lambda>_ _. Committed 3)) 7
     ''web'' ''default'' ''n1'' State_New))"
  using ipam_no_overlap [OF ex_pool ex_subnets_ok] by blast

theorem ipam_allocate_exact_witness:
  "\<exists>res s'. Allocate (\<lambda>_. None) [10, 244, 0, 0] (leader_apply 3) 7 ''web'' ''default'' ''n1'' State_New = (res, s')
     \<and> (\<exists>sn. res = Inr (Some sn) \<and> sn_cidr sn = ''10.244.0.0/24'')"
proof -
  obtain res s' where r: "Allocate (\<lambda>_. None) [10, 244, 0, 0] (leader_apply 3) 7 ''web'' ''default'' ''n1'' State_New = (res, s')"
    by (metis surj_pair)
  have new: "Store_Get (Subnets State_New) = Map.empty" "Store_Len (Subnets State_New) = 0"
    by (simp add: State_New_def) (simp add: State_New_def Store_Len_def NewStore_def)
  have ne: "''web'' \<noteq> ''''" "''default'' \<noteq> ''''" "''n1'' \<noteq> ''''" by simp_all
  from ipam_allocate_exact [OF ex_pool ex_subnets_ok ne r, of 4 8] obtain o' sn where
      "res = Inr (Some sn)" "sn_cidr sn = cidr24 [10, 244, 0, 0] o'" "\<forall>b < o'. False"
    by (auto simp: new)
  moreover from this(3) have "o' = 0" by (metis word_gt_0)
  moreover have "cidr24 [10, 244, 0, 0] 0 = ''10.244.0.0/24''" by code_simp
  ultimately show ?thesis using r by auto
qed

end
