(* ===== verification/Membership.thy ===== *)
theory Membership
  imports Prelude
begin

text \<open>
  The voter set of raft, \<^verbatim>\<open>internal/controlplane/raft/membership\<close>: the policy (\<^verbatim>\<open>policy.go\<close>) and the
  leader's reconciler (\<^verbatim>\<open>reconciler.go\<close>), which changes the suffrage of at most one server per tick.
  hashicorp/raft is third-party code: a tick takes the configuration it reads from raft, \<open>None\<close>
  for an error, and returns the call it makes. What a successful call does to the configuration
  is the parameter \<open>perform\<close>, with the documented effect as the hypothesis \<open>raft_effect\<close>.
\<close>

section \<open>Definitions\<close>

definition MaxVoters :: int where
  "MaxVoters = 7"

definition Target :: "int \<Rightarrow> int" where
  "Target members =
     (if members \<le> 0 then 0
      else if members \<ge> MaxVoters then MaxVoters
      else if members mod 2 = 1 then members
      else members - 1)"

definition PickPromote :: "string list \<Rightarrow> (string \<Rightarrow> bool) \<Rightarrow> string" where
  "PickPromote nonvoters eligible =
     (case sort (filter eligible nonvoters) of [] \<Rightarrow> '''' | h # _ \<Rightarrow> h)"

definition PickDemote :: "string list \<Rightarrow> string \<Rightarrow> string" where
  "PickDemote voters self =
     (case rev (sort (filter (\<lambda>h. h \<noteq> self) voters)) of [] \<Rightarrow> '''' | h # _ \<Rightarrow> h)"

datatype ServerSuffrage = Voter | Nonvoter | Staging

record Server =
  sv_ID :: string
  sv_Address :: string
  sv_Suffrage :: ServerSuffrage

datatype raft_call = AddVoter string string int | DemoteVoter string int

record MConfig =
  TickInterval :: int
  PromoteAfter :: int
  RaftOpTimeout :: int

definition DefaultTickInterval :: int where
  "DefaultTickInterval = 3 * 1000000000"

definition DefaultPromoteAfter :: int where
  "DefaultPromoteAfter = 3 * 1000000000"

definition DefaultRaftOpTimeout :: int where
  "DefaultRaftOpTimeout = 2 * 1000000000"

record Reconciler =
  rc_selfID :: string
  rc_cfg :: MConfig
  rc_kick :: bool
  rc_firstSeen :: "string \<rightharpoonup> time"

definition Reconciler_New :: "string \<Rightarrow> MConfig \<Rightarrow> Reconciler" where
  "Reconciler_New selfID cfg =
     (let cfg = (if TickInterval cfg \<le> 0 then cfg\<lparr>TickInterval := DefaultTickInterval\<rparr> else cfg);
          cfg = (if PromoteAfter cfg \<le> 0 then cfg\<lparr>PromoteAfter := DefaultPromoteAfter\<rparr> else cfg);
          cfg = (if RaftOpTimeout cfg \<le> 0 then cfg\<lparr>RaftOpTimeout := DefaultRaftOpTimeout\<rparr> else cfg)
      in \<lparr>rc_selfID = selfID, rc_cfg = cfg, rc_kick = False, rc_firstSeen = Map.empty\<rparr>)"

text \<open>The channel of capacity one holds at most one request.\<close>

definition Kick :: "Reconciler \<Rightarrow> Reconciler" where
  "Kick r = r\<lparr>rc_kick := True\<rparr>"

definition stamp :: "time \<Rightarrow> Server list \<Rightarrow> (string \<rightharpoonup> time) \<Rightarrow> string \<rightharpoonup> time" where
  "stamp now servers firstSeen =
     (\<lambda>i. if i \<in> sv_ID ` set servers
          then (case firstSeen i of None \<Rightarrow> Some now | Some t \<Rightarrow> Some t)
          else None)"

definition voters_of :: "Server list \<Rightarrow> string list" where
  "voters_of servers = map sv_ID (filter (\<lambda>s. sv_Suffrage s = Voter) servers)"

definition nonvoters_of :: "Server list \<Rightarrow> string list" where
  "nonvoters_of servers = map sv_ID (filter (\<lambda>s. sv_Suffrage s \<noteq> Voter) servers)"

definition Tick :: "bool \<Rightarrow> Server list option \<Rightarrow> time \<Rightarrow> Reconciler \<Rightarrow> raft_call option \<times> Reconciler" where
  "Tick isLeader configuration now r =
     (if \<not> isLeader then (None, r\<lparr>rc_firstSeen := Map.empty\<rparr>)
      else case configuration of
             None \<Rightarrow> (None, r)
           | Some servers \<Rightarrow>
               let seen = stamp now servers (rc_firstSeen r);
                   r = r\<lparr>rc_firstSeen := seen\<rparr>;
                   voters = sort (voters_of servers);
                   nonvoters = sort (nonvoters_of servers);
                   addrByID = map_of (rev (map (\<lambda>s. (sv_ID s, sv_Address s)) servers));
                   target = Target (int (length servers));
                   actual = int (length voters)
               in if actual < target
                  then (let eligible = (\<lambda>i. case seen i of None \<Rightarrow> False | Some t \<Rightarrow> now - t \<ge> PromoteAfter (rc_cfg r));
                            pick = PickPromote nonvoters eligible
                        in if pick = '''' then (None, r)
                           else case addrByID pick of
                                  None \<Rightarrow> (None, r)
                                | Some addr \<Rightarrow>
                                    if addr = '''' then (None, r)
                                    else (Some (AddVoter pick addr (RaftOpTimeout (rc_cfg r))), r))
                  else if actual > target
                  then (let pick = PickDemote voters (rc_selfID r)
                        in if pick = '''' then (None, r)
                           else (Some (DemoteVoter pick (RaftOpTimeout (rc_cfg r))), r))
                  else (None, r))"

definition Membership_Snapshot :: "bool \<Rightarrow> Server list option \<Rightarrow> string \<rightharpoonup> ServerSuffrage" where
  "Membership_Snapshot isLeader configuration =
     (if \<not> isLeader then Map.empty
      else case configuration of
             None \<Rightarrow> Map.empty
           | Some servers \<Rightarrow> map_of (rev (map (\<lambda>s. (sv_ID s, sv_Suffrage s)) servers)))"

section \<open>The policy\<close>

text \<open>
  The target is the best odd voter count: for a cluster of at least one member it is odd, at
  most seven and at most the number of members, no larger such number exists, and a majority of it
  survives as many failures as a majority of all members up to seven would.
\<close>

theorem voter_target_optimal:
  assumes "members \<ge> 1"
  shows "odd (Target members) \<and> 1 \<le> Target members \<and> Target members \<le> min members MaxVoters
    \<and> (\<forall>m. odd m \<and> m \<le> members \<and> m \<le> MaxVoters \<longrightarrow> m \<le> Target members)
    \<and> (Target members - 1) div 2 = (min members MaxVoters - 1) div 2"
proof -
  have "members mod 2 = 1 \<longleftrightarrow> odd members" by presburger
  moreover have "(members - 1 - 1) div 2 = (members - 1) div 2" if "even members" using that by presburger
  moreover have "m \<le> members - 1" if "odd m" "even members" "m \<le> members" for m
    using that by presburger
  ultimately show ?thesis using assms
    by (auto simp: Target_def MaxVoters_def min_def)
qed

lemma set_of_sorted:
  assumes "sort xs = ys @ y # zs"
  shows "y \<in> set xs"
proof -
  from assms have "y \<in> set (sort xs)" by simp
  then show ?thesis by simp
qed

lemmas sorted_mem = set_of_sorted [of _ "[]", simplified] set_of_sorted [of _ _ _ "[]"]

lemma sort_Nil_iff: "sort xs = [] \<longleftrightarrow> xs = []"
  by (metis length_0_conv length_sort)

lemma PickPromote_mem: "PickPromote hs P \<noteq> '''' \<Longrightarrow> PickPromote hs P \<in> set hs \<and> P (PickPromote hs P)"
  by (auto simp: PickPromote_def split: list.splits dest!: sorted_mem)

lemma PickPromote_none: "PickPromote hs P = '''' \<Longrightarrow> '''' \<notin> set hs \<Longrightarrow> h \<in> set hs \<Longrightarrow> \<not> P h"
  by (auto simp: PickPromote_def sort_Nil_iff filter_empty_conv split: list.splits dest!: sorted_mem)

lemma PickDemote_mem: "PickDemote hs self \<noteq> '''' \<Longrightarrow> PickDemote hs self \<in> set hs \<and> PickDemote hs self \<noteq> self"
  by (auto simp: PickDemote_def split: list.splits dest!: sorted_mem)

lemma PickDemote_none: "PickDemote hs self = '''' \<Longrightarrow> '''' \<notin> set hs \<Longrightarrow> h \<in> set hs \<Longrightarrow> h = self"
  by (auto simp: PickDemote_def sort_Nil_iff filter_empty_conv split: list.splits dest!: sorted_mem)

section \<open>One tick\<close>

text \<open>
  C17. A tick is one safe step towards the target: a follower calls nothing and forgets what it has
  seen; a leader promotes a nonvoter only while there are too few voters and only one that it has
  seen for \<open>PromoteAfter\<close>, with the address raft knows; it demotes a voter only while there are too
  many, and never itself.
\<close>

theorem tick_safe:
  assumes "Tick isLeader conf now r = (call, r')"
  shows "(\<not> isLeader \<longrightarrow> call = None \<and> rc_firstSeen r' = Map.empty)
    \<and> (\<forall>i addr t. call = Some (AddVoter i addr t) \<longrightarrow> (\<exists>servers. conf = Some servers \<and> i \<in> set (nonvoters_of servers)
        \<and> (\<exists>s \<in> set servers. sv_ID s = i \<and> sv_Address s = addr) \<and> addr \<noteq> ''''
        \<and> int (length (voters_of servers)) < Target (int (length servers))
        \<and> (\<exists>seen. rc_firstSeen r' i = Some seen \<and> now - seen \<ge> PromoteAfter (rc_cfg r))))
    \<and> (\<forall>i t. call = Some (DemoteVoter i t) \<longrightarrow> i \<noteq> rc_selfID r \<and> (\<exists>servers. conf = Some servers
        \<and> i \<in> set (voters_of servers) \<and> int (length (voters_of servers)) > Target (int (length servers))))"
proof (intro conjI allI impI)
  assume "\<not> isLeader"
  then show "call = None" "rc_firstSeen r' = Map.empty" using assms by (auto simp: Tick_def)
next
  fix i addr t
  assume c: "call = Some (AddVoter i addr t)"
  then obtain servers where servers: "conf = Some servers" "isLeader" using assms by (auto simp: Tick_def split: if_splits option.splits)
  let ?seen = "stamp now servers (rc_firstSeen r)"
  let ?el = "\<lambda>i. case ?seen i of None \<Rightarrow> False | Some t \<Rightarrow> now - t \<ge> PromoteAfter (rc_cfg r)"
  let ?pick = "PickPromote (sort (nonvoters_of servers)) ?el"
  have p: "i = ?pick" "?pick \<noteq> ''''" "map_of (rev (map (\<lambda>s. (sv_ID s, sv_Address s)) servers)) i = Some addr" "addr \<noteq> ''''"
      "int (length (voters_of servers)) < Target (int (length servers))" "rc_firstSeen r' = ?seen"
    using assms c servers by (auto simp: Tick_def Let_def split: if_splits option.splits)
  have "i \<in> set (nonvoters_of servers) \<and> ?el i" using PickPromote_mem [OF p(2)] unfolding p(1) by simp
  moreover have "\<exists>s \<in> set servers. sv_ID s = i \<and> sv_Address s = addr" using map_of_SomeD [OF p(3)] by auto
  ultimately show "\<exists>servers. conf = Some servers \<and> i \<in> set (nonvoters_of servers)
        \<and> (\<exists>s \<in> set servers. sv_ID s = i \<and> sv_Address s = addr) \<and> addr \<noteq> ''''
        \<and> int (length (voters_of servers)) < Target (int (length servers))
        \<and> (\<exists>seen. rc_firstSeen r' i = Some seen \<and> now - seen \<ge> PromoteAfter (rc_cfg r))"
    using servers(1) p(4-6) by (auto split: option.splits)
next
  fix i t
  assume c: "call = Some (DemoteVoter i t)"
  then obtain servers where servers: "conf = Some servers" "isLeader" using assms by (auto simp: Tick_def split: if_splits option.splits)
  let ?pick = "PickDemote (sort (voters_of servers)) (rc_selfID r)"
  have p: "i = ?pick" "?pick \<noteq> ''''" "int (length (voters_of servers)) > Target (int (length servers))"
    using assms c servers by (auto simp: Tick_def Let_def split: if_splits option.splits)
  show "i \<noteq> rc_selfID r" using PickDemote_mem [OF p(2)] p(1) by simp
  show "\<exists>servers. conf = Some servers \<and> i \<in> set (voters_of servers)
      \<and> int (length (voters_of servers)) > Target (int (length servers))"
    using PickDemote_mem [OF p(2)] p(1,3) servers(1) by simp
qed

section \<open>Convergence\<close>

text \<open>The documented effect of the calls on the configuration.\<close>

definition set_suffrage :: "string \<Rightarrow> ServerSuffrage \<Rightarrow> Server list \<Rightarrow> Server list" where
  "set_suffrage i f = map (\<lambda>s. if sv_ID s = i then s\<lparr>sv_Suffrage := f\<rparr> else s)"

definition raft_effect :: "(raft_call \<Rightarrow> Server list \<Rightarrow> Server list) \<Rightarrow> bool" where
  "raft_effect perform \<longleftrightarrow>
     (\<forall>i addr t ss. (\<forall>s \<in> set ss. sv_ID s = i \<longrightarrow> sv_Address s = addr) \<longrightarrow> perform (AddVoter i addr t) ss = set_suffrage i Voter ss)
   \<and> (\<forall>i t ss. perform (DemoteVoter i t) ss = set_suffrage i Nonvoter ss)"

fun rounds :: "(raft_call \<Rightarrow> Server list \<Rightarrow> Server list) \<Rightarrow> time list \<Rightarrow> Reconciler \<Rightarrow> Server list \<Rightarrow> Reconciler \<times> Server list" where
  "rounds perform [] r ss = (r, ss)"
| "rounds perform (now # ts) r ss =
     (case Tick True (Some ss) now r of
        (None, r') \<Rightarrow> rounds perform ts r' ss
      | (Some c, r') \<Rightarrow> rounds perform ts r' (perform c ss))"


lemma Target_pos: "n \<ge> 1 \<Longrightarrow> Target n \<ge> 1"
  by (simp add: Target_def MaxVoters_def) presburger

lemma set_suffrage_sel [simp]:
  "map sv_ID (set_suffrage i f ss) = map sv_ID ss" "map sv_Address (set_suffrage i f ss) = map sv_Address ss"
  "length (set_suffrage i f ss) = length ss"
  by (simp_all add: set_suffrage_def comp_def)

lemma set_voters_suffrage:
  "set (voters_of (set_suffrage i f ss)) =
     (if f = Voter then set (voters_of ss) \<union> ({i} \<inter> set (map sv_ID ss)) else set (voters_of ss) - {i})"
  by (induction ss) (auto simp: voters_of_def set_suffrage_def)

lemma voters_card: "distinct (map sv_ID ss) \<Longrightarrow> length (voters_of ss) = card (set (voters_of ss))"
  unfolding voters_of_def by (rule distinct_card [symmetric]) (rule distinct_map_filter)

lemma length_split: "length (voters_of ss) + length (nonvoters_of ss) = length ss"
  by (simp add: voters_of_def nonvoters_of_def sum_length_filter_compl)

lemma voters_promoted:
  assumes "distinct (map sv_ID ss)" "i \<in> set (nonvoters_of ss)"
  shows "set (voters_of (set_suffrage i Voter ss)) = insert i (set (voters_of ss))"
    and "length (voters_of (set_suffrage i Voter ss)) = Suc (length (voters_of ss))"
proof -
  show s: "set (voters_of (set_suffrage i Voter ss)) = insert i (set (voters_of ss))"
    using assms(2) unfolding set_voters_suffrage by (auto simp: nonvoters_of_def)
  have "i \<notin> set (voters_of ss)"
    using assms by (auto simp: voters_of_def nonvoters_of_def distinct_map inj_on_def)
  then show "length (voters_of (set_suffrage i Voter ss)) = Suc (length (voters_of ss))"
    using voters_card [of ss] voters_card [of "set_suffrage i Voter ss"] assms(1) by (simp add: s)
qed

lemma voters_demoted:
  assumes "distinct (map sv_ID ss)" "i \<in> set (voters_of ss)"
  shows "set (voters_of (set_suffrage i Nonvoter ss)) = set (voters_of ss) - {i}"
    and "length (voters_of (set_suffrage i Nonvoter ss)) = length (voters_of ss) - 1"
proof -
  show s: "set (voters_of (set_suffrage i Nonvoter ss)) = set (voters_of ss) - {i}"
    by (simp add: set_voters_suffrage)
  show "length (voters_of (set_suffrage i Nonvoter ss)) = length (voters_of ss) - 1"
    using voters_card [of ss] voters_card [of "set_suffrage i Nonvoter ss"] assms by (simp add: s)
qed

text \<open>
  A configuration a leader can work on: named servers with addresses, the leader a voter, all seen
  long enough before the ticks to come.
\<close>

definition ready_cluster :: "time list \<Rightarrow> Reconciler \<Rightarrow> Server list \<Rightarrow> bool" where
  "ready_cluster ts r ss \<longleftrightarrow> distinct (map sv_ID ss) \<and> '''' \<notin> set (map sv_ID ss) \<and> '''' \<notin> set (map sv_Address ss)
     \<and> rc_selfID r \<in> set (voters_of ss)
     \<and> (\<forall>i \<in> set (map sv_ID ss). \<exists>t. rc_firstSeen r i = Some t \<and> (\<forall>now \<in> set ts. now - t \<ge> PromoteAfter (rc_cfg r)))"

lemma stamp_ready:
  assumes "ready_cluster (now # ts) r ss" "i \<in> set (map sv_ID ss)"
  shows "stamp now ss (rc_firstSeen r) i = rc_firstSeen r i"
  using assms by (auto simp: ready_cluster_def stamp_def split: option.split)

lemma ready_promote:
  assumes "ready_cluster (now # ts) r ss" "int (length (voters_of ss)) < Target (int (length ss))"
  shows "\<exists>i addr. Tick True (Some ss) now r = (Some (AddVoter i addr (RaftOpTimeout (rc_cfg r))),
      r\<lparr>rc_firstSeen := stamp now ss (rc_firstSeen r)\<rparr>)
    \<and> i \<in> set (nonvoters_of ss) \<and> (\<forall>s \<in> set ss. sv_ID s = i \<longrightarrow> sv_Address s = addr)"
proof -
  let ?el = "\<lambda>i. case stamp now ss (rc_firstSeen r) i of None \<Rightarrow> False | Some t \<Rightarrow> now - t \<ge> PromoteAfter (rc_cfg r)"
  let ?pick = "PickPromote (sort (nonvoters_of ss)) ?el"
  have sub: "set (nonvoters_of ss) \<subseteq> set (map sv_ID ss)" by (auto simp: nonvoters_of_def)
  have "nonvoters_of ss \<noteq> []"
  proof
    assume "nonvoters_of ss = []"
    with length_split [of ss] have "length (voters_of ss) = length ss" by simp
    with assms(2) show False by (auto simp: Target_def split: if_splits)
  qed
  then obtain h where h: "h \<in> set (nonvoters_of ss)" by (meson last_in_set)
  with sub have "h \<in> set (map sv_ID ss)" by blast
  moreover from this assms(1) obtain t where "rc_firstSeen r h = Some t" "now - t \<ge> PromoteAfter (rc_cfg r)"
    unfolding ready_cluster_def by (meson list.set_intros(1))
  ultimately have "?el h" by (simp add: stamp_ready [OF assms(1)])
  have pick: "?pick \<noteq> ''''"
  proof
    assume "?pick = ''''"
    from PickPromote_none [OF this, of h] h \<open>?el h\<close> sub assms(1) show False by (auto simp: ready_cluster_def)
  qed
  from PickPromote_mem [OF this] have p: "?pick \<in> set (nonvoters_of ss)" by simp
  with sub obtain s where s: "s \<in> set ss" "sv_ID s = ?pick" by auto
  have d: "distinct (map fst (rev (map (\<lambda>s. (sv_ID s, sv_Address s)) ss)))"
    using assms(1) by (simp add: ready_cluster_def comp_def flip: rev_map)
  have addr: "map_of (rev (map (\<lambda>s. (sv_ID s, sv_Address s)) ss)) ?pick = Some (sv_Address s)"
    unfolding s(2) [symmetric] using s(1) by (intro map_of_is_SomeI [OF d]) auto
  have "Tick True (Some ss) now r = (Some (AddVoter ?pick (sv_Address s) (RaftOpTimeout (rc_cfg r))),
      r\<lparr>rc_firstSeen := stamp now ss (rc_firstSeen r)\<rparr>)"
  proof -
    have "sv_Address s \<noteq> ''''" using assms(1) s(1) by (metis image_eqI list.set_map ready_cluster_def)
    with assms(2) pick addr show ?thesis by (simp add: Tick_def Let_def cong: option.case_cong)
  qed
  moreover have "\<forall>s' \<in> set ss. sv_ID s' = ?pick \<longrightarrow> sv_Address s' = sv_Address s"
    using assms(1) s by (auto simp: ready_cluster_def distinct_map inj_on_def)
  ultimately show ?thesis using p by blast
qed

lemma ready_demote:
  assumes "ready_cluster (now # ts) r ss" "int (length (voters_of ss)) > Target (int (length ss))"
  shows "\<exists>i. Tick True (Some ss) now r = (Some (DemoteVoter i (RaftOpTimeout (rc_cfg r))),
      r\<lparr>rc_firstSeen := stamp now ss (rc_firstSeen r)\<rparr>)
    \<and> i \<in> set (voters_of ss) \<and> i \<noteq> rc_selfID r"
proof -
  let ?pick = "PickDemote (sort (voters_of ss)) (rc_selfID r)"
  have ne: "ss \<noteq> []" using assms(1) by (auto simp: ready_cluster_def voters_of_def)
  then have "Target (int (length ss)) \<ge> 1" by (intro Target_pos) (cases ss; simp)
  with assms(2) have "length (voters_of ss) > 1" by linarith
  moreover have "distinct (voters_of ss)" using assms(1) by (simp add: ready_cluster_def voters_of_def distinct_map_filter)
  ultimately have "\<not> set (voters_of ss) \<subseteq> {rc_selfID r}"
    using card_mono [of "{rc_selfID r}" "set (voters_of ss)"] by (auto simp: distinct_card)
  then obtain h where h: "h \<in> set (voters_of ss)" "h \<noteq> rc_selfID r" by blast
  have "?pick \<noteq> ''''"
  proof
    assume "?pick = ''''"
    moreover have "'''' \<notin> set (voters_of ss)" using assms(1) by (auto simp: ready_cluster_def voters_of_def)
    ultimately show False using PickDemote_none [of "sort (voters_of ss)" "rc_selfID r" h] h by simp
  qed
  moreover from PickDemote_mem [OF this] have "?pick \<in> set (voters_of ss)" "?pick \<noteq> rc_selfID r" by simp_all
  ultimately show ?thesis using assms by (auto simp: Tick_def Let_def)
qed


lemma ready_after:
  assumes "ready_cluster (now # ts) r ss" "map sv_ID ss' = map sv_ID ss" "map sv_Address ss' = map sv_Address ss"
    and "rc_selfID r \<in> set (voters_of ss')"
  shows "ready_cluster ts (r\<lparr>rc_firstSeen := stamp now ss (rc_firstSeen r)\<rparr>) ss'"
proof -
  have "\<exists>t. stamp now ss (rc_firstSeen r) i = Some t \<and> (\<forall>now \<in> set ts. now - t \<ge> PromoteAfter (rc_cfg r))"
    if "i \<in> set (map sv_ID ss)" for i
    using assms(1) that unfolding stamp_ready [OF assms(1) that] ready_cluster_def by auto
  with assms show ?thesis by (simp only: ready_cluster_def Reconciler.simps) simp
qed

lemma ready_step:
  assumes "raft_effect perform" "ready_cluster (now # ts) r ss"
  shows "\<exists>r' ss'. rounds perform (now # ts) r ss = rounds perform ts r' ss' \<and> ready_cluster ts r' ss'
    \<and> rc_selfID r' = rc_selfID r \<and> length ss' = length ss
    \<and> \<bar>int (length (voters_of ss')) - Target (int (length ss))\<bar> = max 0 (\<bar>int (length (voters_of ss)) - Target (int (length ss))\<bar> - 1)"
proof -
  let ?n = "int (length (voters_of ss))" and ?T = "Target (int (length ss))"
  let ?r = "r\<lparr>rc_firstSeen := stamp now ss (rc_firstSeen r)\<rparr>"
  have d: "distinct (map sv_ID ss)" and self: "rc_selfID r \<in> set (voters_of ss)"
    using assms(2) by (simp_all add: ready_cluster_def)
  consider (promote) "?n < ?T" | (demote) "?n > ?T" | (none) "?n = ?T" by linarith
  then show ?thesis
  proof cases
    case promote
    from ready_promote [OF assms(2) this] obtain i addr where t: "Tick True (Some ss) now r =
        (Some (AddVoter i addr (RaftOpTimeout (rc_cfg r))), ?r)" and i: "i \<in> set (nonvoters_of ss)"
        "\<forall>s \<in> set ss. sv_ID s = i \<longrightarrow> sv_Address s = addr" by blast
    have p: "perform (AddVoter i addr (RaftOpTimeout (rc_cfg r))) ss = set_suffrage i Voter ss"
      using assms(1) i(2) by (simp add: raft_effect_def)
    show ?thesis
      using voters_promoted [OF d i(1)] self promote
      by (intro exI [of _ ?r] exI [of _ "set_suffrage i Voter ss"] conjI ready_after [OF assms(2)]) (simp_all add: t p)
  next
    case demote
    from ready_demote [OF assms(2) this] obtain i where t: "Tick True (Some ss) now r =
        (Some (DemoteVoter i (RaftOpTimeout (rc_cfg r))), ?r)" and i: "i \<in> set (voters_of ss)" "i \<noteq> rc_selfID r" by blast
    have p: "perform (DemoteVoter i (RaftOpTimeout (rc_cfg r))) ss = set_suffrage i Nonvoter ss"
      using assms(1) by (simp add: raft_effect_def)
    have "length (voters_of ss) \<ge> 1" using i(1) by (cases "voters_of ss") auto
    then show ?thesis
      using voters_demoted [OF d i(1)] self i(2) demote
      by (intro exI [of _ ?r] exI [of _ "set_suffrage i Nonvoter ss"] conjI ready_after [OF assms(2)])
        (simp_all add: t p of_nat_diff)
  next
    case none
    then have t: "Tick True (Some ss) now r = (None, ?r)" by (simp add: Tick_def Let_def)
    show ?thesis
      using self none by (intro exI [of _ ?r] exI [of _ ss] conjI ready_after [OF assms(2)]) (simp_all add: t)
  qed
qed


section \<open>Examples\<close>

definition ex_server :: "string \<Rightarrow> ServerSuffrage \<Rightarrow> Server" where
  "ex_server i f = \<lparr>sv_ID = i, sv_Address = i @ '':7000'', sv_Suffrage = f\<rparr>"

definition ex_servers :: "Server list" where
  "ex_servers = [ex_server ''a'' Voter, ex_server ''b'' Nonvoter, ex_server ''c'' Nonvoter]"

definition ex_reconciler :: Reconciler where
  "ex_reconciler = (Reconciler_New ''a'' \<lparr>TickInterval = 0, PromoteAfter = 5, RaftOpTimeout = 2\<rparr>)
     \<lparr>rc_firstSeen := (\<lambda>i. if i \<in> {''a'', ''b'', ''c''} then Some 0 else None)\<rparr>"

text \<open>A raft whose calls have their documented effect.\<close>

definition ex_perform :: "raft_call \<Rightarrow> Server list \<Rightarrow> Server list" where
  "ex_perform c = (case c of AddVoter i _ _ \<Rightarrow> set_suffrage i Voter | DemoteVoter i _ \<Rightarrow> set_suffrage i Nonvoter)"

theorem voter_target_optimal_witness:
  "Target 4 = 3 \<and> odd (Target 4) \<and> (Target 4 - 1) div 2 = (min 4 MaxVoters - 1) div 2"
  using voter_target_optimal [of 4] by (simp add: Target_def MaxVoters_def)

theorem tick_safe_witness:
  "\<exists>call r'. Tick False (Some ex_servers) 9 ex_reconciler = (call, r') \<and> call = None \<and> rc_firstSeen r' = Map.empty"
proof -
  obtain call r' where t: "Tick False (Some ex_servers) 9 ex_reconciler = (call, r')" by (metis surj_pair)
  from tick_safe [OF t] t show ?thesis by blast
qed


end
