(* ===== verification/Admission.thy ===== *)
theory Admission
  imports FsmProps
begin

text \<open>
  Admission of gRPC calls: the bearer-token gate of
  \<^verbatim>\<open>internal/controlplane/admission/admission.go\<close> and the gate of an uninitialised daemon,
  \<^verbatim>\<open>internal/daemon/admission/initgate.go\<close>. A request context carries the network of its peer
  (\<open>None\<close> when gRPC knows no peer address), the values of its \<open>authorization\<close> header (\<open>None\<close>
  without metadata) and the identity attached to it. \<open>sha256\<close> is the hash of the Go library and
  stays a parameter: the theorems hold for every function. A handler maps a context to a result.
\<close>

section \<open>Bearer tokens\<close>

record request_ctx =
  cx_peer_network :: "string option"
  cx_authorization :: "string list option"
  cx_identity :: "string option"

datatype grpc_error = Unauthenticated string string | Unavailable string | HandlerError string

definition LocalIdentity :: string where
  "LocalIdentity = ''local''"

definition IdentityFromContext :: "request_ctx \<Rightarrow> string" where
  "IdentityFromContext ctx = (case cx_identity ctx of Some v \<Rightarrow> v | None \<Rightarrow> '''')"

definition UnauthMethods :: "string list" where
  "UnauthMethods = [''/jaco.v1.Cluster/NodeJoin'', ''/jaco.v1.Cluster/Status'', ''/jaco.v1.Internal/Submit'',
     ''/jaco.v1.Internal/SignNodeCert'', ''/jaco.v1.Internal/Logs'', ''/jaco.v1.Internal/EnsureSubnet'']"

definition authError :: "string \<Rightarrow> string \<Rightarrow> grpc_error" where
  "authError code msg = Unauthenticated code msg"

definition isUnixPeer :: "request_ctx \<Rightarrow> bool" where
  "isUnixPeer ctx = (case cx_peer_network ctx of None \<Rightarrow> False | Some n \<Rightarrow> n = ''unix'')"

definition TrimPrefix :: "string \<Rightarrow> string \<Rightarrow> string" where
  "TrimPrefix s p = (if prefix p s then drop (length p) s else s)"

definition authResolve :: "(string \<Rightarrow> bytes) \<Rightarrow> request_ctx \<Rightarrow> State \<Rightarrow> grpc_error + request_ctx" where
  "authResolve sha256 ctx s =
     (if isUnixPeer ctx then Inr (ctx\<lparr>cx_identity := Some LocalIdentity\<rparr>)
      else case cx_authorization ctx of
             None \<Rightarrow> Inl (authError ''token_invalid'' ''missing metadata'')
           | Some auths \<Rightarrow>
               if length auths = 0 then Inl (authError ''token_invalid'' ''missing authorization header'')
               else
                 let token = TrimPrefix (auths ! 0) ''Bearer ''
                 in if token = '''' \<or> token = auths ! 0
                    then Inl (authError ''token_invalid'' ''authorization header must use Bearer scheme'')
                    else case LookupTokenByHash (Tokens s) (sha256 token) of
                           None \<Rightarrow> Inl (authError ''token_invalid'' ''unknown token'')
                         | Some t \<Rightarrow>
                             if tk_revoked_at t \<noteq> None
                             then Inl (authError ''token_revoked'' ''token has been revoked'')
                             else Inr (ctx\<lparr>cx_identity := Some (tk_identity t)\<rparr>))"

definition UnaryInterceptor :: "(string \<Rightarrow> bytes) \<Rightarrow> State \<Rightarrow> string \<Rightarrow> request_ctx
    \<Rightarrow> (request_ctx \<Rightarrow> grpc_error + 'r) \<Rightarrow> grpc_error + 'r" where
  "UnaryInterceptor sha256 s fullMethod ctx handler =
     (if fullMethod \<in> set UnauthMethods then handler ctx
      else case authResolve sha256 ctx s of Inl err \<Rightarrow> Inl err | Inr newCtx \<Rightarrow> handler newCtx)"

text \<open>A stream with its context; the messages of the stream are the rest of the record.\<close>

record 'm ServerStream =
  st_context :: request_ctx
  st_messages :: 'm

definition wrappedStream :: "'m ServerStream \<Rightarrow> request_ctx \<Rightarrow> 'm ServerStream" where
  "wrappedStream ss ctx = ss\<lparr>st_context := ctx\<rparr>"

definition StreamInterceptor :: "(string \<Rightarrow> bytes) \<Rightarrow> State \<Rightarrow> string \<Rightarrow> 'm ServerStream
    \<Rightarrow> ('m ServerStream \<Rightarrow> grpc_error option) \<Rightarrow> grpc_error option" where
  "StreamInterceptor sha256 s fullMethod ss handler =
     (if fullMethod \<in> set UnauthMethods then handler ss
      else case authResolve sha256 (st_context ss) s of
             Inl err \<Rightarrow> Some err
           | Inr newCtx \<Rightarrow> handler (wrappedStream ss newCtx))"

section \<open>The gate of an uninitialised daemon\<close>

definition AllowedPreInit :: "string list" where
  "AllowedPreInit = [''/jaco.v1.Cluster/Init'', ''/jaco.v1.Cluster/Join'', ''/jaco.v1.Cluster/Status'']"

record InitGate =
  ig_initialized :: bool

definition InitGate_New :: InitGate where
  "InitGate_New = \<lparr>ig_initialized = False\<rparr>"

definition MarkInitialized :: "InitGate \<Rightarrow> InitGate" where
  "MarkInitialized g = g\<lparr>ig_initialized := True\<rparr>"

definition IsInitialized :: "InitGate \<Rightarrow> bool" where
  "IsInitialized g = ig_initialized g"

definition uninitialized :: grpc_error where
  "uninitialized = Unavailable
     (''cluster_uninitialized: daemon has no raft state '' @ [CHR 0xE2, CHR 0x80, CHR 0x94]
      @ '' run `jaco cluster init` or `jaco node join`'')"

text \<open>\<open>next\<close> is the wrapped interceptor, applied to the method; it may be nil.\<close>

definition Gate_UnaryInterceptor :: "InitGate \<Rightarrow> (string \<Rightarrow> request_ctx \<Rightarrow> (request_ctx \<Rightarrow> grpc_error + 'r) \<Rightarrow> grpc_error + 'r) option
    \<Rightarrow> string \<Rightarrow> request_ctx \<Rightarrow> (request_ctx \<Rightarrow> grpc_error + 'r) \<Rightarrow> grpc_error + 'r" where
  "Gate_UnaryInterceptor g next' fullMethod ctx handler =
     (if ig_initialized g
      then (case next' of None \<Rightarrow> handler ctx | Some n \<Rightarrow> n fullMethod ctx handler)
      else if fullMethod \<in> set AllowedPreInit then handler ctx
      else Inl uninitialized)"

definition Gate_StreamInterceptor :: "InitGate \<Rightarrow> (string \<Rightarrow> 'm ServerStream \<Rightarrow> ('m ServerStream \<Rightarrow> grpc_error option) \<Rightarrow> grpc_error option) option
    \<Rightarrow> string \<Rightarrow> 'm ServerStream \<Rightarrow> ('m ServerStream \<Rightarrow> grpc_error option) \<Rightarrow> grpc_error option" where
  "Gate_StreamInterceptor g next' fullMethod ss handler =
     (if ig_initialized g
      then (case next' of None \<Rightarrow> handler ss | Some n \<Rightarrow> n fullMethod ss handler)
      else if fullMethod \<in> set AllowedPreInit then handler ss
      else Some uninitialized)"

section \<open>Who gets through\<close>

text \<open>The identity a request may act under.\<close>

inductive entitled :: "(string \<Rightarrow> bytes) \<Rightarrow> State \<Rightarrow> request_ctx \<Rightarrow> string \<Rightarrow> bool" for sha256 s ctx where
  socket: "cx_peer_network ctx = Some ''unix'' \<Longrightarrow> entitled sha256 s ctx LocalIdentity"
| bearer: "cx_peer_network ctx \<noteq> Some ''unix'' \<Longrightarrow> cx_authorization ctx = Some ((''Bearer '' @ token) # auths) \<Longrightarrow> token \<noteq> ''''
    \<Longrightarrow> t \<in> set (Store_List (Tokens s)) \<Longrightarrow> tk_hashed_secret t = sha256 token \<Longrightarrow> tk_revoked_at t = None
    \<Longrightarrow> entitled sha256 s ctx (tk_identity t)"

lemma TrimPrefix_neq: "TrimPrefix x p \<noteq> x \<Longrightarrow> x = p @ TrimPrefix x p"
  by (auto simp: TrimPrefix_def elim!: prefixE split: if_splits)

lemma authResolve_entitled:
  assumes "authResolve sha256 ctx s = Inr ctx'"
  shows "\<exists>i. ctx' = ctx\<lparr>cx_identity := Some i\<rparr> \<and> entitled sha256 s ctx i"
proof (cases "isUnixPeer ctx")
  case True
  then have "cx_peer_network ctx = Some ''unix''" by (auto simp: isUnixPeer_def split: option.splits)
  with assms True show ?thesis by (auto simp: authResolve_def intro: entitled.socket)
next
  case False
  with assms obtain x xs t where x: "cx_authorization ctx = Some (x # xs)" "TrimPrefix x ''Bearer '' \<noteq> ''''"
      "TrimPrefix x ''Bearer '' \<noteq> x" and t: "LookupTokenByHash (Tokens s) (sha256 (TrimPrefix x ''Bearer '')) = Some t"
      "tk_revoked_at t = None" "ctx' = ctx\<lparr>cx_identity := Some (tk_identity t)\<rparr>"
    by (auto simp: authResolve_def Let_def neq_Nil_conv split: option.splits if_splits)
  from t(1) have "t \<in> set (Store_List (Tokens s))" "tk_hashed_secret t = sha256 (TrimPrefix x ''Bearer '')"
    by (auto simp: LookupTokenByHash_def find_Some_iff)
  moreover have "cx_peer_network ctx \<noteq> Some ''unix''" using False by (auto simp: isUnixPeer_def)
  ultimately have "entitled sha256 s ctx (tk_identity t)"
    using x t(2) TrimPrefix_neq [OF x(3)] by (intro entitled.bearer [of _ "TrimPrefix x ''Bearer ''" xs]) simp_all
  with t(3) show ?thesis by blast
qed


lemma authResolve_complete:
  assumes "inj_on tk_hashed_secret (set (Store_List (Tokens s)))" "entitled sha256 s ctx i"
  shows "authResolve sha256 ctx s = Inr (ctx\<lparr>cx_identity := Some i\<rparr>)"
  using assms(2)
proof cases
  case socket
  then show ?thesis by (simp add: authResolve_def isUnixPeer_def)
next
  case (bearer token auths t)
  have "LookupTokenByHash (Tokens s) (sha256 token) = Some t"
  proof (cases "LookupTokenByHash (Tokens s) (sha256 token)")
    case None
    with bearer show ?thesis by (auto simp: LookupTokenByHash_def find_None_iff)
  next
    case (Some t')
    then have "t' \<in> set (Store_List (Tokens s))" "tk_hashed_secret t' = sha256 token"
      by (auto simp: LookupTokenByHash_def find_Some_iff)
    with bearer assms(1) have "t' = t" by (auto simp: inj_on_def)
    with Some show ?thesis by simp
  qed
  with bearer show ?thesis by (simp add: authResolve_def isUnixPeer_def TrimPrefix_def split: option.split)
qed

text \<open>The two gates as the daemon stacks them: the context a handler is run with, or the error.\<close>

definition admit :: "InitGate \<Rightarrow> (string \<Rightarrow> bytes) \<Rightarrow> State \<Rightarrow> string \<Rightarrow> request_ctx \<Rightarrow> grpc_error + request_ctx" where
  "admit g sha256 s fullMethod ctx = Gate_UnaryInterceptor g (Some (UnaryInterceptor sha256 s)) fullMethod ctx Inr"

text \<open>
  C20. Admission is exact: unary and streaming handlers run with the same context or are refused
  together; before initialisation only the three methods of \<open>AllowedPreInit\<close> run; afterwards a
  method that is not exempt runs exactly for a peer on the unix socket, as \<open>local\<close>, or for a bearer
  token that is stored and not revoked, under the identity of that token.
\<close>

theorem admission_exact:
  assumes "inj_on tk_hashed_secret (set (Store_List (Tokens s)))"
  shows "Gate_UnaryInterceptor g (Some (UnaryInterceptor sha256 s)) m ctx handler
      = (case admit g sha256 s m ctx of Inl e \<Rightarrow> Inl e | Inr c \<Rightarrow> handler c)
    \<and> Gate_StreamInterceptor g (Some (StreamInterceptor sha256 s)) m ss shandler
      = (case admit g sha256 s m (st_context ss) of Inl e \<Rightarrow> Some e | Inr c \<Rightarrow> shandler (wrappedStream ss c))
    \<and> (admit g sha256 s m ctx = Inr c \<longleftrightarrow>
         (if \<not> IsInitialized g then m \<in> set AllowedPreInit \<and> c = ctx
          else if m \<in> set UnauthMethods then c = ctx
          else \<exists>i. c = ctx\<lparr>cx_identity := Some i\<rparr> \<and> entitled sha256 s ctx i))"
proof (intro conjI)
  show "Gate_UnaryInterceptor g (Some (UnaryInterceptor sha256 s)) m ctx handler
      = (case admit g sha256 s m ctx of Inl e \<Rightarrow> Inl e | Inr c \<Rightarrow> handler c)"
    by (simp add: admit_def Gate_UnaryInterceptor_def UnaryInterceptor_def split: sum.split)
  show "Gate_StreamInterceptor g (Some (StreamInterceptor sha256 s)) m ss shandler
      = (case admit g sha256 s m (st_context ss) of Inl e \<Rightarrow> Some e | Inr c \<Rightarrow> shandler (wrappedStream ss c))"
    by (simp add: admit_def Gate_UnaryInterceptor_def UnaryInterceptor_def Gate_StreamInterceptor_def
        StreamInterceptor_def wrappedStream_def split: sum.split)
  have "authResolve sha256 ctx s = Inr c \<longleftrightarrow> (\<exists>i. c = ctx\<lparr>cx_identity := Some i\<rparr> \<and> entitled sha256 s ctx i)"
    using authResolve_entitled [of sha256 ctx s c] authResolve_complete [OF assms] by blast
  then show "admit g sha256 s m ctx = Inr c \<longleftrightarrow>
         (if \<not> IsInitialized g then m \<in> set AllowedPreInit \<and> c = ctx
          else if m \<in> set UnauthMethods then c = ctx
          else \<exists>i. c = ctx\<lparr>cx_identity := Some i\<rparr> \<and> entitled sha256 s ctx i)"
    by (auto simp: admit_def Gate_UnaryInterceptor_def UnaryInterceptor_def IsInitialized_def split: sum.split)
qed

text \<open>
  A revoked token stays locked out: after its revocation, along every log that does not issue
  its identity again, a TCP request with that token gets \<open>token_revoked\<close> on every method that is
  not exempt and no handler runs.
\<close>

theorem revoked_token_locked_out:
  assumes "state_ok s" "token_revoked ident (sha256 token) s" "leaves_sat (no_reissue ident) es"
    and "\<forall>t \<in> set (Store_List (Tokens (run_log es s))). tk_hashed_secret t = sha256 token \<longrightarrow> tk_identity t = ident"
    and "cx_peer_network ctx = Some ''tcp''" "cx_authorization ctx = Some ((''Bearer '' @ token) # auths)" "token \<noteq> ''''"
    and "m \<notin> set UnauthMethods" "IsInitialized g"
  shows "Gate_UnaryInterceptor g (Some (UnaryInterceptor sha256 (run_log es s))) m ctx handler
    = Inl (Unauthenticated ''token_revoked'' ''token has been revoked'')"
proof -
  let ?s = "run_log es s"
  have kept: "revoked_kept ident (sha256 token) ?s"
    using revoked_inv.run_log_keeps [of ident "sha256 token" s es] assms(1-3) by (simp add: revoked_kept_def)
  then have ok: "store_ok tk_identity (Tokens ?s)" by (simp add: revoked_kept_def state_ok_def)
  from kept obtain t where t: "Store_Get (Tokens ?s) ident = Some t" "tk_revoked_at t \<noteq> None" "tk_hashed_secret t = sha256 token"
    by (auto simp: revoked_kept_def token_revoked_def split: option.splits)
  have "t \<in> set (Store_List (Tokens ?s))" unfolding Store_List_ran [OF ok] using t(1) by (rule ranI)
  then obtain t' where t': "LookupTokenByHash (Tokens ?s) (sha256 token) = Some t'"
    using t(3) by (cases "LookupTokenByHash (Tokens ?s) (sha256 token)") (auto simp: LookupTokenByHash_def find_None_iff)
  then have m': "t' \<in> set (Store_List (Tokens ?s))" "tk_hashed_secret t' = sha256 token"
    by (auto simp: LookupTokenByHash_def find_Some_iff)
  then have "tk_identity t' = ident" using assms(4) by blast
  with m'(1) have "Store_Get (Tokens ?s) ident = Some t'" by (auto simp: kst.entries_iff [OF ok])
  with t have "tk_revoked_at t' \<noteq> None" by simp
  with t' assms(5-9) show ?thesis
    by (simp add: Gate_UnaryInterceptor_def UnaryInterceptor_def IsInitialized_def authResolve_def isUnixPeer_def
        TrimPrefix_def authError_def)
qed

section \<open>Examples\<close>

text \<open>Two operators; the token of \<open>bob\<close> has been revoked. The hash is a stand-in.\<close>

definition ex_tokens :: State where
  "ex_tokens = run_log [(1, mk_cmd ''op'' 1 (TokenIssue ''ann'' ''H1'' False)),
     (2, mk_cmd ''op'' 2 (TokenIssue ''bob'' ''H2'' False)), (3, mk_cmd ''op'' 3 (TokenRevoke ''bob''))] State_New"

definition ex_sha :: "string \<Rightarrow> bytes" where
  "ex_sha x = ''H'' @ x"

definition ex_request :: "string \<Rightarrow> request_ctx" where
  "ex_request x = \<lparr>cx_peer_network = Some ''tcp'', cx_authorization = Some [''Bearer '' @ x], cx_identity = None\<rparr>"


lemma ex_tokens_ok: "state_ok ex_tokens"
  unfolding ex_tokens_def by (rule ok_inv.run_log_keeps) simp_all

lemma ex_tokens_list:
  "map (\<lambda>t. (tk_identity t, tk_hashed_secret t, tk_revoked_at t)) (Store_List (Tokens ex_tokens))
     = [(''ann'', ''H1'', None), (''bob'', ''H2'', Some 3)]"
  by code_simp

lemma ex_tokens_sel:
  "map tk_hashed_secret (Store_List (Tokens ex_tokens)) = [''H1'', ''H2'']"
  "\<forall>t \<in> set (Store_List (Tokens ex_tokens)). tk_hashed_secret t = ''H2'' \<longrightarrow> tk_identity t = ''bob''"
  by code_simp+

theorem admission_exact_witness:
  "admit (MarkInitialized InitGate_New) ex_sha ex_tokens ''/jaco.v1.Deploy/Apply'' (ex_request ''1'')
     = Inr ((ex_request ''1'')\<lparr>cx_identity := Some ''ann''\<rparr>)
   \<and> isl (admit InitGate_New ex_sha ex_tokens ''/jaco.v1.Deploy/Apply'' (ex_request ''1''))"
proof -
  have inj: "inj_on tk_hashed_secret (set (Store_List (Tokens ex_tokens)))"
  proof -
    have "distinct (map tk_hashed_secret (Store_List (Tokens ex_tokens)))" unfolding ex_tokens_sel(1) by simp
    then show ?thesis by (simp add: distinct_map)
  qed
  obtain t where t: "t \<in> set (Store_List (Tokens ex_tokens))" "tk_identity t = ''ann''" "tk_hashed_secret t = ''H1''"
      "tk_revoked_at t = None"
    using ex_tokens_list by (cases "Store_List (Tokens ex_tokens)") auto
  have "entitled ex_sha ex_tokens (ex_request ''1'') (tk_identity t)"
    using t by (intro entitled.bearer [of _ "''1''" "[]" t]) (simp_all add: ex_request_def ex_sha_def)
  then have e: "entitled ex_sha ex_tokens (ex_request ''1'') ''ann''" unfolding t(2) .
  have m: "''/jaco.v1.Deploy/Apply'' \<notin> set UnauthMethods" "''/jaco.v1.Deploy/Apply'' \<notin> set AllowedPreInit"
    by code_simp+
  have init: "IsInitialized (MarkInitialized InitGate_New)" "\<not> IsInitialized InitGate_New"
    by (simp_all add: IsInitialized_def MarkInitialized_def InitGate_New_def)
  note a = admission_exact [OF inj, THEN conjunct2, THEN conjunct2]
  have "\<forall>c. admit InitGate_New ex_sha ex_tokens ''/jaco.v1.Deploy/Apply'' (ex_request ''1'') \<noteq> Inr c"
    using m(2) init(2) by (subst a) (simp only: simp_thms if_True)
  then have "isl (admit InitGate_New ex_sha ex_tokens ''/jaco.v1.Deploy/Apply'' (ex_request ''1''))"
    by (cases "admit InitGate_New ex_sha ex_tokens ''/jaco.v1.Deploy/Apply'' (ex_request ''1'')") auto
  moreover have "admit (MarkInitialized InitGate_New) ex_sha ex_tokens ''/jaco.v1.Deploy/Apply'' (ex_request ''1'')
     = Inr ((ex_request ''1'')\<lparr>cx_identity := Some ''ann''\<rparr>)"
    using e m(1) init(1) by (subst a) auto
  ultimately show ?thesis by blast
qed

theorem revoked_token_locked_out_witness:
  "Gate_UnaryInterceptor (MarkInitialized InitGate_New) (Some (UnaryInterceptor ex_sha (run_log [] ex_tokens)))
     ''/jaco.v1.Deploy/Apply'' (ex_request ''2'') (\<lambda>_. Inr ()) = Inl (Unauthenticated ''token_revoked'' ''token has been revoked'')"
proof (rule revoked_token_locked_out [OF ex_tokens_ok])
  show "token_revoked ''bob'' (ex_sha ''2'') ex_tokens" by code_simp
  show "\<forall>t \<in> set (Store_List (Tokens (run_log [] ex_tokens))). tk_hashed_secret t = ex_sha ''2'' \<longrightarrow> tk_identity t = ''bob''"
    using ex_tokens_sel(2) by (simp add: ex_sha_def)
  show "''/jaco.v1.Deploy/Apply'' \<notin> set UnauthMethods" by code_simp
qed (simp_all add: ex_request_def IsInitialized_def MarkInitialized_def leaves_sat_def)

end
