(* ===== verification/Rebalance.thy ===== *)
theory Rebalance
  imports Applier Placement
begin

text \<open>
  The pressure-based rebalancer, \<^verbatim>\<open>internal/scheduler/rebalance\<close>: moving averages (\<^verbatim>\<open>ewma.go\<close>),
  pressure (\<^verbatim>\<open>pressure.go\<close>, \<^verbatim>\<open>state_source.go\<close>), the gates and the score of a move
  (\<^verbatim>\<open>scorer.go\<close>), the audit entries (\<^verbatim>\<open>audit.go\<close>) and one cycle (\<^verbatim>\<open>rebalance.go\<close>).

  A \<open>float64\<close> is a real number, so rounding is not modelled; \<open>fmt\<close> prints a float with four
  decimals and stays a parameter. The order in which Go iterates the map of samples is arbitrary:
  \<open>order\<close> is the order of the scan for the hot host and \<open>dsts\<close>, per replica, the order in which
  destinations are tried. \<open>sort.Slice\<close> leaves the order of equal elements open; the model takes
  the first best survivor, which covers every outcome since \<open>dsts\<close> is arbitrary. The clock is read
  once per cycle, so the move and its audit entries carry the time of the cycle.
\<close>

section \<open>Pressure\<close>

record PressureSnapshot =
  ps_CPU :: real
  ps_Memory :: real

record Footprint =
  fp_CPU :: real
  fp_Memory :: real

datatype Dimension = DimCPU | DimMemory

definition Composite :: "PressureSnapshot \<Rightarrow> real" where
  "Composite s = (if ps_Memory s > ps_CPU s then ps_Memory s else ps_CPU s)"

definition Dominant :: "PressureSnapshot \<Rightarrow> Dimension" where
  "Dominant s = (if ps_Memory s > ps_CPU s then DimMemory else DimCPU)"

definition Dimension_String :: "Dimension \<Rightarrow> string" where
  "Dimension_String d = (if d = DimMemory then ''memory'' else ''cpu'')"

definition NoopSource_NodePressure :: "string \<Rightarrow> PressureSnapshot option" where
  "NoopSource_NodePressure host = None"

definition NoopSource_ReplicaFootprint :: "string \<Rightarrow> Footprint" where
  "NoopSource_ReplicaFootprint replicaID = \<lparr>fp_CPU = 0, fp_Memory = 0\<rparr>"

section \<open>Moving averages\<close>

record EWMA =
  ew_window :: int
  ew_value :: real
  ew_hasData :: bool
  ew_lastAt :: time

definition NewEWMA :: "int \<Rightarrow> EWMA" where
  "NewEWMA window = \<lparr>ew_window = (if window \<le> 0 then 1 else window), ew_value = 0, ew_hasData = False, ew_lastAt = 0\<rparr>"

definition EWMA_Update :: "time \<Rightarrow> real \<Rightarrow> EWMA \<Rightarrow> EWMA" where
  "EWMA_Update now sample e =
     (if \<not> ew_hasData e then e\<lparr>ew_value := sample, ew_lastAt := now, ew_hasData := True\<rparr>
      else
        let dt = now - ew_lastAt e;
            dt = (if dt < 0 then 0 else dt);
            alpha = 1 - exp (- (real_of_int dt / real_of_int (ew_window e)))
        in e\<lparr>ew_value := ew_value e + alpha * (sample - ew_value e), ew_lastAt := now\<rparr>)"

definition EWMA_Value :: "EWMA \<Rightarrow> real" where
  "EWMA_Value e = ew_value e"

definition EWMA_HasData :: "EWMA \<Rightarrow> bool" where
  "EWMA_HasData e = ew_hasData e"

section \<open>Configuration\<close>

record Config =
  cf_TriggerThreshold :: real
  cf_ImbalanceGap :: real
  cf_ReliefFloor :: real
  cf_DstCap :: real
  cf_CooldownReplica :: int
  cf_CooldownNode :: int
  cf_CycleInterval :: int
  cf_ConsecutiveCycles :: int

definition DefaultConfig :: Config where
  "DefaultConfig = \<lparr>cf_TriggerThreshold = 85 / 100, cf_ImbalanceGap = 25 / 100, cf_ReliefFloor = 10 / 100,
     cf_DstCap = 75 / 100, cf_CooldownReplica = 10 * 60 * 1000000000, cf_CooldownNode = 2 * 60 * 1000000000,
     cf_CycleInterval = 30 * 1000000000, cf_ConsecutiveCycles = 2\<rparr>"

section \<open>Candidates\<close>

record MoveCandidate =
  mc_Replica :: ReplicaDesired
  mc_Src :: string
  mc_Dst :: string
  mc_Spec :: "ServiceSpec option"
  mc_Footprint :: Footprint
  mc_SrcPressure :: PressureSnapshot
  mc_DstPressure :: PressureSnapshot
  mc_PerHostCount :: nat
  mc_DstResourceFits :: bool

datatype SkipReason = SkipNone | SkipResourceLimits | SkipAntiAffinity | SkipCooldownReplica | SkipCooldownNode
  | SkipDstCap | SkipReliefFloor | SkipNoEligibleDst | SkipNoCandidate

fun SkipReason_String :: "SkipReason \<Rightarrow> string" where
  "SkipReason_String SkipNone = ''''"
| "SkipReason_String SkipResourceLimits = ''resource_limits''"
| "SkipReason_String SkipAntiAffinity = ''anti_affinity''"
| "SkipReason_String SkipCooldownReplica = ''cooldown_replica''"
| "SkipReason_String SkipCooldownNode = ''cooldown_node''"
| "SkipReason_String SkipDstCap = ''dst_cap''"
| "SkipReason_String SkipReliefFloor = ''relief_floor''"
| "SkipReason_String SkipNoEligibleDst = ''no_eligible_dst''"
| "SkipReason_String SkipNoCandidate = ''no_candidate''"

definition moveCost :: real where
  "moveCost = 1 / 100"

definition antiAffinityOK :: "MoveCandidate \<Rightarrow> bool" where
  "antiAffinityOK c =
     (case mc_Spec c of
        None \<Rightarrow> True
      | Some spec \<Rightarrow>
          (case ss_placement spec of
             PM_HOSTS \<Rightarrow> mc_Dst c \<in> set (ss_hosts spec)
           | PM_SPREAD \<Rightarrow> mc_PerHostCount c = 0
           | PM_GLOBAL \<Rightarrow> False
           | _ \<Rightarrow> True))"

definition HardFilter :: "MoveCandidate \<Rightarrow> SkipReason" where
  "HardFilter c =
     (if \<not> mc_DstResourceFits c then SkipResourceLimits
      else if \<not> antiAffinityOK c then SkipAntiAffinity
      else SkipNone)"

definition reliefEstimate :: "MoveCandidate \<Rightarrow> real" where
  "reliefEstimate c =
     (if Dominant (mc_SrcPressure c) = DimMemory then fp_Memory (mc_Footprint c) else fp_CPU (mc_Footprint c))"

definition Score :: "MoveCandidate \<Rightarrow> real" where
  "Score c = reliefEstimate c - moveCost"

definition PostMovePressure :: "MoveCandidate \<Rightarrow> PressureSnapshot \<times> PressureSnapshot" where
  "PostMovePressure c =
     (let post = mc_SrcPressure c; postDst = mc_DstPressure c;
          cpu = ps_CPU post - fp_CPU (mc_Footprint c);
          mem = ps_Memory post - fp_Memory (mc_Footprint c)
      in (\<lparr>ps_CPU = (if cpu < 0 then 0 else cpu), ps_Memory = (if mem < 0 then 0 else mem)\<rparr>,
          \<lparr>ps_CPU = ps_CPU postDst + fp_CPU (mc_Footprint c), ps_Memory = ps_Memory postDst + fp_Memory (mc_Footprint c)\<rparr>))"

definition dstResourceFits :: "PressureSnapshot \<Rightarrow> Footprint \<Rightarrow> bool" where
  "dstResourceFits dst fp =
     (if ps_CPU dst + fp_CPU fp > 1 then False
      else if ps_Memory dst + fp_Memory fp > 1 then False
      else True)"

definition mustPostSrc :: "MoveCandidate \<Rightarrow> PressureSnapshot" where
  "mustPostSrc c = fst (PostMovePressure c)"

section \<open>The source of samples\<close>

definition StateBackedSource_NodePressure :: "State \<Rightarrow> int \<Rightarrow> time \<Rightarrow> string \<Rightarrow> PressureSnapshot option" where
  "StateBackedSource_NodePressure s maxAge now host =
     (case Store_Get (Nodes s) host of
        None \<Rightarrow> None
      | Some node \<Rightarrow>
          (case nd_last_pressure_at node of
             None \<Rightarrow> None
           | Some ts \<Rightarrow>
               if maxAge > 0 \<and> now - ts > maxAge then None
               else Some \<lparr>ps_CPU = nd_cpu_pressure node, ps_Memory = nd_memory_pressure node\<rparr>))"

definition defaultFootprint :: Footprint where
  "defaultFootprint = \<lparr>fp_CPU = 12 / 100, fp_Memory = 6 / 100\<rparr>"

definition StateBackedSource_ReplicaFootprint :: "(string \<Rightarrow> real \<times> real) option \<Rightarrow> string \<Rightarrow> Footprint" where
  "StateBackedSource_ReplicaFootprint footprintFor replicaID =
     (case footprintFor of
        None \<Rightarrow> defaultFootprint
      | Some f \<Rightarrow>
          (let (cpu, mem) = f replicaID
           in if cpu = 0 \<and> mem = 0 then defaultFootprint else \<lparr>fp_CPU = cpu, fp_Memory = mem\<rparr>))"

section \<open>Audit entries\<close>

definition auditPayload :: "(real \<Rightarrow> string) \<Rightarrow> MoveCandidate \<Rightarrow> real \<Rightarrow> real \<Rightarrow> Dimension \<Rightarrow> SkipReason \<Rightarrow> strmap" where
  "auditPayload fmt c score relief dominant reason =
     (let (postSrc, postDst) = PostMovePressure c;
          p = [''replica_id'' \<mapsto> rd_id (mc_Replica c),
               ''deployment'' \<mapsto> rd_deployment (mc_Replica c),
               ''service'' \<mapsto> rd_service (mc_Replica c),
               ''src'' \<mapsto> mc_Src c,
               ''dst'' \<mapsto> mc_Dst c,
               ''dominant'' \<mapsto> Dimension_String dominant,
               ''relief'' \<mapsto> fmt relief,
               ''score'' \<mapsto> fmt score,
               ''move_cost'' \<mapsto> fmt moveCost,
               ''src_pressure_before'' \<mapsto> fmt (Composite (mc_SrcPressure c)),
               ''dst_pressure_before'' \<mapsto> fmt (Composite (mc_DstPressure c)),
               ''src_pressure_after'' \<mapsto> fmt (Composite postSrc),
               ''dst_pressure_after'' \<mapsto> fmt (Composite postDst)]
      in if reason \<noteq> SkipNone then p(''reason'' \<mapsto> SkipReason_String reason) else p)"

definition emitAudit :: "applier \<Rightarrow> time \<Rightarrow> AuditEventType \<Rightarrow> strmap \<Rightarrow> State \<Rightarrow> string option \<times> State" where
  "emitAudit submit now t payload s =
     submit (mk_cmd ''scheduler/rebalance'' now (AuditAppend (Some
       \<lparr>ae_raft_index = 0, ae_type = t, ae_identity = '''', ae_ts = None, ae_payload = payload\<rparr>))) s"

section \<open>A cycle\<close>

record Rebalancer =
  rb_cfg :: Config
  rb_pressureEWMA :: "string \<rightharpoonup> EWMA"
  rb_consecutiveOverThreshold :: "string \<Rightarrow> int"
  rb_lastReplicaMoveAt :: "string \<rightharpoonup> time"
  rb_lastNodeMoveAt :: "string \<rightharpoonup> time"

definition Rebalancer_New :: "Config \<Rightarrow> Rebalancer" where
  "Rebalancer_New cfg = \<lparr>rb_cfg = cfg, rb_pressureEWMA = Map.empty, rb_consecutiveOverThreshold = (\<lambda>_. 0),
     rb_lastReplicaMoveAt = Map.empty, rb_lastNodeMoveAt = Map.empty\<rparr>"

text \<open>The samples of the known nodes, folded into the averages.\<close>

fun sample_nodes :: "time \<Rightarrow> (string \<Rightarrow> PressureSnapshot option) \<Rightarrow> Node list \<Rightarrow> (string \<rightharpoonup> EWMA)
    \<Rightarrow> (string \<times> PressureSnapshot) list \<times> (string \<rightharpoonup> EWMA)" where
  "sample_nodes now nodePressure [] ew = ([], ew)"
| "sample_nodes now nodePressure (n # ns) ew =
     (case nodePressure (nd_hostname n) of
        None \<Rightarrow> sample_nodes now nodePressure ns ew
      | Some snap \<Rightarrow>
          (let e = (case ew (nd_hostname n) of None \<Rightarrow> NewEWMA (5 * 60 * 1000000000) | Some e \<Rightarrow> e);
               (snaps, ew') = sample_nodes now nodePressure ns
                 (ew(nd_hostname n \<mapsto> EWMA_Update now (Composite snap) e))
           in ((nd_hostname n, snap) # snaps, ew')))"

fun hot_scan :: "(string \<Rightarrow> real) \<Rightarrow> string list \<Rightarrow> string \<times> real \<times> real \<Rightarrow> string \<times> real \<times> real" where
  "hot_scan v [] acc = acc"
| "hot_scan v (host # hosts) (hotHost, hotEWMA, coldEWMA) =
     (let (hotHost, hotEWMA) = (if v host > hotEWMA then (host, v host) else (hotHost, hotEWMA));
          coldEWMA = (if v host < coldEWMA then v host else coldEWMA)
      in hot_scan v hosts (hotHost, hotEWMA, coldEWMA))"

definition count_over :: "real \<Rightarrow> (string \<Rightarrow> real) \<Rightarrow> string list \<Rightarrow> (string \<Rightarrow> int) \<Rightarrow> string \<Rightarrow> int" where
  "count_over trigger v hosts over h =
     (if h \<in> set hosts then (if v h \<ge> trigger then over h + 1 else 0) else over h)"

definition buildPerHostCount :: "State \<Rightarrow> string \<Rightarrow> string \<Rightarrow> string \<Rightarrow> nat" where
  "buildPerHostCount s host deployment service =
     length (filter (\<lambda>rep. rd_host rep = host \<and> rd_deployment rep = deployment \<and> rd_service rep = service)
       (Store_List (ReplicasDesired s)))"

definition serviceSpec :: "State \<Rightarrow> ReplicaDesired \<Rightarrow> ServiceSpec option" where
  "serviceSpec s rep =
     (case Store_Get (Deployments s) (rd_deployment rep) of
        None \<Rightarrow> None
      | Some dep \<Rightarrow> find (\<lambda>svc. ss_name svc = rd_service rep) (dp_services dep))"

definition snapshot_of :: "(string \<times> PressureSnapshot) list \<Rightarrow> string \<Rightarrow> PressureSnapshot" where
  "snapshot_of snaps h = (case map_of snaps h of None \<Rightarrow> \<lparr>ps_CPU = 0, ps_Memory = 0\<rparr> | Some x \<Rightarrow> x)"

definition candidate :: "(string \<times> PressureSnapshot) list \<Rightarrow> (string \<Rightarrow> Footprint) \<Rightarrow> State \<Rightarrow> string \<Rightarrow> ReplicaDesired
    \<Rightarrow> string \<Rightarrow> MoveCandidate" where
  "candidate snaps footprint s hotHost rep dst =
     \<lparr>mc_Replica = rep, mc_Src = hotHost, mc_Dst = dst, mc_Spec = serviceSpec s rep,
      mc_Footprint = footprint (rd_id rep), mc_SrcPressure = snapshot_of snaps hotHost,
      mc_DstPressure = snapshot_of snaps dst,
      mc_PerHostCount = buildPerHostCount s dst (rd_deployment rep) (rd_service rep),
      mc_DstResourceFits = dstResourceFits (snapshot_of snaps dst) (footprint (rd_id rep))\<rparr>"

text \<open>The gates of one candidate: the reason it is dropped for and the relief it is audited with.\<close>

definition gate :: "Rebalancer \<Rightarrow> time \<Rightarrow> MoveCandidate \<Rightarrow> SkipReason \<times> real" where
  "gate r now c =
     (if (case rb_lastNodeMoveAt r (mc_Dst c) of None \<Rightarrow> False
          | Some lastNode \<Rightarrow> now - lastNode < cf_CooldownNode (rb_cfg r))
      then (SkipCooldownNode, 0)
      else if HardFilter c \<noteq> SkipNone then (HardFilter c, 0)
      else
        let (postSrc, postDst) = PostMovePressure c
        in if Composite postDst \<ge> cf_DstCap (rb_cfg r) then (SkipDstCap, 0)
           else
             let relief = Composite (mc_SrcPressure c) - Composite postSrc
             in if relief < cf_ReliefFloor (rb_cfg r) then (SkipReliefFloor, relief)
                else (SkipNone, relief))"

definition skip :: "(real \<Rightarrow> string) \<Rightarrow> applier \<Rightarrow> time \<Rightarrow> MoveCandidate \<Rightarrow> SkipReason \<Rightarrow> real \<Rightarrow> real \<Rightarrow> Dimension
    \<Rightarrow> State \<Rightarrow> State" where
  "skip fmt submit now c reason score relief dominant s =
     snd (emitAudit submit now AE_REBALANCE_SKIPPED (auditPayload fmt c score relief dominant reason) s)"

fun try_dsts :: "(real \<Rightarrow> string) \<Rightarrow> applier \<Rightarrow> Rebalancer \<Rightarrow> time \<Rightarrow> string \<Rightarrow> (string \<Rightarrow> MoveCandidate) \<Rightarrow> string list
    \<Rightarrow> State \<Rightarrow> (MoveCandidate \<times> real) list \<times> State" where
  "try_dsts fmt submit r now hotHost cand [] s = ([], s)"
| "try_dsts fmt submit r now hotHost cand (dst # dsts) s =
     (if dst = hotHost then try_dsts fmt submit r now hotHost cand dsts s
      else
        let c = cand dst; (reason, relief) = gate r now c
        in if reason \<noteq> SkipNone
           then try_dsts fmt submit r now hotHost cand dsts
                  (skip fmt submit now c reason 0 relief (Dominant (mc_SrcPressure c)) s)
           else (let (rest, s') = try_dsts fmt submit r now hotHost cand dsts s in ((c, Score c) # rest, s')))"

fun try_replicas :: "(real \<Rightarrow> string) \<Rightarrow> applier \<Rightarrow> Rebalancer \<Rightarrow> time \<Rightarrow> string \<Rightarrow> (ReplicaDesired \<Rightarrow> string \<Rightarrow> MoveCandidate)
    \<Rightarrow> (string \<Rightarrow> string list) \<Rightarrow> ReplicaDesired list \<Rightarrow> State \<Rightarrow> (MoveCandidate \<times> real) list \<times> State" where
  "try_replicas fmt submit r now hotHost cand dsts [] s = ([], s)"
| "try_replicas fmt submit r now hotHost cand dsts (rep # reps) s =
     (if rd_host rep \<noteq> hotHost then try_replicas fmt submit r now hotHost cand dsts reps s
      else
        let (found, s1) =
          (if (case rb_lastReplicaMoveAt r (rd_id rep) of None \<Rightarrow> False
               | Some lastMove \<Rightarrow> now - lastMove < cf_CooldownReplica (rb_cfg r))
           then ([], skip fmt submit now ((cand rep '''')\<lparr>mc_DstPressure := \<lparr>ps_CPU = 0, ps_Memory = 0\<rparr>,
                   mc_PerHostCount := 0, mc_DstResourceFits := False\<rparr>) SkipCooldownReplica 0 0
                   (Dominant (mc_SrcPressure (cand rep ''''))) s)
           else try_dsts fmt submit r now hotHost (cand rep) (dsts (rd_id rep)) s);
          (rest, s2) = try_replicas fmt submit r now hotHost cand dsts reps s1
        in (found @ rest, s2))"

definition better :: "MoveCandidate \<times> real \<Rightarrow> MoveCandidate \<times> real \<Rightarrow> bool" where
  "better a b = (if snd a \<noteq> snd b then snd a > snd b else rd_id (mc_Replica (fst a)) < rd_id (mc_Replica (fst b)))"

fun pick_best :: "MoveCandidate \<times> real \<Rightarrow> (MoveCandidate \<times> real) list \<Rightarrow> MoveCandidate \<times> real" where
  "pick_best best [] = best"
| "pick_best best (x # xs) = pick_best (if better x best then x else best) xs"

definition commitMove :: "applier \<Rightarrow> time \<Rightarrow> MoveCandidate \<Rightarrow> State \<Rightarrow> string option \<times> State" where
  "commitMove submit now c s =
     submit (mk_cmd ''scheduler/rebalance'' now (ReplicaDesiredUpsert (Some ((mc_Replica c)\<lparr>rd_host := mc_Dst c\<rparr>)))) s"

text \<open>The best survivor, committed and recorded.\<close>

definition commit_best :: "(real \<Rightarrow> string) \<Rightarrow> applier \<Rightarrow> time \<Rightarrow> Rebalancer \<Rightarrow> (MoveCandidate \<times> real) list \<Rightarrow> State
    \<Rightarrow> Rebalancer \<times> State" where
  "commit_best fmt submit now r survived s =
     (case survived of
        [] \<Rightarrow> (r, s)
      | x # xs \<Rightarrow>
          (let (c, score) = pick_best x xs;
               relief = Composite (mc_SrcPressure c) - Composite (mustPostSrc c)
           in case commitMove submit now c s of
                (Some _, s2) \<Rightarrow> (r, s2)
              | (None, s2) \<Rightarrow>
                  (r\<lparr>rb_lastReplicaMoveAt := (rb_lastReplicaMoveAt r)(rd_id (mc_Replica c) \<mapsto> now),
                     rb_lastNodeMoveAt := (rb_lastNodeMoveAt r)(mc_Dst c \<mapsto> now)\<rparr>,
                   snd (emitAudit submit now AE_REBALANCE_MOVED
                     (auditPayload fmt c score relief (Dominant (mc_SrcPressure c)) SkipNone) s2))))"

definition Cycle :: "(real \<Rightarrow> string) \<Rightarrow> applier \<Rightarrow> bool \<Rightarrow> time \<Rightarrow> (string \<Rightarrow> PressureSnapshot option) \<Rightarrow> (string \<Rightarrow> Footprint)
    \<Rightarrow> string list \<Rightarrow> (string \<Rightarrow> string list) \<Rightarrow> Rebalancer \<Rightarrow> State \<Rightarrow> Rebalancer \<times> State" where
  "Cycle fmt submit isLeader now nodePressure footprint order dsts r s =
     (if \<not> isLeader then (r, s)
      else
        let (snaps, ew) = sample_nodes now nodePressure (Store_List (Nodes s)) (rb_pressureEWMA r);
            r = r\<lparr>rb_pressureEWMA := ew\<rparr>
        in if length snaps < 2 then (r, s)
           else
             let v = (\<lambda>h. case ew h of None \<Rightarrow> 0 | Some e \<Rightarrow> EWMA_Value e);
                 (hotHost, hotEWMA, coldEWMA) = hot_scan v order ('''', 0, 11 / 10);
                 r = r\<lparr>rb_consecutiveOverThreshold :=
                   count_over (cf_TriggerThreshold (rb_cfg r)) v order (rb_consecutiveOverThreshold r)\<rparr>
             in if rb_consecutiveOverThreshold r hotHost < cf_ConsecutiveCycles (rb_cfg r) then (r, s)
                else if hotEWMA - coldEWMA < cf_ImbalanceGap (rb_cfg r) then (r, s)
                else
                  let (survived, s1) = try_replicas fmt submit r now hotHost (candidate snaps footprint s hotHost) dsts
                         (Store_List (ReplicasDesired s)) s
                  in commit_best fmt submit now r survived s1)"

end
