(* ===== verification/RebalanceProps.thy ===== *)
theory RebalanceProps
  imports Rebalance FsmWitness
begin

text \<open>
  What the rebalancer guarantees: its averages stay within the range of the samples, and a cycle
  changes at most the host of one replica, and only by a move that passes every gate.
\<close>

section \<open>Averages\<close>

lemma EWMA_Update_between:
  assumes "ew_window e > 0" "ew_hasData e \<Longrightarrow> lo \<le> ew_value e \<and> ew_value e \<le> hi" "lo \<le> x" "x \<le> hi"
  shows "ew_window (EWMA_Update t x e) > 0 \<and> ew_hasData (EWMA_Update t x e)
    \<and> lo \<le> ew_value (EWMA_Update t x e) \<and> ew_value (EWMA_Update t x e) \<le> hi"
proof (cases "ew_hasData e")
  case True
  define q where "q = real_of_int (if t - ew_lastAt e < 0 then 0 else t - ew_lastAt e) / real_of_int (ew_window e)"
  have q: "0 < exp (- q)" "exp (- q) \<le> 1" using assms(1) by (auto simp: q_def)
  have v: "ew_value (EWMA_Update t x e) = exp (- q) * ew_value e + (1 - exp (- q)) * x"
    using True by (simp add: EWMA_Update_def Let_def q_def algebra_simps)
  have "lo \<le> exp (- q) * ew_value e + (1 - exp (- q)) * x" "exp (- q) * ew_value e + (1 - exp (- q)) * x \<le> hi"
    using convex_bound_le [of "ew_value e" hi x "exp (- q)" "1 - exp (- q)"]
      convex_bound_le [of "- ew_value e" "- lo" "- x" "exp (- q)" "1 - exp (- q)"] assms True q by simp_all
  with v assms(1) True show ?thesis by (simp add: EWMA_Update_def Let_def)
qed (use assms in \<open>simp add: EWMA_Update_def\<close>)

text \<open>
  A moving average stays within its samples: after any updates, at whatever times and for
  whatever window, the value lies between every lower and every upper bound of the samples.
\<close>

theorem ewma_within_samples:
  assumes "samples \<noteq> []" "\<forall>(t, x) \<in> set samples. lo \<le> x \<and> x \<le> hi"
  shows "lo \<le> EWMA_Value (fold (\<lambda>(t, x). EWMA_Update t x) samples (NewEWMA window))
    \<and> EWMA_Value (fold (\<lambda>(t, x). EWMA_Update t x) samples (NewEWMA window)) \<le> hi"
proof -
  have "ew_window (fold (\<lambda>(t, x). EWMA_Update t x) samples (NewEWMA window)) > 0
    \<and> (samples \<noteq> [] \<longrightarrow> ew_hasData (fold (\<lambda>(t, x). EWMA_Update t x) samples (NewEWMA window)))
    \<and> (ew_hasData (fold (\<lambda>(t, x). EWMA_Update t x) samples (NewEWMA window)) \<longrightarrow>
        lo \<le> ew_value (fold (\<lambda>(t, x). EWMA_Update t x) samples (NewEWMA window))
        \<and> ew_value (fold (\<lambda>(t, x). EWMA_Update t x) samples (NewEWMA window)) \<le> hi)"
    using assms(2)
  proof (induction samples rule: rev_induct)
    case (snoc tx samples)
    obtain t x where tx: "tx = (t, x)" by (cases tx)
    from snoc EWMA_Update_between [of "fold (\<lambda>(t, x). EWMA_Update t x) samples (NewEWMA window)" lo hi x t]
    show ?case by (simp add: tx)
  qed (simp add: NewEWMA_def)
  with assms(1) show ?thesis by (simp add: EWMA_Value_def)
qed

section \<open>One move per cycle\<close>

context raft_applier
begin

lemma audit_frame: "ReplicasDesired (snd (submit (mk_cmd u t (AuditAppend e)) s)) = ReplicasDesired s"
proof (cases "submit (mk_cmd u t (AuditAppend e)) s")
  case (Pair err s')
  show ?thesis
  proof (cases err)
    case None
    with applied Pair obtain idx where "s' = apply_command idx (mk_cmd u t (AuditAppend e)) s" by blast
    with Pair show ?thesis
      by (simp add: apply_command.simps [of idx "mk_cmd _ _ _"] h_AuditAppend_def audit_append_sel split: option.split)
  next
    case (Some a)
    with rejected Pair show ?thesis by auto
  qed
qed

lemma skip_frame [simp]: "ReplicasDesired (skip fmt submit now c reason score relief d s) = ReplicasDesired s"
  by (simp add: skip_def emitAudit_def audit_frame)

lemma try_dsts_frame: "ReplicasDesired (snd (try_dsts fmt submit r now hot cand dsts s)) = ReplicasDesired s"
  by (induction dsts arbitrary: s) (auto simp: Let_def case_prod_beta)

lemma try_replicas_frame: "ReplicasDesired (snd (try_replicas fmt submit r now hot cand dsts reps s)) = ReplicasDesired s"
  by (induction reps arbitrary: s) (auto simp: Let_def case_prod_beta try_dsts_frame)

end

text \<open>The destination of a replica that passes every gate, in terms of the samples and the state.\<close>

definition move_ok :: "Rebalancer \<Rightarrow> time \<Rightarrow> (string \<Rightarrow> PressureSnapshot option) \<Rightarrow> (string \<Rightarrow> Footprint) \<Rightarrow> State
    \<Rightarrow> ReplicaDesired \<Rightarrow> string \<Rightarrow> bool" where
  "move_ok r now nodePressure footprint s rep dst \<longleftrightarrow>
     (\<exists>ps pd. let f = footprint (rd_id rep); cfg = rb_cfg r in
        nodePressure (rd_host rep) = Some ps \<and> nodePressure dst = Some pd \<and> dst \<noteq> rd_host rep
      \<and> ps_CPU pd + fp_CPU f \<le> 1 \<and> ps_Memory pd + fp_Memory f \<le> 1
      \<and> max (ps_CPU pd + fp_CPU f) (ps_Memory pd + fp_Memory f) < cf_DstCap cfg
      \<and> max (ps_CPU ps) (ps_Memory ps) - max (max 0 (ps_CPU ps - fp_CPU f)) (max 0 (ps_Memory ps - fp_Memory f)) \<ge> cf_ReliefFloor cfg)
   \<and> (case serviceSpec s rep of None \<Rightarrow> True
      | Some spec \<Rightarrow> ss_placement spec \<noteq> PM_GLOBAL \<and> (ss_placement spec = PM_HOSTS \<longrightarrow> dst \<in> set (ss_hosts spec))
          \<and> (ss_placement spec = PM_SPREAD \<longrightarrow> buildPerHostCount s dst (rd_deployment rep) (rd_service rep) = 0))
   \<and> (\<forall>t. rb_lastNodeMoveAt r dst = Some t \<longrightarrow> now - t \<ge> cf_CooldownNode (rb_cfg r))
   \<and> (\<forall>t. rb_lastReplicaMoveAt r (rd_id rep) = Some t \<longrightarrow> now - t \<ge> cf_CooldownReplica (rb_cfg r))"

lemma Composite_max: "Composite p = max (ps_CPU p) (ps_Memory p)"
  by (simp add: Composite_def max_def)

lemma try_dsts_mem:
  assumes "x \<in> set (fst (try_dsts fmt submit r now hot cand dsts s))"
  shows "\<exists>dst \<in> set dsts. dst \<noteq> hot \<and> fst x = cand dst \<and> fst (gate r now (cand dst)) = SkipNone"
  using assms
proof (induction dsts arbitrary: s)
  case (Cons d dsts)
  show ?case
  proof (cases "d = hot \<or> fst (gate r now (cand d)) \<noteq> SkipNone")
    case True
    then obtain s' where "x \<in> set (fst (try_dsts fmt submit r now hot cand dsts s'))"
      using Cons.prems by (auto simp: Let_def case_prod_beta split: if_splits)
    from Cons.IH [OF this] show ?thesis by auto
  next
    case False
    then have "x = (cand d, Score (cand d)) \<or> x \<in> set (fst (try_dsts fmt submit r now hot cand dsts s))"
      using Cons.prems by (auto simp: Let_def case_prod_beta)
    with Cons.IH [of s] False show ?thesis by auto
  qed
qed simp

lemma try_replicas_mem:
  assumes "x \<in> set (fst (try_replicas fmt submit r now hot cand dsts reps s))"
  shows "\<exists>rep \<in> set reps. \<exists>dst \<in> set (dsts (rd_id rep)). rd_host rep = hot \<and> dst \<noteq> hot \<and> fst x = cand rep dst
    \<and> fst (gate r now (cand rep dst)) = SkipNone
    \<and> (\<forall>t. rb_lastReplicaMoveAt r (rd_id rep) = Some t \<longrightarrow> now - t \<ge> cf_CooldownReplica (rb_cfg r))"
  using assms
proof (induction reps arbitrary: s)
  case (Cons rep reps)
  show ?case
  proof (cases "\<exists>s'. x \<in> set (fst (try_replicas fmt submit r now hot cand dsts reps s'))")
    case True
    with Cons.IH show ?thesis by (meson list.set_intros(2))
  next
    case False
    then have "rd_host rep = hot" "x \<in> set (fst (try_dsts fmt submit r now hot (cand rep) (dsts (rd_id rep)) s))"
        "\<forall>t. rb_lastReplicaMoveAt r (rd_id rep) = Some t \<longrightarrow> now - t \<ge> cf_CooldownReplica (rb_cfg r)"
      using Cons.prems by (auto simp: Let_def case_prod_beta split: if_splits option.splits)
    with try_dsts_mem [OF this(2)] show ?thesis by (intro bexI [of _ rep]) auto
  qed
qed simp

lemma pick_best_mem: "pick_best x xs \<in> set (x # xs)"
  by (induction xs arbitrary: x) (auto split: if_splits)


lemma map_of_sample_nodes:
  "map_of (fst (sample_nodes now np ns ew)) h = (if h \<in> nd_hostname ` set ns then np h else None)"
  by (induction ns arbitrary: ew) (auto simp: Let_def case_prod_beta split: option.split)

lemma gate_move_ok:
  assumes "snaps = fst (sample_nodes now np ns ew)" "rd_host rep \<in> sampled" "dst \<in> sampled"
    and "sampled = {h \<in> nd_hostname ` set ns. np h \<noteq> None}" "dst \<noteq> rd_host rep"
    and "fst (gate r now (candidate snaps fp s (rd_host rep) rep dst)) = SkipNone"
    and "\<forall>t. rb_lastReplicaMoveAt r (rd_id rep) = Some t \<longrightarrow> now - t \<ge> cf_CooldownReplica (rb_cfg r)"
  shows "move_ok r now np fp s rep dst"
proof -
  obtain ps pd where p: "np (rd_host rep) = Some ps" "np dst = Some pd" using assms(2-4) by auto
  have snap: "snapshot_of snaps (rd_host rep) = ps" "snapshot_of snaps dst = pd"
    using assms(1-4) p by (auto simp: snapshot_of_def map_of_sample_nodes)
  let ?c = "candidate snaps fp s (rd_host rep) rep dst"
  have node: "\<forall>t. rb_lastNodeMoveAt r dst = Some t \<longrightarrow> now - t \<ge> cf_CooldownNode (rb_cfg r)"
    using assms(6) by (auto simp: gate_def candidate_def split: if_splits option.splits)
  have hard: "HardFilter ?c = SkipNone"
    using assms(6) by (auto simp: gate_def split: if_splits)
  obtain post postDst where pm: "PostMovePressure ?c = (post, postDst)" by (metis surj_pair)
  have lim: "\<not> Composite postDst \<ge> cf_DstCap (rb_cfg r)" "\<not> Composite ps - Composite post < cf_ReliefFloor (rb_cfg r)"
    using assms(6) hard snap unfolding gate_def Let_def pm by (auto simp: candidate_def split: if_splits)
  from hard have aff: "dstResourceFits pd (fp (rd_id rep))" "antiAffinityOK ?c"
    by (auto simp: HardFilter_def candidate_def snap split: if_splits)
  have post: "postDst = \<lparr>ps_CPU = ps_CPU pd + fp_CPU (fp (rd_id rep)), ps_Memory = ps_Memory pd + fp_Memory (fp (rd_id rep))\<rparr>"
      "post = \<lparr>ps_CPU = max 0 (ps_CPU ps - fp_CPU (fp (rd_id rep))), ps_Memory = max 0 (ps_Memory ps - fp_Memory (fp (rd_id rep)))\<rparr>"
    using pm by (auto simp: PostMovePressure_def Let_def candidate_def snap max_def)
  have "case serviceSpec s rep of None \<Rightarrow> True
      | Some spec \<Rightarrow> ss_placement spec \<noteq> PM_GLOBAL \<and> (ss_placement spec = PM_HOSTS \<longrightarrow> dst \<in> set (ss_hosts spec))
          \<and> (ss_placement spec = PM_SPREAD \<longrightarrow> buildPerHostCount s dst (rd_deployment rep) (rd_service rep) = 0)"
    using aff(2) by (auto simp: antiAffinityOK_def candidate_def split: option.splits PlacementMode.splits)
  moreover have "ps_CPU pd + fp_CPU (fp (rd_id rep)) \<le> 1" "ps_Memory pd + fp_Memory (fp (rd_id rep)) \<le> 1"
    using aff(1) by (auto simp: dstResourceFits_def split: if_splits)
  ultimately show ?thesis
    using p node lim assms(5,7) unfolding move_ok_def Let_def by (simp add: Composite_max post not_le not_less)
qed

lemma hot_scan_mem: "fst (hot_scan v hosts acc) \<in> insert (fst acc) (set hosts)"
proof (induction hosts arbitrary: acc)
  case (Cons h hosts)
  obtain a b c where acc: "acc = (a, b, c)" by (metis prod_cases3)
  let ?acc = "(if v h > b then h else a, if v h > b then v h else b, if v h < c then v h else c)"
  have "hot_scan v (h # hosts) acc = hot_scan v hosts ?acc" by (simp add: acc Let_def)
  with Cons.IH [of ?acc] show ?case by (auto simp: acc split: if_splits)
qed simp

lemma move_ok_cong:
  "rb_cfg r' = rb_cfg r \<Longrightarrow> rb_lastNodeMoveAt r' = rb_lastNodeMoveAt r \<Longrightarrow> rb_lastReplicaMoveAt r' = rb_lastReplicaMoveAt r
    \<Longrightarrow> move_ok r' = move_ok r"
  by (simp add: fun_eq_iff move_ok_def)

lemma commit_best_cases:
  assumes "commit_best fmt submit now r found s1 = (r', s')"
  shows "rb_consecutiveOverThreshold r' = rb_consecutiveOverThreshold r"
    and "found = [] \<and> s' = s1 \<or> (\<exists>c \<in> fst ` set found. \<exists>e s2. commitMove submit now c s1 = (e, s2)
         \<and> (s' = s2 \<or> (\<exists>payload. s' = snd (emitAudit submit now AE_REBALANCE_MOVED payload s2))))"
proof -
  have "rb_consecutiveOverThreshold r' = rb_consecutiveOverThreshold r
    \<and> (found = [] \<and> s' = s1 \<or> (\<exists>c \<in> fst ` set found. \<exists>e s2. commitMove submit now c s1 = (e, s2)
         \<and> (s' = s2 \<or> (\<exists>payload. s' = snd (emitAudit submit now AE_REBALANCE_MOVED payload s2)))))"
  proof (cases found)
    case Nil
    with assms show ?thesis by (simp add: commit_best_def)
  next
    case (Cons x xs)
    obtain c score where b: "pick_best x xs = (c, score)" by (metis surj_pair)
    obtain e s2 where cm: "commitMove submit now c s1 = (e, s2)" by (metis surj_pair)
    have "c \<in> fst ` set found" using pick_best_mem [of x xs] by (force simp: b Cons)
    moreover have "(s' = s2 \<or> (\<exists>payload. s' = snd (emitAudit submit now AE_REBALANCE_MOVED payload s2)))
        \<and> rb_consecutiveOverThreshold r' = rb_consecutiveOverThreshold r"
      using assms by (cases e) (auto simp: commit_best_def Cons b cm Let_def)
    ultimately show ?thesis using cm by blast
  qed
  then show "rb_consecutiveOverThreshold r' = rb_consecutiveOverThreshold r"
    and "found = [] \<and> s' = s1 \<or> (\<exists>c \<in> fst ` set found. \<exists>e s2. commitMove submit now c s1 = (e, s2)
         \<and> (s' = s2 \<or> (\<exists>payload. s' = snd (emitAudit submit now AE_REBALANCE_MOVED payload s2))))"
    by blast+
qed

text \<open>What a cycle that gets past the trigger and imbalance gates does.\<close>

lemma Cycle_cases:
  assumes "Cycle fmt submit isLeader now np fp order dsts r s = (r', s')"
  obtains (idle) "s' = s"
  | (run) r1 hot snaps ew found s1 where "isLeader" "(snaps, ew) = sample_nodes now np (Store_List (Nodes s)) (rb_pressureEWMA r)"
      "rb_cfg r1 = rb_cfg r" "rb_lastNodeMoveAt r1 = rb_lastNodeMoveAt r" "rb_lastReplicaMoveAt r1 = rb_lastReplicaMoveAt r"
      "\<forall>h. h \<notin> set order \<longrightarrow> rb_consecutiveOverThreshold r1 h = rb_consecutiveOverThreshold r h"
      "rb_consecutiveOverThreshold r1 hot \<ge> cf_ConsecutiveCycles (rb_cfg r)" "hot \<in> insert '''' (set order)"
      "try_replicas fmt submit r1 now hot (candidate snaps fp s hot) dsts (Store_List (ReplicasDesired s)) s = (found, s1)"
      "commit_best fmt submit now r1 found s1 = (r', s')"
proof -
  obtain snaps ew where sn: "(snaps, ew) = sample_nodes now np (Store_List (Nodes s)) (rb_pressureEWMA r)"
    by (metis surj_pair)
  let ?v = "\<lambda>h. case ew h of None \<Rightarrow> 0 | Some e \<Rightarrow> EWMA_Value e"
  obtain hot hotE coldE where hs: "hot_scan ?v order ('''', 0, 11 / 10) = (hot, hotE, coldE)" by (metis prod_cases3)
  define r1 where "r1 = r\<lparr>rb_pressureEWMA := ew,
     rb_consecutiveOverThreshold := count_over (cf_TriggerThreshold (rb_cfg r)) ?v order (rb_consecutiveOverThreshold r)\<rparr>"
  obtain found s1 where tr: "try_replicas fmt submit r1 now hot (candidate snaps fp s hot) dsts (Store_List (ReplicasDesired s)) s
      = (found, s1)" by (metis surj_pair)
  have eq: "Cycle fmt submit isLeader now np fp order dsts r s =
    (if \<not> isLeader then (r, s) else if length snaps < 2 then (r\<lparr>rb_pressureEWMA := ew\<rparr>, s)
     else if rb_consecutiveOverThreshold r1 hot < cf_ConsecutiveCycles (rb_cfg r) then (r1, s)
     else if hotE - coldE < cf_ImbalanceGap (rb_cfg r) then (r1, s)
     else commit_best fmt submit now r1 found s1)"
    using tr unfolding Cycle_def sn [symmetric] prod.case Let_def Rebalancer.simps hs r1_def by simp
  have hot: "hot \<in> insert '''' (set order)" using hot_scan_mem [of ?v order "('''', 0, 11 / 10)"] by (simp add: hs)
  show ?thesis
  proof (cases "\<not> isLeader \<or> length snaps < 2 \<or> rb_consecutiveOverThreshold r1 hot < cf_ConsecutiveCycles (rb_cfg r)
      \<or> hotE - coldE < cf_ImbalanceGap (rb_cfg r)")
    case True
    then have "s' = s" using assms unfolding eq by (auto split: if_splits)
    then show ?thesis by (rule idle)
  next
    case False
    show ?thesis
    proof (rule run [OF _ sn])
      show "commit_best fmt submit now r1 found s1 = (r', s')" using False assms unfolding eq by simp
    qed (use False hot tr in \<open>simp_all add: r1_def count_over_def\<close>)
  qed
qed


context raft_applier
begin

lemma commitMove_replicas:
  assumes "commitMove submit now c s1 = (e, s2)"
  shows "ReplicasDesired s2 = ReplicasDesired s1 \<or> (\<exists>idx. ReplicasDesired s2 =
    put rd_id ((mc_Replica c)\<lparr>rd_host := mc_Dst c, rd_raft_index := idx\<rparr>) idx (ReplicasDesired s1))"
proof (cases e)
  case None
  with applied assms obtain idx where "s2 = apply_command idx (mk_cmd ''scheduler/rebalance'' now
      (ReplicaDesiredUpsert (Some ((mc_Replica c)\<lparr>rd_host := mc_Dst c\<rparr>)))) s1"
    unfolding commitMove_def by blast
  then have "ReplicasDesired s2 = put rd_id ((mc_Replica c)\<lparr>rd_host := mc_Dst c, rd_raft_index := idx\<rparr>) idx (ReplicasDesired s1)"
    by (simp add: apply_command.simps [of idx "mk_cmd _ _ _"] h_ReplicaDesiredUpsert_def audit_append_sel)
  then show ?thesis by blast
next
  case (Some a)
  with rejected assms show ?thesis unfolding commitMove_def by blast
qed

lemma Cycle_safe:
  assumes "state_ok s" "Cycle fmt submit isLeader now np fp order dsts r s = (r', s')"
    and "set order = {h \<in> nd_hostname ` set (Store_List (Nodes s)). np h \<noteq> None}" "\<forall>k. set (dsts k) = set order"
    and "'''' \<notin> set order" "rb_consecutiveOverThreshold r '''' < cf_ConsecutiveCycles (rb_cfg r)"
  shows "Store_Get (ReplicasDesired s') = Store_Get (ReplicasDesired s)
    \<or> isLeader \<and> (\<exists>rep dst idx. Store_Get (ReplicasDesired s) (rd_id rep) = Some rep \<and> move_ok r now np fp s rep dst
        \<and> rb_consecutiveOverThreshold r' (rd_host rep) \<ge> cf_ConsecutiveCycles (rb_cfg r)
        \<and> Store_Get (ReplicasDesired s') = (Store_Get (ReplicasDesired s))(rd_id rep \<mapsto> rep\<lparr>rd_host := dst, rd_raft_index := idx\<rparr>))"
  using assms(2)
proof (cases rule: Cycle_cases)
  case idle
  then show ?thesis by simp
next
  case (run r1 hot snaps ew found s1)
  have ok: "store_ok rd_id (ReplicasDesired s)" using assms(1) by (simp add: state_ok_def)
  have s1: "ReplicasDesired s1 = ReplicasDesired s"
    using try_replicas_frame [of fmt r1 now hot "candidate snaps fp s hot" dsts "Store_List (ReplicasDesired s)" s] run(9) by simp
  note cb = commit_best_cases [OF run(10)]
  from cb(2) show ?thesis
  proof
    assume "found = [] \<and> s' = s1"
    with s1 show ?thesis by simp
  next
    assume "\<exists>c \<in> fst ` set found. \<exists>e s2. commitMove submit now c s1 = (e, s2)
         \<and> (s' = s2 \<or> (\<exists>payload. s' = snd (emitAudit submit now AE_REBALANCE_MOVED payload s2)))"
    then obtain x e s2 where x: "x \<in> set found" "commitMove submit now (fst x) s1 = (e, s2)"
      and s': "ReplicasDesired s' = ReplicasDesired s2" by (auto simp: emitAudit_def audit_frame)
    from try_replicas_mem [of x fmt submit r1 now hot "candidate snaps fp s hot" dsts "Store_List (ReplicasDesired s)" s] x(1) run(9)
    obtain rep dst where m: "rep \<in> set (Store_List (ReplicasDesired s))" "dst \<in> set (dsts (rd_id rep))" "rd_host rep = hot" "dst \<noteq> hot"
        "fst x = candidate snaps fp s hot rep dst" "fst (gate r1 now (candidate snaps fp s hot rep dst)) = SkipNone"
        "\<forall>t. rb_lastReplicaMoveAt r1 (rd_id rep) = Some t \<longrightarrow> now - t \<ge> cf_CooldownReplica (rb_cfg r1)" by auto
    have "hot \<in> set order" using run(6-8) assms(5,6) by force
    then have "move_ok r1 now np fp s rep dst"
      using m assms(3,4) run(2) by (intro gate_move_ok [of snaps now np "Store_List (Nodes s)" "rb_pressureEWMA r" rep "set order" dst])
        (simp_all, metis fst_conv)
    then have mo: "move_ok r now np fp s rep dst" unfolding move_ok_cong [OF run(3-5)] .
    have rep: "Store_Get (ReplicasDesired s) (rd_id rep) = Some rep" using m(1) by (simp add: kst.entries_iff [OF ok])
    have over: "rb_consecutiveOverThreshold r' (rd_host rep) \<ge> cf_ConsecutiveCycles (rb_cfg r)"
      using cb(1) run(7) m(3) by simp
    from commitMove_replicas [OF x(2)] show ?thesis
    proof
      assume "ReplicasDesired s2 = ReplicasDesired s1"
      with s1 s' show ?thesis by simp
    next
      assume "\<exists>idx. ReplicasDesired s2 = put rd_id ((mc_Replica (fst x))\<lparr>rd_host := mc_Dst (fst x), rd_raft_index := idx\<rparr>) idx (ReplicasDesired s1)"
      then obtain idx where "Store_Get (ReplicasDesired s') =
          (Store_Get (ReplicasDesired s))(rd_id rep \<mapsto> rep\<lparr>rd_host := dst, rd_raft_index := idx\<rparr>)"
        using m(5) s1 s' by (auto simp: candidate_def)
      with run(1) mo rep over show ?thesis by blast
    qed
  qed
qed

end



section \<open>Examples\<close>

theorem ewma_within_samples_witness:
  "EWMA_Value (fold (\<lambda>(t, x). EWMA_Update t x) [(0, 1 / 10), (60, 9 / 10), (30, 1 / 2)] (NewEWMA 300)) \<le> 9 / 10"
  using ewma_within_samples [of "[(0, 1 / 10), (60, 9 / 10), (30, 1 / 2)]" "1 / 10" "9 / 10" 300] by simp

text \<open>A busy host \<open>n1\<close> with two replicas and an idle host \<open>n2\<close>; \<open>n1\<close> has been over once before.\<close>

definition ex_busy :: State where
  "ex_busy = ex_state\<lparr>Nodes := put nd_hostname (ex_node ''n2'' NS_READY) 1
       (put nd_hostname (ex_node ''n1'' NS_READY) 1 (Nodes State_New))\<rparr>"

definition ex_pressure :: "string \<Rightarrow> PressureSnapshot option" where
  "ex_pressure h = (if h = ''n1'' then Some \<lparr>ps_CPU = 9 / 10, ps_Memory = 2 / 10\<rparr>
     else if h = ''n2'' then Some \<lparr>ps_CPU = 1 / 10, ps_Memory = 2 / 10\<rparr> else None)"

definition ex_rebalancer :: Rebalancer where
  "ex_rebalancer = (Rebalancer_New DefaultConfig)\<lparr>rb_consecutiveOverThreshold := (\<lambda>h. if h = ''n1'' then 1 else 0)\<rparr>"

definition ex_cycle :: "Rebalancer \<times> State" where
  "ex_cycle = Cycle (\<lambda>_. '''') (Node_Apply (\<lambda>_ _. Committed 9)) True 100 ex_pressure (StateBackedSource_ReplicaFootprint None)
     [''n1'', ''n2''] (\<lambda>_. [''n1'', ''n2'']) ex_rebalancer ex_busy"

text \<open>The average starts at the first sample, so the example needs no value of the exponential.\<close>

declare exp_def [code del]

lemma ex_busy_ok: "state_ok ex_busy"
  using ex_state_ok by (simp add: ex_busy_def state_ok_def State_New_def)


end
