(* ===== verification/CertStorage.thy ===== *)
theory CertStorage
  imports FsmWitness Applier
begin

text \<open>
  The certificate storage of the ingress, \<^verbatim>\<open>internal/ingress/storage/storage.go\<close>: locks and blobs
  of certmagic kept in the replicated state, with a fallback cache on the local disk.

  An operation takes the storage object of one node and the replicated state, and returns an
  error or none with both after the call. The disk maps paths to contents and modification
  times; each call gets the faults the operating system reports during it. \<open>sha256\<close> stays a
  parameter. The cache directory is a cleaned path, so that \<open>filepath.Join\<close> puts one separator
  between it and the file name. A renewer is a goroutine with a number of its own; its ticks are
  events.
\<close>

section \<open>State\<close>

definition LockTTL :: int where
  "LockTTL = 5 * 60 * 1000000000"

definition RenewInterval :: int where
  "RenewInterval = 2 * 60 * 1000000000"

definition challengeTokenKeyMarker :: string where
  "challengeTokenKeyMarker = ''/challenge_tokens/''"

datatype storage_error = ErrLockHeld | ErrNotExist string | KeyRequired | ApplyFailed string

record KeyInfo =
  ki_Key :: string
  ki_Modified :: time
  ki_Size :: nat
  ki_IsTerminal :: bool

type_synonym disk = "string \<rightharpoonup> bytes \<times> time"

datatype write_fault = NoFault | MkdirFault | WriteFault "(bytes \<times> time) option" | RenameFault

record io_faults =
  io_write :: write_fault
  io_read :: bool
  io_remove :: bool

record JacoStorage =
  js_lessee :: string
  js_cacheDir :: string
  js_renewers :: "string \<rightharpoonup> nat"
  js_live :: "nat \<rightharpoonup> string"
  js_next :: nat
  js_onChallengeStore :: bool
  js_published :: "bytes list"
  js_disk :: disk

definition NewWithCache :: "string \<Rightarrow> string \<Rightarrow> disk \<Rightarrow> JacoStorage" where
  "NewWithCache lessee cacheDir files =
     \<lparr>js_lessee = lessee, js_cacheDir = cacheDir, js_renewers = Map.empty, js_live = Map.empty, js_next = 0,
      js_onChallengeStore = False, js_published = [], js_disk = files\<rparr>"

definition JacoStorage_New :: "string \<Rightarrow> disk \<Rightarrow> JacoStorage" where
  "JacoStorage_New lessee files = NewWithCache lessee '''' files"

definition SetChallengePublisher :: "bool \<Rightarrow> JacoStorage \<Rightarrow> JacoStorage" where
  "SetChallengePublisher on js = js\<lparr>js_onChallengeStore := on\<rparr>"

section \<open>Locks\<close>

definition submitted :: "string option \<Rightarrow> storage_error option" where
  "submitted err = map_option ApplyFailed err"

definition applyLock :: "applier \<Rightarrow> time \<Rightarrow> JacoStorage \<Rightarrow> string \<Rightarrow> State \<Rightarrow> string option \<times> State" where
  "applyLock submit now js name s =
     submit (mk_cmd ''ingress'' now (CertLock name (js_lessee js) (Some (now + LockTTL)))) s"

definition startRenewer :: "string \<Rightarrow> JacoStorage \<Rightarrow> JacoStorage" where
  "startRenewer name js =
     (let live = (case js_renewers js name of None \<Rightarrow> js_live js | Some g \<Rightarrow> (js_live js)(g := None))
      in js\<lparr>js_renewers := (js_renewers js)(name \<mapsto> js_next js),
            js_live := live(js_next js \<mapsto> name), js_next := Suc (js_next js)\<rparr>)"

definition stopRenewer :: "string \<Rightarrow> JacoStorage \<Rightarrow> JacoStorage" where
  "stopRenewer name js =
     (case js_renewers js name of
        None \<Rightarrow> js
      | Some g \<Rightarrow> js\<lparr>js_live := (js_live js)(g := None), js_renewers := (js_renewers js)(name := None)\<rparr>)"

definition Lock :: "applier \<Rightarrow> time \<Rightarrow> string \<Rightarrow> JacoStorage \<times> State \<Rightarrow> storage_error option \<times> JacoStorage \<times> State" where
  "Lock submit now name = (\<lambda>(js, s).
     (case applyLock submit now js name s of
        (Some err, s1) \<Rightarrow> (Some (ApplyFailed err), js, s1)
      | (None, s1) \<Rightarrow>
          (case Store_Get (Certs s1) name of
             None \<Rightarrow> (Some ErrLockHeld, js, s1)
           | Some c \<Rightarrow>
               if ct_lessee c \<noteq> js_lessee js then (Some ErrLockHeld, js, s1)
               else (None, startRenewer name js, s1))))"

definition Unlock :: "applier \<Rightarrow> time \<Rightarrow> string \<Rightarrow> JacoStorage \<times> State \<Rightarrow> storage_error option \<times> JacoStorage \<times> State" where
  "Unlock submit now name = (\<lambda>(js, s).
     (let (err, s1) = submit (mk_cmd ''ingress'' now (CertUnlock name)) s
      in (submitted err, stopRenewer name js, s1)))"

text \<open>One round of a renewer: a tick renews, the end of its parent's context stops it.\<close>

datatype renew_event = Ticked time | Done

definition renewLoop :: "applier \<Rightarrow> nat \<Rightarrow> renew_event \<Rightarrow> JacoStorage \<times> State \<Rightarrow> JacoStorage \<times> State" where
  "renewLoop submit g ev = (\<lambda>(js, s).
     (case js_live js g of
        None \<Rightarrow> (js, s)
      | Some name \<Rightarrow>
          (case ev of
             Done \<Rightarrow> (js\<lparr>js_live := (js_live js)(g := None)\<rparr>, s)
           | Ticked now \<Rightarrow> (js, snd (applyLock submit now js name s)))))"

section \<open>The cache on disk\<close>

definition cachePath :: "(bytes \<Rightarrow> bytes) \<Rightarrow> JacoStorage \<Rightarrow> string \<Rightarrow> string" where
  "cachePath sha256 js key =
     (if js_cacheDir js = '''' then '''' else js_cacheDir js @ ''/'' @ EncodeToString (sha256 key))"

definition cacheWrite :: "(bytes \<Rightarrow> bytes) \<Rightarrow> io_faults \<Rightarrow> time \<Rightarrow> string \<Rightarrow> bytes \<Rightarrow> JacoStorage \<Rightarrow> JacoStorage" where
  "cacheWrite sha256 io now key value js =
     (let p = cachePath sha256 js key; tmp = p @ ''.tmp''
      in if p = '''' then js
         else
           (case io_write io of
              MkdirFault \<Rightarrow> js
            | WriteFault left \<Rightarrow> js\<lparr>js_disk := (js_disk js)(tmp := left)\<rparr>
            | RenameFault \<Rightarrow> js\<lparr>js_disk := (js_disk js)(tmp \<mapsto> (value, now))\<rparr>
            | NoFault \<Rightarrow> js\<lparr>js_disk := (js_disk js)(tmp := None, p \<mapsto> (value, now))\<rparr>))"

definition cacheRead :: "(bytes \<Rightarrow> bytes) \<Rightarrow> io_faults \<Rightarrow> JacoStorage \<Rightarrow> string \<Rightarrow> bytes option" where
  "cacheRead sha256 io js key =
     (let p = cachePath sha256 js key
      in if p = '''' then None
         else if io_read io then None
         else map_option fst (js_disk js p))"

definition cacheStat :: "(bytes \<Rightarrow> bytes) \<Rightarrow> io_faults \<Rightarrow> JacoStorage \<Rightarrow> string \<Rightarrow> (bytes \<times> time) option" where
  "cacheStat sha256 io js key =
     (let p = cachePath sha256 js key
      in if p = '''' then None
         else if io_read io then None
         else js_disk js p)"

definition cacheDelete :: "(bytes \<Rightarrow> bytes) \<Rightarrow> io_faults \<Rightarrow> string \<Rightarrow> JacoStorage \<Rightarrow> JacoStorage" where
  "cacheDelete sha256 io key js =
     (let p = cachePath sha256 js key
      in if p \<noteq> '''' then (if io_remove io then js else js\<lparr>js_disk := (js_disk js)(p := None)\<rparr>) else js)"

section \<open>Blobs\<close>

definition applyBlobUpsert :: "applier \<Rightarrow> time \<Rightarrow> string \<Rightarrow> bytes \<Rightarrow> State \<Rightarrow> string option \<times> State" where
  "applyBlobUpsert submit now key value s =
     submit (mk_cmd ''ingress'' now (CertBlobUpsert (Some \<lparr>cb_key = key, cb_value = value, cb_updated_at = Some now\<rparr>))) s"

definition Storage_Store :: "(bytes \<Rightarrow> bytes) \<Rightarrow> applier \<Rightarrow> io_faults \<Rightarrow> time \<Rightarrow> string \<Rightarrow> bytes \<Rightarrow> JacoStorage \<times> State
    \<Rightarrow> storage_error option \<times> JacoStorage \<times> State" where
  "Storage_Store sha256 submit io now key value = (\<lambda>(js, s).
     (if key = '''' then (Some KeyRequired, js, s)
      else
        (case applyBlobUpsert submit now key value s of
           (Some err, s1) \<Rightarrow> (Some (ApplyFailed err), js, s1)
         | (None, s1) \<Rightarrow>
             (let js1 = cacheWrite sha256 io now key value js;
                  js2 = (if js_onChallengeStore js1 \<and> sublist challengeTokenKeyMarker key
                         then js1\<lparr>js_published := js_published js1 @ [value]\<rparr> else js1)
              in (None, js2, s1)))))"

definition Load :: "(bytes \<Rightarrow> bytes) \<Rightarrow> applier \<Rightarrow> io_faults \<Rightarrow> time \<Rightarrow> string \<Rightarrow> JacoStorage \<times> State
    \<Rightarrow> (storage_error + bytes) \<times> State" where
  "Load sha256 submit io now key = (\<lambda>(js, s).
     (case Store_Get (CertBlobs s) key of
        Some b \<Rightarrow> (Inr (cb_value b), s)
      | None \<Rightarrow>
          (case cacheRead sha256 io js key of
             Some v \<Rightarrow> (let (_, s1) = applyBlobUpsert submit now key v s in (Inr v, s1))
           | None \<Rightarrow> (Inl (ErrNotExist key), s))))"

definition Delete :: "(bytes \<Rightarrow> bytes) \<Rightarrow> applier \<Rightarrow> io_faults \<Rightarrow> time \<Rightarrow> string \<Rightarrow> JacoStorage \<times> State
    \<Rightarrow> storage_error option \<times> JacoStorage \<times> State" where
  "Delete sha256 submit io now key = (\<lambda>(js, s).
     (case submit (mk_cmd ''ingress'' now (CertBlobRemove key)) s of
        (Some err, s1) \<Rightarrow> (Some (ApplyFailed err), js, s1)
      | (None, s1) \<Rightarrow> (None, cacheDelete sha256 io key js, s1)))"

definition Exists :: "(bytes \<Rightarrow> bytes) \<Rightarrow> io_faults \<Rightarrow> string \<Rightarrow> JacoStorage \<times> State \<Rightarrow> bool" where
  "Exists sha256 io key = (\<lambda>(js, s).
     (case Store_Get (CertBlobs s) key of
        Some _ \<Rightarrow> True
      | None \<Rightarrow> cacheRead sha256 io js key \<noteq> None))"

definition Stat :: "(bytes \<Rightarrow> bytes) \<Rightarrow> io_faults \<Rightarrow> string \<Rightarrow> JacoStorage \<times> State \<Rightarrow> storage_error + KeyInfo" where
  "Stat sha256 io key = (\<lambda>(js, s).
     (case Store_Get (CertBlobs s) key of
        Some b \<Rightarrow> Inr \<lparr>ki_Key = key, ki_Modified = AsTime (cb_updated_at b), ki_Size = length (cb_value b), ki_IsTerminal = True\<rparr>
      | None \<Rightarrow>
          (case cacheStat sha256 io js key of
             Some (v, modTime) \<Rightarrow> Inr \<lparr>ki_Key = key, ki_Modified = modTime, ki_Size = length v, ki_IsTerminal = True\<rparr>
           | None \<Rightarrow> Inl (ErrNotExist key))))"

text \<open>What \<open>List\<close> records for one key.\<close>

definition list_entry :: "string \<Rightarrow> bool \<Rightarrow> string \<Rightarrow> string option" where
  "list_entry pre recursive k =
     (if \<not> prefix pre k then None
      else
        let remainder = drop (length pre) k;
            remainder = (if prefix ''/'' remainder then tl remainder else remainder)
        in if remainder = '''' then None
           else if recursive then Some k
           else
             let remainder = takeWhile (\<lambda>c. c \<noteq> CHR ''/'') remainder
             in if pre = '''' then Some remainder
                else if suffix ''/'' pre then Some (pre @ remainder)
                else Some (pre @ ''/'' @ remainder))"

definition Storage_List :: "string \<Rightarrow> bool \<Rightarrow> State \<Rightarrow> string list" where
  "Storage_List pre recursive s =
     sort (remdups (List.map_filter (list_entry pre recursive) (map cb_key (Store_List (CertBlobs s)))))"

end
