(* ===== verification/CertStorageProps.thy ===== *)
theory CertStorageProps
  imports CertStorage NetIP
begin

text \<open>
  What the certificate storage guarantees: a renewed lock excludes the other nodes, at most one
  renewer runs per lock, blobs are stored and found again, also after the replicated state is
  lost, and listings are the children of a prefix.
\<close>

section \<open>Locks exclude\<close>

lemma certs_after_lock:
  assumes "state_ok s"
  shows "Store_Get (Certs (apply_command i (mk_cmd u now (CertLock name l (Some till))) s)) name =
    (case Store_Get (Certs s) name of
       None \<Rightarrow> Some \<lparr>ct_domain = name, ct_private_key = '''', ct_cert_chain = '''', ct_not_before = None,
         ct_not_after = None, ct_lessee = l, ct_lock_until = Some till\<rparr>
     | Some c \<Rightarrow> if lock_held_by_other c l now then Some c else Some (c\<lparr>ct_lessee := l, ct_lock_until := Some till\<rparr>))"
proof -
  have "ct_domain c = name" if "Store_Get (Certs s) name = Some c" for c
    using assms that by (auto simp: state_ok_def intro: Store_Get_key)
  then show ?thesis
    by (auto simp: apply_command.simps [of i "mk_cmd _ _ _"] h_CertLock_def audit_append_sel split: option.splits)
qed

text \<open>What happens to a lock while a node holds it: attempts of others, renewals, other commands.\<close>

datatype lock_event = Attempt JacoStorage time | Renewed time | Logged "uint64 \<times> Command"

fun lock_trace :: "uint64 \<Rightarrow> string \<Rightarrow> JacoStorage \<Rightarrow> lock_event list \<Rightarrow> State \<Rightarrow> storage_error option list \<times> State" where
  "lock_trace idx name holder [] s = ([], s)"
| "lock_trace idx name holder (Attempt js now # evs) s =
     (let (err, _, s1) = Lock (leader_apply idx) now name (js, s); (errs, s2) = lock_trace idx name holder evs s1 in (err # errs, s2))"
| "lock_trace idx name holder (Renewed now # evs) s = lock_trace idx name holder evs (snd (applyLock (leader_apply idx) now holder name s))"
| "lock_trace idx name holder (Logged e # evs) s = lock_trace idx name holder evs (run_log [e] s)"

text \<open>Every attempt comes before the current lease runs out; nobody unlocks the name.\<close>

fun covered :: "string \<Rightarrow> JacoStorage \<Rightarrow> time \<Rightarrow> lock_event list \<Rightarrow> bool" where
  "covered name holder till [] = True"
| "covered name holder till (Attempt js now # evs) = (js_lessee js \<noteq> js_lessee holder \<and> now < till \<and> covered name holder till evs)"
| "covered name holder till (Renewed now # evs) = covered name holder (now + LockTTL) evs"
| "covered name holder till (Logged e # evs) = (leaves_sat (others_before name (js_lessee holder) till) [e] \<and> covered name holder till evs)"

lemma lock_attempt_fails:
  assumes "state_ok s" "lease_held name l till s" "l \<noteq> ''''" "js_lessee js \<noteq> l" "now < till"
  shows "\<exists>s1. Lock (leader_apply idx) now name (js, s) = (Some ErrLockHeld, js, s1) \<and> state_ok s1 \<and> lease_held name l till s1"
proof -
  define cmd where "cmd = mk_cmd ''ingress'' now (CertLock name (js_lessee js) (Some (now + LockTTL)))"
  obtain c where c: "Store_Get (Certs s) name = Some c" "ct_lessee c = l" "ct_lock_until c = Some till"
    using assms(2) by (auto simp: lease_held_def split: option.splits)
  have "lock_held_by_other c (js_lessee js) now" using c assms(3-5) by (simp add: lock_held_by_other_def)
  then have g: "Store_Get (Certs (apply_command idx cmd s)) name = Some c"
    using c(1) by (simp add: cmd_def certs_after_lock [OF assms(1)])
  have "state_ok (apply_command idx cmd s)" using assms(1) ok_inv.apply_command_inv by (simp add: list_all_iff)
  moreover have "lease_held name l till (apply_command idx cmd s)" using g c(2,3) by (simp add: lease_held_def)
  moreover have "Lock (leader_apply idx) now name (js, s) = (Some ErrLockHeld, js, apply_command idx cmd s)"
    using g c(2) assms(4) by (simp add: Lock_def applyLock_def leader_apply_eq cmd_def [symmetric])
  ultimately show ?thesis by blast
qed

lemma lock_renewed:
  assumes "state_ok s" "lease_held name (js_lessee js) till s"
  shows "state_ok (snd (applyLock (leader_apply idx) now js name s))
    \<and> lease_held name (js_lessee js) (now + LockTTL) (snd (applyLock (leader_apply idx) now js name s))"
proof -
  obtain c where c: "Store_Get (Certs s) name = Some c" "ct_lessee c = js_lessee js"
    using assms(2) by (auto simp: lease_held_def split: option.splits)
  then have "\<not> lock_held_by_other c (js_lessee js) now" by (simp add: lock_held_by_other_def)
  with c certs_after_lock [OF assms(1)] assms(1) ok_inv.apply_command_inv show ?thesis
    by (simp add: applyLock_def leader_apply_eq lease_held_def list_all_iff)
qed

lemma trace_keeps_lease:
  assumes "state_ok s" "lease_held name (js_lessee holder) till s" "js_lessee holder \<noteq> ''''" "covered name holder till evs"
  shows "set (fst (lock_trace idx name holder evs s)) \<subseteq> {Some ErrLockHeld}
    \<and> (\<exists>till'. lease_held name (js_lessee holder) till' (snd (lock_trace idx name holder evs s)))"
  using assms
proof (induction evs arbitrary: s till)
  case (Cons ev evs)
  show ?case
  proof (cases ev)
    case (Attempt js now)
    with Cons.prems obtain s1 where s1: "Lock (leader_apply idx) now name (js, s) = (Some ErrLockHeld, js, s1)"
        "state_ok s1" "lease_held name (js_lessee holder) till s1"
      using lock_attempt_fails [of s name "js_lessee holder" till js now idx] by auto
    with Cons.IH [of s1 till] Cons.prems Attempt show ?thesis
      by (cases "lock_trace idx name holder evs s1") (simp add: s1(1))
  next
    case (Renewed now)
    with lock_renewed [of s name holder till idx now] Cons.prems
      Cons.IH [of "snd (applyLock (leader_apply idx) now holder name s)" "now + LockTTL"] show ?thesis by simp
  next
    case (Logged e)
    with Cons.prems lease_inv.run_log_keeps [of name "js_lessee holder" till s "[e]"] Cons.IH [of "run_log [e] s" till]
    show ?thesis by (simp add: lease_kept_def)
  qed
qed (auto simp: lease_held_def)



text \<open>
  Unlocking does not check who holds the lock: when a node's lease has run out and another node
  has taken the lock over, the late \<open>Unlock\<close> of the first node releases the lock of the second, and a
  third node acquires it while the lease of the second still runs.
\<close>

theorem stale_unlock_releases_other:
  assumes "state_ok s" "lease_held name (js_lessee b) till s" "js_lessee b \<noteq> ''''" "js_lessee c \<noteq> js_lessee b"
    and "Unlock (leader_apply idx) t1 name (a, s) = (err, a', s')" "t2 < till"
  shows "fst (Lock (leader_apply idx) t2 name (c, s)) = Some ErrLockHeld
    \<and> err = None \<and> fst (Lock (leader_apply idx) t2 name (c, s')) = None"
proof (intro conjI)
  show "fst (Lock (leader_apply idx) t2 name (c, s)) = Some ErrLockHeld"
    using lock_attempt_fails [OF assms(1-3), of c t2 idx] assms(4,6) by auto
  have s': "s' = apply_command idx (mk_cmd ''ingress'' t1 (CertUnlock name)) s" and "err = None"
    using assms(5) by (simp_all add: Unlock_def leader_apply_eq submitted_def)
  show "err = None" by fact
  have ok: "state_ok s'" using assms(1) ok_inv.apply_command_inv by (simp add: s' list_all_iff)
  obtain x where x: "Store_Get (Certs s) name = Some x" "ct_domain x = name"
    using assms(1,2) Store_Get_key [of ct_domain "Certs s" name] by (auto simp: lease_held_def state_ok_def split: option.splits)
  have g: "Store_Get (Certs s') name = Some (x\<lparr>ct_lessee := '''', ct_lock_until := None\<rparr>)"
    unfolding s' using x by (simp add: apply_command.simps [of idx "mk_cmd _ _ _"] h_CertUnlock_def audit_append_sel)
  show "fst (Lock (leader_apply idx) t2 name (c, s')) = None"
    by (simp add: Lock_def applyLock_def leader_apply_eq certs_after_lock [OF ok] g lock_held_by_other_def)
qed

section \<open>Renewers\<close>

text \<open>The running renewers are the registered ones, each under a number handed out before.\<close>

definition renewers_ok :: "JacoStorage \<Rightarrow> bool" where
  "renewers_ok js \<longleftrightarrow> (\<forall>g name. js_live js g = Some name \<longrightarrow> js_renewers js name = Some g)
     \<and> (\<forall>g \<in> ran (js_renewers js). g < js_next js)"

datatype storage_call = CallLock time string | CallUnlock time string | CallRenew nat renew_event

fun run_calls :: "applier \<Rightarrow> storage_call list \<Rightarrow> JacoStorage \<times> State \<Rightarrow> JacoStorage \<times> State" where
  "run_calls submit [] w = w"
| "run_calls submit (CallLock t n # cs) w = run_calls submit cs (snd (Lock submit t n w))"
| "run_calls submit (CallUnlock t n # cs) w = run_calls submit cs (snd (Unlock submit t n w))"
| "run_calls submit (CallRenew g e # cs) w = run_calls submit cs (renewLoop submit g e w)"

lemma renewers_ok_start: "renewers_ok js \<Longrightarrow> renewers_ok (startRenewer name js)"
  by (auto simp: renewers_ok_def startRenewer_def Let_def ran_def less_Suc_eq split: option.splits if_splits)

lemma renewers_ok_stop: "renewers_ok js \<Longrightarrow> renewers_ok (stopRenewer name js)"
  by (auto simp: renewers_ok_def stopRenewer_def ran_def split: option.splits if_splits)

lemma renewers_ok_run: "renewers_ok (fst w) \<Longrightarrow> renewers_ok (fst (run_calls submit cs w))"
proof (induction submit cs w rule: run_calls.induct)
  case (2 submit t n cs w)
  then show ?case
    by (cases w) (auto simp: Lock_def renewers_ok_start split: prod.splits option.splits if_splits)
next
  case (3 submit t n cs w)
  then show ?case by (cases w) (auto simp: Unlock_def renewers_ok_stop split: prod.splits)
next
  case (4 submit g e cs w)
  then show ?case
    by (cases w) (auto simp: renewLoop_def renewers_ok_def split: option.splits renew_event.splits if_splits)
qed simp


text \<open>
  At most one renewer runs per lock: after any sequence of lock, unlock and renewer steps of a
  node, whatever raft answers, no two running renewers have the same lock, and none renews a
  lock after the node has unlocked it.
\<close>

theorem renewer_unique:
  assumes "run_calls (Node_Apply raft) cs (NewWithCache lessee dir files, s) = (js, s')"
  shows "(js_live js g = Some name \<and> js_live js h = Some name \<longrightarrow> g = h)
    \<and> name \<notin> ran (js_live (fst (snd (Unlock (Node_Apply raft) t name (js, s')))))"
proof -
  have ok: "renewers_ok js"
    using renewers_ok_run [of "(NewWithCache lessee dir files, s)" "Node_Apply raft" cs] assms
    by (simp add: NewWithCache_def renewers_ok_def)
  have "fst (snd (Unlock (Node_Apply raft) t name (js, s'))) = stopRenewer name js"
    by (simp add: Unlock_def split: prod.split)
  moreover have "name \<notin> ran (js_live (stopRenewer name js))"
    using ok by (auto simp: renewers_ok_def stopRenewer_def ran_def split: option.splits if_splits)
  moreover have "g = h" if "js_live js g = Some name" "js_live js h = Some name"
    using ok that by (metis renewers_ok_def option.inject)
  ultimately show ?thesis by simp
qed

section \<open>Blobs\<close>

lemma blobs_after_upsert:
  "Store_Get (CertBlobs (apply_command i (mk_cmd u now (CertBlobUpsert (Some \<lparr>cb_key = k, cb_value = v, cb_updated_at = Some t\<rparr>))) s)) =
    (Store_Get (CertBlobs s))(k \<mapsto> \<lparr>cb_key = k, cb_value = v, cb_updated_at = Some t\<rparr>)"
  by (simp add: apply_command.simps [of i "mk_cmd _ _ _"] h_CertBlobUpsert_def audit_append_sel)

lemma blobs_after_remove:
  "k \<noteq> '''' \<Longrightarrow> Store_Get (CertBlobs (apply_command i (mk_cmd u now (CertBlobRemove k)) s)) = (Store_Get (CertBlobs s))(k := None)"
  by (simp add: apply_command.simps [of i "mk_cmd _ _ _"] h_CertBlobRemove_def audit_append_sel)

lemma hex_digit_neq_dot: "d < 16 \<Longrightarrow> hex_digit d \<noteq> CHR ''.''"
proof
  assume d: "d < 16" and "hex_digit d = CHR ''.''"
  then have "of_char (hex_digit d) = (46 :: nat)" by simp
  with d show False by (auto simp: hex_digit_def of_char_of split: if_splits)
qed

lemma EncodeToString_no_dot: "CHR ''.'' \<notin> set (EncodeToString xs)"
proof (induction xs)
  case (Cons x xs)
  have "(of_char x :: nat) div 16 < 16" using nat_of_char_less_256 [of x] by (simp add: less_mult_imp_div_less)
  with Cons hex_digit_neq_dot [of "of_char x div 16"] hex_digit_neq_dot [of "of_char x mod 16"] show ?case by auto
qed simp

lemma cachePath_not_tmp: "js_cacheDir js \<noteq> '''' \<Longrightarrow> cachePath sha256 js k \<noteq> cachePath sha256 js k' @ ''.tmp''"
  using EncodeToString_no_dot [of "sha256 k"] EncodeToString_no_dot [of "sha256 k'"]
  by (auto simp: cachePath_def dest: arg_cong [of _ _ set])

lemma cachePath_inject: "js_cacheDir js \<noteq> '''' \<Longrightarrow> cachePath sha256 js k = cachePath sha256 js k' \<longleftrightarrow> sha256 k = sha256 k'"
  by (simp add: cachePath_def)

lemma cache_after_write:
  "sha256 k' \<noteq> sha256 k \<Longrightarrow> cacheStat sha256 io (cacheWrite sha256 io' now k v js) k' = cacheStat sha256 io js k'"
  "io_write io' = NoFault \<Longrightarrow> cacheStat sha256 io (cacheWrite sha256 io' now k v js) k =
     (if js_cacheDir js = '''' \<or> io_read io then None else Some (v, now))"
  using cachePath_not_tmp [of js sha256 k' k] cachePath_not_tmp [of js sha256 k k] cachePath_inject [of js sha256 k' k]
  by (cases "js_cacheDir js = ''''"; auto simp: cacheStat_def cacheWrite_def Let_def cachePath_def split: write_fault.split)+

lemma cacheRead_Stat: "cacheRead sha256 io js k = map_option fst (cacheStat sha256 io js k)"
  by (simp add: cacheRead_def cacheStat_def Let_def)


lemma cache_after_delete:
  "sha256 k' \<noteq> sha256 k \<Longrightarrow> cacheStat sha256 io (cacheDelete sha256 io' k js) k' = cacheStat sha256 io js k'"
  "\<not> io_remove io' \<Longrightarrow> cacheStat sha256 io (cacheDelete sha256 io' k js) k = None"
  using cachePath_inject [of js sha256 k' k] by (auto simp: cacheStat_def cacheDelete_def cachePath_def Let_def)

lemma Store_leader:
  assumes "Storage_Store sha256 (leader_apply idx) io now key value (js, s) = (None, js', s')"
  shows "key \<noteq> ''''" and "Store_Get (CertBlobs s') = (Store_Get (CertBlobs s))(key \<mapsto> \<lparr>cb_key = key, cb_value = value, cb_updated_at = Some now\<rparr>)"
    and "cacheStat sha256 io' js' k = cacheStat sha256 io' (cacheWrite sha256 io now key value js) k" "js_cacheDir js' = js_cacheDir js"
  using assms
  by (auto simp: Storage_Store_def applyBlobUpsert_def leader_apply_eq blobs_after_upsert Let_def cacheStat_def cachePath_def cacheWrite_def
      split: if_splits write_fault.splits)

lemma Delete_leader:
  assumes "key \<noteq> ''''" "Delete sha256 (leader_apply idx) io now key (js, s) = (err, js', s')"
  shows "err = None" "Store_Get (CertBlobs s') = (Store_Get (CertBlobs s))(key := None)" "js' = cacheDelete sha256 io key js"
  using assms by (auto simp: Delete_def leader_apply_eq blobs_after_remove)

lemma Load_content:
  "fst (Load sha256 submit io now k (js, s)) = (case Store_Get (CertBlobs s) k of Some b \<Rightarrow> Inr (cb_value b)
     | None \<Rightarrow> (case cacheStat sha256 io js k of Some (v, _) \<Rightarrow> Inr v | None \<Rightarrow> Inl (ErrNotExist k)))"
  by (auto simp: Load_def cacheRead_Stat split: option.splits prod.splits)

text \<open>
  C31. A stored blob is found again until it is deleted: after \<open>Store\<close>, \<open>Load\<close> and \<open>Stat\<close> return its
  value, size and time, and keys with another hash are as before; a node whose replicated state
  has lost the blob still loads it from disk and puts it back for its peers; after \<open>Delete\<close>
  it is gone from the state and from the disk.
\<close>

theorem blob_roundtrip:
  assumes "Storage_Store sha256 (leader_apply idx) io now key value (js, s) = (None, js', s')" "io_write io = NoFault"
    and "sha256 k \<noteq> sha256 key"
    and "Store_Get (CertBlobs wiped) key = None" "js_cacheDir js \<noteq> ''''" "\<not> io_read io'"
    and "Delete sha256 (leader_apply idx) io2 now2 key (js', s') = (err, js2, s2)" "\<not> io_remove io2"
  shows "Load sha256 submit io' t key (js', s') = (Inr value, s')
    \<and> Stat sha256 io' key (js', s') = Inr \<lparr>ki_Key = key, ki_Modified = now, ki_Size = length value, ki_IsTerminal = True\<rparr>
    \<and> fst (Load sha256 submit io' t k (js', s')) = fst (Load sha256 submit io' t k (js, s))
    \<and> (\<exists>repaired. Load sha256 (leader_apply idx) io' t key (js', wiped) = (Inr value, repaired)
        \<and> Load sha256 submit io' t key (other, repaired) = (Inr value, repaired))
    \<and> err = None \<and> \<not> Exists sha256 io' key (js2, s2) \<and> Load sha256 submit io' t key (js2, s2) = (Inl (ErrNotExist key), s2)
    \<and> fst (Load sha256 submit io' t k (js2, s2)) = fst (Load sha256 submit io' t k (js, s))"
proof -
  note st = Store_leader [OF assms(1)]
  note de = Delete_leader [OF st(1) assms(7)]
  have k: "k \<noteq> key" using assms(3) by auto
  have cs: "cacheStat sha256 io' js' key = Some (value, now)"
    using assms(2,5,6) by (simp add: st(3) cache_after_write)
  have cr: "cacheRead sha256 io' js' key = Some value" by (simp add: cacheRead_Stat cs)
  have other: "cacheStat sha256 io' js' k = cacheStat sha256 io' js k" using assms(3) by (simp add: st(3) cache_after_write)
  have d: "cacheStat sha256 io' js2 key = None" "cacheStat sha256 io' js2 k = cacheStat sha256 io' js k"
    using assms(3,8) other by (simp_all add: de(3) cache_after_delete)
  then have dr: "cacheRead sha256 io' js2 key = None" by (simp add: cacheRead_Stat)
  have "Store_Get (CertBlobs s') k = Store_Get (CertBlobs s) k" "Store_Get (CertBlobs s2) k = Store_Get (CertBlobs s) k"
    using k by (simp_all add: st(2) de(2))
  then have "fst (Load sha256 submit io' t k (js', s')) = fst (Load sha256 submit io' t k (js, s))"
      "fst (Load sha256 submit io' t k (js2, s2)) = fst (Load sha256 submit io' t k (js, s))"
    by (simp_all only: Load_content other d)
  with assms(4) show ?thesis
    by (simp add: Load_def Stat_def Exists_def st(2) de(1,2) dr cr applyBlobUpsert_def leader_apply_eq blobs_after_upsert)
qed


section \<open>Listings\<close>

text \<open>A key of certmagic is a path: segments that are not empty, joined by slashes.\<close>

fun joinp :: "string list \<Rightarrow> string" where
  "joinp [] = ''''"
| "joinp [x] = x"
| "joinp (x # y # xs) = x @ CHR ''/'' # joinp (y # xs)"

definition clean :: "string list \<Rightarrow> bool" where
  "clean segs \<longleftrightarrow> (\<forall>x \<in> set segs. x \<noteq> '''' \<and> CHR ''/'' \<notin> set x)"

lemma joinp_append: "ps \<noteq> [] \<Longrightarrow> qs \<noteq> [] \<Longrightarrow> joinp (ps @ qs) = joinp ps @ CHR ''/'' # joinp qs"
  by (induction ps rule: joinp.induct) (cases qs; simp)+

lemma splitOn_joinp: "clean segs \<Longrightarrow> segs \<noteq> [] \<Longrightarrow> splitOn CHR ''/'' (joinp segs) = segs"
  by (induction segs rule: joinp.induct) (auto simp: clean_def splitOn_no splitOn_append)

lemma splitOn_append_sep: "splitOn c (xs @ c # ys) = splitOn c xs @ splitOn c ys"
proof (induction xs)
  case (Cons x xs)
  have "splitOn c xs \<noteq> []" by (cases xs) (auto split: list.splits)
  with Cons show ?case by (auto split: list.splits)
qed simp

lemma joinp_below:
  assumes "clean segs" "clean ps" "ps \<noteq> []" "joinp segs = joinp ps @ CHR ''/'' # zs"
  shows "\<exists>rest. segs = ps @ rest \<and> rest \<noteq> []"
proof -
  have "segs \<noteq> []" using assms(4) by auto
  then have "segs = splitOn CHR ''/'' (joinp segs)" using assms(1) by (simp add: splitOn_joinp)
  also have "\<dots> = ps @ splitOn CHR ''/'' zs" using assms(2,3) by (simp add: assms(4) splitOn_append_sep splitOn_joinp)
  finally show ?thesis by (metis append_Nil2 assms(4) list.distinct(1) not_Cons_self same_append_eq)
qed

lemma joinp_head:
  assumes "clean (c # rest)"
  shows "takeWhile (\<lambda>x. x \<noteq> CHR ''/'') (joinp (c # rest)) = c" "joinp (c # rest) \<noteq> ''''" "\<not> prefix ''/'' (joinp (c # rest))"
proof -
  have c: "c \<noteq> ''''" "CHR ''/'' \<notin> set c" using assms by (auto simp: clean_def)
  have t: "takeWhile (\<lambda>x. x \<noteq> CHR ''/'') c = c" using c(2) by (intro takeWhile_eq_all_conv [THEN iffD2]) blast
  have tc: "takeWhile (\<lambda>x. x \<noteq> CHR ''/'') (c @ CHR ''/'' # ys) = c" for ys
    using c(2) t by (induction c) auto
  show "takeWhile (\<lambda>x. x \<noteq> CHR ''/'') (joinp (c # rest)) = c" using t tc by (cases rest) auto
  show "joinp (c # rest) \<noteq> ''''" using c(1) by (cases rest) auto
  show "\<not> prefix ''/'' (joinp (c # rest))" using c by (cases rest; cases c) auto
qed


lemma suffix_last: "suffix [c] xs \<longleftrightarrow> xs \<noteq> [] \<and> last xs = c"
  by (metis append_butlast_last_id last_snoc snoc_eq_iff_butlast suffix_def)

lemma joinp_no_slash_end: "clean ps \<Longrightarrow> \<not> suffix ''/'' (joinp ps)"
proof (induction ps rule: joinp.induct)
  case (2 x)
  then show ?case by (auto simp: clean_def suffix_def)
next
  case (3 x y xs)
  then have "\<not> suffix ''/'' (joinp (y # xs))" "joinp (y # xs) \<noteq> ''''"
    using joinp_head(2) [of y xs] by (auto simp: clean_def)
  then show ?case by (simp add: suffix_last)
qed simp

lemma list_entry_joinp:
  assumes "clean ps" "clean segs" "segs \<noteq> []"
    and "prefix (joinp ps) (joinp segs) \<Longrightarrow> ps = [] \<or> segs = ps \<or> prefix (joinp ps @ ''/'') (joinp segs)"
  shows "list_entry (joinp ps) recursive (joinp segs) =
    (if \<exists>c rest. segs = ps @ c # rest
     then Some (if recursive then joinp segs else joinp (ps @ [hd (drop (length ps) segs)])) else None)"
proof (cases "\<exists>c rest. segs = ps @ c # rest")
  case True
  then obtain c rest where r: "segs = ps @ c # rest" by blast
  then have cl: "clean (c # rest)" using assms(2) by (auto simp: clean_def)
  note h = joinp_head [OF cl]
  show ?thesis
  proof (cases "ps = []")
    case True
    with r h show ?thesis by (simp add: list_entry_def Let_def)
  next
    case False
    then have "joinp segs = joinp ps @ CHR ''/'' # joinp (c # rest)" "joinp (ps @ [c]) = joinp ps @ ''/'' @ c"
      using joinp_append [OF False, of "c # rest"] joinp_append [OF False, of "[c]"] by (simp_all add: r)
    moreover have "joinp ps \<noteq> ''''" using False joinp_head(2) [of "hd ps" "tl ps"] assms(1) by (cases ps) auto
    ultimately show ?thesis using r h joinp_no_slash_end [OF assms(1)] by (simp add: list_entry_def Let_def)
  qed
next
  case False
  have "ps \<noteq> []" using False assms(3) by (cases segs) auto
  have "\<not> prefix (joinp ps) (joinp segs) \<or> segs = ps"
    using assms(4) False \<open>ps \<noteq> []\<close> joinp_below [OF assms(2,1) \<open>ps \<noteq> []\<close>] by (auto simp: prefix_def neq_Nil_conv)
  with False show ?thesis by (auto simp: list_entry_def Let_def)
qed

lemma entries_below:
  assumes "clean ps" "\<forall>k \<in> K. \<exists>segs. clean segs \<and> segs \<noteq> [] \<and> k = joinp segs"
    and "\<forall>k \<in> K. prefix (joinp ps) k \<longrightarrow> ps = [] \<or> k = joinp ps \<or> prefix (joinp ps @ ''/'') k"
  shows "(\<exists>k \<in> K. list_entry (joinp ps) rec k = Some x) \<longleftrightarrow>
    (\<exists>c rest. clean (c # rest) \<and> joinp (ps @ c # rest) \<in> K \<and> x = (if rec then joinp (ps @ c # rest) else joinp (ps @ [c])))"
proof -
  have entry: "list_entry (joinp ps) rec (joinp segs) =
    (if \<exists>c rest. segs = ps @ c # rest then Some (if rec then joinp segs else joinp (ps @ [hd (drop (length ps) segs)])) else None)"
    if "clean segs" "segs \<noteq> []" "joinp segs \<in> K" for segs
  proof (rule list_entry_joinp [OF assms(1) that(1,2)])
    assume "prefix (joinp ps) (joinp segs)"
    with assms(3) that(3) have "ps = [] \<or> joinp segs = joinp ps \<or> prefix (joinp ps @ ''/'') (joinp segs)" by blast
    then show "ps = [] \<or> segs = ps \<or> prefix (joinp ps @ ''/'') (joinp segs)"
      using splitOn_joinp [OF that(1,2)] splitOn_joinp [OF assms(1)] by metis
  qed
  show ?thesis
  proof
    assume "\<exists>k \<in> K. list_entry (joinp ps) rec k = Some x"
    then obtain k where k: "k \<in> K" "list_entry (joinp ps) rec k = Some x" by blast
    with assms(2) obtain segs where segs: "clean segs" "segs \<noteq> []" "k = joinp segs" by blast
    with k entry [of segs] obtain c rest where "segs = ps @ c # rest" "x = (if rec then joinp segs else joinp (ps @ [c]))"
      by (auto split: if_splits)
    with segs k(1) show "\<exists>c rest. clean (c # rest) \<and> joinp (ps @ c # rest) \<in> K \<and> x = (if rec then joinp (ps @ c # rest) else joinp (ps @ [c]))"
      by (intro exI [of _ c] exI [of _ rest]) (auto simp: clean_def)
  next
    assume "\<exists>c rest. clean (c # rest) \<and> joinp (ps @ c # rest) \<in> K \<and> x = (if rec then joinp (ps @ c # rest) else joinp (ps @ [c]))"
    then obtain c rest where r: "clean (c # rest)" "joinp (ps @ c # rest) \<in> K" "x = (if rec then joinp (ps @ c # rest) else joinp (ps @ [c]))"
      by blast
    then have "clean (ps @ c # rest)" using assms(1) by (auto simp: clean_def)
    with entry [of "ps @ c # rest"] r(2,3) show "\<exists>k \<in> K. list_entry (joinp ps) rec k = Some x" by auto
  qed
qed

text \<open>
  A listing is what a directory listing is: for clean keys, of which none continues the last segment
  of the prefix, a recursive listing has exactly the keys below the prefix and a flat one exactly
  its direct children, each once and in order.
\<close>

theorem List_exact:
  assumes "clean ps" "\<forall>k \<in> cb_key ` set (Store_List (CertBlobs s)). \<exists>segs. clean segs \<and> segs \<noteq> [] \<and> k = joinp segs"
    and "\<forall>k \<in> cb_key ` set (Store_List (CertBlobs s)). prefix (joinp ps) k \<longrightarrow> ps = [] \<or> k = joinp ps \<or> prefix (joinp ps @ ''/'') k"
  shows "set (Storage_List (joinp ps) True s) =
      {joinp (ps @ rest) |rest. clean rest \<and> rest \<noteq> [] \<and> joinp (ps @ rest) \<in> cb_key ` set (Store_List (CertBlobs s))}
    \<and> set (Storage_List (joinp ps) False s) =
      {joinp (ps @ [c]) |c rest. clean (c # rest) \<and> joinp (ps @ c # rest) \<in> cb_key ` set (Store_List (CertBlobs s))}
    \<and> sorted (Storage_List (joinp ps) recursive s) \<and> distinct (Storage_List (joinp ps) recursive s)"
proof -
  have mem: "x \<in> set (Storage_List (joinp ps) rec s) \<longleftrightarrow>
    (\<exists>c rest. clean (c # rest) \<and> joinp (ps @ c # rest) \<in> cb_key ` set (Store_List (CertBlobs s))
      \<and> x = (if rec then joinp (ps @ c # rest) else joinp (ps @ [c])))" for x rec
    unfolding entries_below [OF assms, symmetric] by (auto simp: Storage_List_def map_filter_def image_iff)
  have "set (Storage_List (joinp ps) True s) =
      {joinp (ps @ rest) |rest. clean rest \<and> rest \<noteq> [] \<and> joinp (ps @ rest) \<in> cb_key ` set (Store_List (CertBlobs s))}"
    unfolding set_eq_iff mem by (auto simp: neq_Nil_conv)
  moreover have "set (Storage_List (joinp ps) False s) =
      {joinp (ps @ [c]) |c rest. clean (c # rest) \<and> joinp (ps @ c # rest) \<in> cb_key ` set (Store_List (CertBlobs s))}"
    unfolding set_eq_iff mem by auto
  ultimately show ?thesis by (simp add: Storage_List_def)
qed


section \<open>Examples\<close>

definition ex_storage :: "string \<Rightarrow> JacoStorage" where
  "ex_storage h = NewWithCache h ''/c'' Map.empty"

definition ex_locked :: "storage_error option \<times> JacoStorage \<times> State" where
  "ex_locked = Lock (leader_apply 3) 100 ''a.io'' (ex_storage ''n1'', State_New)"

lemma ex_locked_fst: "fst ex_locked = None"
  by code_simp

lemma ex_locked_eq: "Lock (leader_apply 3) 100 ''a.io'' (ex_storage ''n1'', State_New) = (None, fst (snd ex_locked), snd (snd ex_locked))"
  using ex_locked_fst unfolding ex_locked_def by (metis prod.collapse)

lemma ex_locked_ok: "state_ok (snd (snd ex_locked))" "lease_held ''a.io'' ''n1'' (100 + LockTTL) (snd (snd ex_locked))"
proof -
  have "snd (snd ex_locked) = run_log [(3, mk_cmd ''ingress'' 100 (CertLock ''a.io'' ''n1'' (Some (100 + LockTTL))))] State_New"
    by (simp add: ex_locked_def Lock_def applyLock_def leader_apply_eq ex_storage_def NewWithCache_def split: option.split)
  then show "state_ok (snd (snd ex_locked))" by (simp add: state_ok_run_log state_ok_New del: run_log_simps)
  show "lease_held ''a.io'' ''n1'' (100 + LockTTL) (snd (snd ex_locked))" by code_simp
qed


theorem stale_unlock_releases_other_witness:
  "fst (Lock (leader_apply 3) 200 ''a.io'' (ex_storage ''n3'', snd (snd ex_locked))) = Some ErrLockHeld
   \<and> fst (Lock (leader_apply 3) 200 ''a.io'' (ex_storage ''n3'',
       snd (snd (Unlock (leader_apply 3) 150 ''a.io'' (ex_storage ''n2'', snd (snd ex_locked)))))) = None"
  using stale_unlock_releases_other [OF ex_locked_ok(1), of "''a.io''" "ex_storage ''n1''" "100 + LockTTL" "ex_storage ''n3''" 3 150
      "ex_storage ''n2''" _ _ "snd (snd (Unlock (leader_apply 3) 150 ''a.io'' (ex_storage ''n2'', snd (snd ex_locked))))" 200] ex_locked_ok(2)
  by (simp add: ex_storage_def NewWithCache_def LockTTL_def prod_eq_iff)

theorem renewer_unique_witness:
  "''a.io'' \<notin> ran (js_live (fst (snd (Unlock (Node_Apply (\<lambda>_ _. Committed 3)) 9 ''a.io''
     (run_calls (Node_Apply (\<lambda>_ _. Committed 3)) [CallLock 1 ''a.io'', CallLock 2 ''a.io''] (NewWithCache ''n1'' '''' Map.empty, State_New))))))"
  using renewer_unique [of "\<lambda>_ _. Committed 3" "[CallLock 1 ''a.io'', CallLock 2 ''a.io'']" "''n1''" "''''" Map.empty State_New
      _ _ 0 "''a.io''" 1 9]
  by (metis prod.collapse)

text \<open>A key that continues the last segment of the prefix is listed under a child that does not exist.\<close>

definition ex_blobs :: State where
  "ex_blobs = run_log [(1, mk_cmd ''ingress'' 1 (CertBlobUpsert (Some \<lparr>cb_key = ''acme/a/x'', cb_value = ''X'', cb_updated_at = Some 1\<rparr>))),
     (2, mk_cmd ''ingress'' 2 (CertBlobUpsert (Some \<lparr>cb_key = ''acme/b'', cb_value = ''B'', cb_updated_at = Some 2\<rparr>)))] State_New"

lemma List_phantom_child:
  "Storage_List ''acm'' False ex_blobs = [''acm/e''] \<and> \<not> (\<exists>k \<in> cb_key ` set (Store_List (CertBlobs ex_blobs)). prefix ''acm/'' k)"
  by code_simp

theorem List_exact_witness:
  "Storage_List ''acme'' False ex_blobs = [''acme/a'', ''acme/b'']
   \<and> set (Storage_List ''acme'' False ex_blobs) = {joinp ([''acme''] @ [c]) |c rest. clean (c # rest)
       \<and> joinp ([''acme''] @ c # rest) \<in> cb_key ` set (Store_List (CertBlobs ex_blobs))}"
proof -
  have keys: "map cb_key (Store_List (CertBlobs ex_blobs)) = [''acme/a/x'', ''acme/b'']" by code_simp
  have K: "cb_key ` set (Store_List (CertBlobs ex_blobs)) = {''acme/a/x'', ''acme/b''}" using arg_cong [OF keys, of set] by simp
  have "clean [''acme'', ''b'']" "''acme/b'' = joinp [''acme'', ''b'']"
      "clean [''acme'', ''a'', ''x'']" "''acme/a/x'' = joinp [''acme'', ''a'', ''x'']" by (simp_all add: clean_def)
  then have c: "\<forall>k \<in> cb_key ` set (Store_List (CertBlobs ex_blobs)). \<exists>segs. clean segs \<and> segs \<noteq> [] \<and> k = joinp segs"
    unfolding K ball_simps by (intro conjI) (metis list.distinct(1))+
  have b: "\<forall>k \<in> cb_key ` set (Store_List (CertBlobs ex_blobs)). prefix (joinp [''acme'']) k \<longrightarrow>
      [''acme''] = [] \<or> k = joinp [''acme''] \<or> prefix (joinp [''acme''] @ ''/'') k"
    unfolding K by simp
  have l: "Storage_List ''acme'' False ex_blobs = [''acme/a'', ''acme/b'']" by code_simp
  have "clean [''acme'']" by (simp add: clean_def)
  from List_exact [OF this c b, THEN conjunct2, THEN conjunct1] l show ?thesis by simp
qed

theorem blob_roundtrip_witness:
  "Load (\<lambda>x. x) (leader_apply 5) \<lparr>io_write = NoFault, io_read = False, io_remove = False\<rparr> 9 ''k''
     (fst (snd (Storage_Store (\<lambda>x. x) (leader_apply 4) \<lparr>io_write = NoFault, io_read = False, io_remove = False\<rparr> 8 ''k'' ''v''
        (ex_storage ''n1'', State_New))), snd (snd (Storage_Store (\<lambda>x. x) (leader_apply 4)
        \<lparr>io_write = NoFault, io_read = False, io_remove = False\<rparr> 8 ''k'' ''v'' (ex_storage ''n1'', State_New)))) =
   (Inr ''v'', snd (snd (Storage_Store (\<lambda>x. x) (leader_apply 4) \<lparr>io_write = NoFault, io_read = False, io_remove = False\<rparr> 8 ''k'' ''v''
        (ex_storage ''n1'', State_New))))"
proof -
  define io where "io = \<lparr>io_write = NoFault, io_read = False, io_remove = False\<rparr>"
  define st where "st = Storage_Store (\<lambda>x. x) (leader_apply 4) io 8 ''k'' ''v'' (ex_storage ''n1'', State_New)"
  have "fst st = None"
    by (simp add: st_def Storage_Store_def applyBlobUpsert_def leader_apply_eq Let_def)
  then have eq: "Storage_Store (\<lambda>x. x) (leader_apply 4) io 8 ''k'' ''v'' (ex_storage ''n1'', State_New) = (None, fst (snd st), snd (snd st))"
    unfolding st_def by (metis prod.collapse)
  have de: "Delete (\<lambda>x. x) (leader_apply 4) io 9 ''k'' (fst (snd st), snd (snd st)) = (fst d, fst (snd d), snd (snd d))"
    if "d = Delete (\<lambda>x. x) (leader_apply 4) io 9 ''k'' (fst (snd st), snd (snd st))" for d by (simp add: that)
  from blob_roundtrip [OF eq _ _ _ _ _ de [OF refl], of "''l''" State_New io "leader_apply 5" 9]
  show ?thesis unfolding io_def [symmetric] st_def [symmetric]
    by (simp add: io_def ex_storage_def NewWithCache_def State_New_def)
qed

end
