(* ===== verification/JacoSpec.thy ===== *)
theory JacoSpec
  imports Registry Entities
begin

text \<open>
  The deployment manifest, \<^verbatim>\<open>internal/controlplane/grpc/jaco_spec.go\<close>: defaults, validation, the
  merge with the compose project and the derived routes.

  The YAML decoder and the compose loader are third-party code: \<open>decode_any\<close> and \<open>decode_struct\<close>
  give the tree and the typed manifest of a document, and a compose project is a record of the
  fields the code reads. \<open>Project.Services\<close> is a Go map, here the list of its entries in the order
  of an iteration. \<open>mail.ParseAddress\<close> is a parameter that tells whether an address parses. An
  error carries its code and the constructor of its message with the arguments of the format.
  \<open>strings.EqualFold\<close> and \<open>strings.ToLower\<close> are compared with \<open>on\<close> and \<open>off\<close>, letters that no
  character outside ASCII folds to.
\<close>

section \<open>Manifest\<close>

record JacoServiceDecl =
  sd_Name :: string
  sd_Replicas :: "int option"
  sd_Placement :: string
  sd_Hosts :: "string list"
  sd_Networks :: "string list"

record JacoRouteDecl =
  rc_Domain :: string
  rc_Service :: string
  rc_Port :: int
  rc_TLS :: string
  rc_Path :: string
  rc_StripPath :: bool

record JacoYAML =
  jy_Deployment :: string
  jy_Services :: "JacoServiceDecl list"
  jy_Routes :: "JacoRouteDecl list"
  jy_ACME :: string
  jy_ACMEEmail :: string
  jy_Environment :: string

datatype spec_msg =
    ParseTree string | ComposeServiceKey | ParseStruct string
  | DeploymentRequired | UnknownACME string | BadEmail string
  | ServiceNameRequired | NegativeReplicas string | UnknownPlacement string string | GlobalReplicas string
  | HostsEmpty string | ServiceTwice string
  | RouteDomainRequired | RouteServiceRequired string | RoutePort string | RouteTLS string string
  | MixedTLS string | TwoCatchAlls string string string | RouteTwice string string
  | NoComposeService string

text \<open>A plain Go error or a \<open>*ValidationError\<close> with its code.\<close>

datatype spec_error = PlainError spec_msg | ValidationError string spec_msg

section \<open>Parsing\<close>

text \<open>A decoded YAML tree; maps keep their keys as trees.\<close>

datatype yaml = YStr string | YScalar | YSeq "yaml list" | YMap "(yaml \<times> yaml) list"

fun containsKey :: "yaml \<Rightarrow> string \<Rightarrow> bool" where
  "containsKey (YMap kvs) key = (\<exists>(k, child) \<in> set kvs. k = YStr key \<or> containsKey child key)"
| "containsKey (YSeq xs) key = (\<exists>child \<in> set xs. containsKey child key)"
| "containsKey _ key = False"

definition default_placement :: "JacoServiceDecl \<Rightarrow> JacoServiceDecl" where
  "default_placement s = (if sd_Placement s = '''' then s\<lparr>sd_Placement := ''spread''\<rparr> else s)"

definition default_tls :: "bool \<Rightarrow> JacoRouteDecl \<Rightarrow> JacoRouteDecl" where
  "default_tls deploymentACMEOff r =
     (if rc_TLS r = '''' then (if deploymentACMEOff then r\<lparr>rc_TLS := ''off''\<rparr> else r\<lparr>rc_TLS := ''auto''\<rparr>) else r)"

definition ParseJacoYAML :: "(bytes \<Rightarrow> string + yaml) \<Rightarrow> (bytes \<Rightarrow> string + JacoYAML) \<Rightarrow> bytes \<Rightarrow> spec_error + JacoYAML" where
  "ParseJacoYAML decode_any decode_struct body =
     (case decode_any body of
        Inl err \<Rightarrow> Inl (PlainError (ParseTree err))
      | Inr raw \<Rightarrow>
          if containsKey raw ''compose_service'' then Inl (PlainError ComposeServiceKey)
          else
            (case decode_struct body of
               Inl err \<Rightarrow> Inl (ValidationError ''parse_failed'' (ParseStruct err))
             | Inr j \<Rightarrow>
                 Inr (j\<lparr>jy_Services := map default_placement (jy_Services j),
                        jy_Routes := map (default_tls (ToLower (jy_ACME j) = ''off'')) (jy_Routes j)\<rparr>)))"

section \<open>Validation\<close>

fun validate_services :: "JacoServiceDecl list \<Rightarrow> string set \<Rightarrow> spec_error option" where
  "validate_services [] serviceNames = None"
| "validate_services (s # ss) serviceNames =
     (if sd_Name s = '''' then Some (ValidationError ''validation_failed'' ServiceNameRequired)
      else if (case sd_Replicas s of None \<Rightarrow> False | Some n \<Rightarrow> n < 0) then Some (ValidationError ''validation_failed'' (NegativeReplicas (sd_Name s)))
      else if sd_Placement s \<notin> {''spread'', ''pack'', ''hosts'', ''global''}
      then Some (ValidationError ''validation_failed'' (UnknownPlacement (sd_Name s) (sd_Placement s)))
      else if sd_Placement s = ''global'' \<and> sd_Replicas s \<noteq> None then Some (ValidationError ''validation_failed'' (GlobalReplicas (sd_Name s)))
      else if sd_Placement s = ''hosts'' \<and> sd_Hosts s = [] then Some (ValidationError ''validation_failed'' (HostsEmpty (sd_Name s)))
      else if sd_Name s \<in> serviceNames then Some (ValidationError ''validation_failed'' (ServiceTwice (sd_Name s)))
      else validate_services ss (insert (sd_Name s) serviceNames))"

fun validate_routes :: "JacoRouteDecl list \<Rightarrow> (string \<rightharpoonup> string) \<Rightarrow> (string \<rightharpoonup> string) \<Rightarrow> (string \<times> string) set \<Rightarrow> spec_error option" where
  "validate_routes [] domainTLS catchAllService seenRoutes = None"
| "validate_routes (r # rs) domainTLS catchAllService seenRoutes =
     (if rc_Domain r = '''' then Some (ValidationError ''validation_failed'' RouteDomainRequired)
      else if rc_Service r = '''' then Some (ValidationError ''validation_failed'' (RouteServiceRequired (rc_Domain r)))
      else if rc_Port r \<le> 0 then Some (ValidationError ''validation_failed'' (RoutePort (rc_Domain r)))
      else if rc_TLS r \<notin> {''auto'', ''off''} then Some (ValidationError ''validation_failed'' (RouteTLS (rc_Domain r) (rc_TLS r)))
      else if (case domainTLS (rc_Domain r) of None \<Rightarrow> False | Some prev \<Rightarrow> prev \<noteq> rc_TLS r)
      then Some (ValidationError ''route_tls_mixed'' (MixedTLS (rc_Domain r)))
      else
        let domainTLS = domainTLS(rc_Domain r \<mapsto> rc_TLS r)
        in case (if rc_Path r = '''' then catchAllService (rc_Domain r) else None) of
             Some prev \<Rightarrow> Some (ValidationError ''route_multiple_catchall'' (TwoCatchAlls (rc_Domain r) prev (rc_Service r)))
           | None \<Rightarrow>
               let catchAllService = (if rc_Path r = '''' then catchAllService(rc_Domain r \<mapsto> rc_Service r) else catchAllService)
               in if (rc_Domain r, rc_Path r) \<in> seenRoutes
                  then Some (ValidationError ''validation_failed'' (RouteTwice (rc_Domain r) (rc_Path r)))
                  else validate_routes rs domainTLS catchAllService (insert (rc_Domain r, rc_Path r) seenRoutes))"

definition validateJacoYAML :: "(string \<Rightarrow> bool) \<Rightarrow> JacoYAML \<Rightarrow> spec_error option" where
  "validateJacoYAML ParseAddress j =
     (if jy_Deployment j = '''' then Some (ValidationError ''validation_failed'' DeploymentRequired)
      else if ToLower (jy_ACME j) \<notin> {'''', ''on'', ''off''} then Some (ValidationError ''validation_failed'' (UnknownACME (jy_ACME j)))
      else if jy_ACMEEmail j \<noteq> '''' \<and> ToLower (jy_ACME j) \<noteq> ''off'' \<and> \<not> ParseAddress (jy_ACMEEmail j)
      then Some (ValidationError ''validation_failed'' (BadEmail (jy_ACMEEmail j)))
      else
        case validate_services (jy_Services j) {} of
          Some e \<Rightarrow> Some e
        | None \<Rightarrow> validate_routes (jy_Routes j) Map.empty Map.empty {})"

definition ValidateJacoYAMLBytes :: "(bytes \<Rightarrow> string + yaml) \<Rightarrow> (bytes \<Rightarrow> string + JacoYAML) \<Rightarrow> (string \<Rightarrow> bool) \<Rightarrow> bytes
    \<Rightarrow> spec_error option" where
  "ValidateJacoYAMLBytes decode_any decode_struct ParseAddress data =
     (case ParseJacoYAML decode_any decode_struct data of
        Inl err \<Rightarrow> Some err
      | Inr j \<Rightarrow> validateJacoYAML ParseAddress j)"

section \<open>Merge with compose\<close>

record ServicePort =
  po_Published :: string
  po_Protocol :: string
  po_HostIP :: string
  po_Target :: "32 word"

record ServiceConfig =
  sc_Name :: string
  sc_DeployReplicas :: "int option"
  sc_Networks :: "string list"
  sc_Ports :: "ServicePort list"
  sc_NetworkMode :: string
  sc_Privileged :: bool
  sc_SecurityOpt :: "string list"

type_synonym Project = "(string \<times> ServiceConfig) list"

definition placementToProto :: "string \<Rightarrow> PlacementMode" where
  "placementToProto s =
     (if s = ''pack'' then PM_PACK else if s = ''hosts'' then PM_HOSTS else if s = ''global'' then PM_GLOBAL else PM_SPREAD)"

definition mergeOne :: "ServiceConfig \<Rightarrow> JacoServiceDecl option \<Rightarrow> ServiceSpec" where
  "mergeOne svc override =
     \<lparr>ss_name = sc_Name svc,
      ss_replicas =
        (case Option.bind override sd_Replicas of
           Some n \<Rightarrow> word_of_int n
         | None \<Rightarrow> (case sc_DeployReplicas svc of Some n \<Rightarrow> word_of_int n | None \<Rightarrow> 1)),
      ss_placement = placementToProto
        (case override of
           None \<Rightarrow> ''spread''
         | Some d \<Rightarrow> if sd_Placement d \<noteq> '''' then sd_Placement d else ''spread''),
      ss_hosts = (case override of None \<Rightarrow> [] | Some d \<Rightarrow> sd_Hosts d),
      ss_networks =
        (case override of
           Some d \<Rightarrow> if sd_Networks d \<noteq> [] then sd_Networks d else sort (sc_Networks svc)
         | None \<Rightarrow> sort (sc_Networks svc))\<rparr>"

definition MergeServiceDefaults :: "JacoYAML \<Rightarrow> Project \<Rightarrow> spec_error + ServiceSpec list" where
  "MergeServiceDefaults jaco project =
     (let overrides = map_of (rev (map (\<lambda>s. (sd_Name s, s)) (jy_Services jaco)))
      in case find (\<lambda>s. sd_Name s \<notin> set (map fst project)) (jy_Services jaco) of
           Some s \<Rightarrow> Inl (PlainError (NoComposeService (sd_Name s)))
         | None \<Rightarrow>
             Inr (map (\<lambda>name. mergeOne (the (map_of project name)) (overrides name)) (sort (map fst project))))"

section \<open>Routes\<close>

text \<open>\<open>strconv.Atoi\<close>: an optional sign and decimal digits within the range of \<open>int\<close>.\<close>

definition Atoi :: "string \<Rightarrow> int option" where
  "Atoi s =
     (let (neg, ds) = (case s of c # cs \<Rightarrow> if c = CHR ''-'' then (True, cs) else if c = CHR ''+'' then (False, cs) else (False, s)
                         | [] \<Rightarrow> (False, []));
          v = (if neg then - int (digits_val ds) else int (digits_val ds))
      in if ds = [] \<or> (\<exists>c \<in> set ds. \<not> is_digit c) then None
         else if v < - 9223372036854775808 \<or> v > 9223372036854775807 then None
         else Some v)"

definition tcp_route :: "string \<Rightarrow> ServiceConfig \<Rightarrow> ServicePort \<Rightarrow> TCPRoute option" where
  "tcp_route deployment svc p =
     (if po_Published p = '''' then None
      else if po_Protocol p \<noteq> '''' \<and> po_Protocol p \<noteq> ''tcp'' then None
      else if po_HostIP p \<noteq> '''' \<and> po_HostIP p \<noteq> ''0.0.0.0'' then None
      else
        case Atoi (po_Published p) of
          None \<Rightarrow> None
        | Some pub \<Rightarrow>
            if pub \<le> 0 then None
            else Some \<lparr>tr_published_port = word_of_int pub, tr_deployment = deployment,
                   tr_service = sc_Name svc, tr_container_port = po_Target p\<rparr>)"

definition toTCPRoutes :: "string \<Rightarrow> Project \<Rightarrow> TCPRoute list" where
  "toTCPRoutes deployment project =
     sort_key (\<lambda>r. sint (tr_published_port r))
       (concat (map (\<lambda>(_, svc). List.map_filter (tcp_route deployment svc) (sc_Ports svc)) project))"

definition toRoutes :: "string \<Rightarrow> JacoRouteDecl list \<Rightarrow> Route list" where
  "toRoutes deployment decls =
     map (\<lambda>d. \<lparr>rt_domain = rc_Domain d, rt_deployment = deployment, rt_service = rc_Service d,
                rt_port = word_of_int (rc_Port d), rt_tls_auto = (rc_TLS d = ''auto''),
                rt_path = rc_Path d, rt_strip_path = rc_StripPath d\<rparr>) decls"


section \<open>What is accepted\<close>

definition service_ok :: "JacoServiceDecl \<Rightarrow> bool" where
  "service_ok s \<longleftrightarrow> sd_Name s \<noteq> '''' \<and> (\<forall>n. sd_Replicas s = Some n \<longrightarrow> n \<ge> 0)
     \<and> sd_Placement s \<in> {''spread'', ''pack'', ''hosts'', ''global''}
     \<and> (sd_Placement s = ''global'' \<longrightarrow> sd_Replicas s = None) \<and> (sd_Placement s = ''hosts'' \<longrightarrow> sd_Hosts s \<noteq> [])"

definition route_ok :: "JacoRouteDecl \<Rightarrow> bool" where
  "route_ok r \<longleftrightarrow> rc_Domain r \<noteq> '''' \<and> rc_Service r \<noteq> '''' \<and> rc_Port r > 0 \<and> rc_TLS r \<in> {''auto'', ''off''}"

abbreviation route_place :: "JacoRouteDecl \<Rightarrow> string \<times> string" where
  "route_place r \<equiv> (rc_Domain r, rc_Path r)"

definition valid_spec :: "(string \<Rightarrow> bool) \<Rightarrow> JacoYAML \<Rightarrow> bool" where
  "valid_spec ParseAddress j \<longleftrightarrow> jy_Deployment j \<noteq> '''' \<and> ToLower (jy_ACME j) \<in> {'''', ''on'', ''off''}
     \<and> (jy_ACMEEmail j \<noteq> '''' \<and> ToLower (jy_ACME j) \<noteq> ''off'' \<longrightarrow> ParseAddress (jy_ACMEEmail j))
     \<and> (\<forall>s \<in> set (jy_Services j). service_ok s) \<and> distinct (map sd_Name (jy_Services j))
     \<and> (\<forall>r \<in> set (jy_Routes j). route_ok r) \<and> distinct (map route_place (jy_Routes j))
     \<and> (\<forall>r \<in> set (jy_Routes j). \<forall>r' \<in> set (jy_Routes j). rc_Domain r = rc_Domain r' \<longrightarrow> rc_TLS r = rc_TLS r')"

lemma validate_services_iff:
  "validate_services ss seen = None \<longleftrightarrow>
    (\<forall>s \<in> set ss. service_ok s) \<and> distinct (map sd_Name ss) \<and> sd_Name ` set ss \<inter> seen = {}"
proof (induction ss arbitrary: seen)
  case (Cons s ss)
  have "validate_services (s # ss) seen = None \<longleftrightarrow> service_ok s \<and> sd_Name s \<notin> seen
      \<and> validate_services ss (insert (sd_Name s) seen) = None"
    by (auto simp: service_ok_def split: option.splits)
  with Cons show ?case by auto
qed simp

lemma validate_routes_step:
  assumes "\<forall>d. catch d \<noteq> None \<longrightarrow> (d, '''') \<in> seen"
  shows "validate_routes (r # rs) tls catch seen = None \<longleftrightarrow> route_ok r \<and> tls (rc_Domain r) \<in> {None, Some (rc_TLS r)}
    \<and> route_place r \<notin> seen
    \<and> validate_routes rs (tls(rc_Domain r \<mapsto> rc_TLS r))
        (if rc_Path r = '''' then catch(rc_Domain r \<mapsto> rc_Service r) else catch) (insert (route_place r) seen) = None"
  using spec [OF assms, of "rc_Domain r"] by (auto simp: route_ok_def Let_def split: option.splits)

lemma agree_Cons:
  "(\<forall>a \<in> set (x # xs). \<forall>b \<in> set (x # xs). f a = f b \<longrightarrow> g a = g b) \<longleftrightarrow>
    (\<forall>b \<in> set xs. f b = f x \<longrightarrow> g b = g x) \<and> (\<forall>a \<in> set xs. \<forall>b \<in> set xs. f a = f b \<longrightarrow> g a = g b)"
proof -
  have "(f x = f b \<longrightarrow> g x = g b) \<longleftrightarrow> (f b = f x \<longrightarrow> g b = g x)" for b by auto
  then show ?thesis by (simp only: list.set ball_simps simp_thms ball_conj_distrib)
qed

lemma validate_routes_iff:
  assumes "\<forall>d. catch d \<noteq> None \<longrightarrow> (d, '''') \<in> seen"
  shows "validate_routes rs tls catch seen = None \<longleftrightarrow>
    (\<forall>r \<in> set rs. route_ok r \<and> tls (rc_Domain r) \<in> {None, Some (rc_TLS r)})
    \<and> (\<forall>r \<in> set rs. \<forall>r' \<in> set rs. rc_Domain r = rc_Domain r' \<longrightarrow> rc_TLS r = rc_TLS r')
    \<and> distinct (map route_place rs) \<and> route_place ` set rs \<inter> seen = {}"
  using assms
proof (induction rs arbitrary: tls catch seen)
  case (Cons r rs)
  have "\<forall>d. (if rc_Path r = '''' then catch(rc_Domain r \<mapsto> rc_Service r) else catch) d \<noteq> None \<longrightarrow> (d, '''') \<in> insert (route_place r) seen"
    using Cons.prems by (auto split: if_splits)
  note ih = Cons.IH [OF this]
  define ok where "ok = (\<lambda>r :: JacoRouteDecl. tls (rc_Domain r) = None \<or> tls (rc_Domain r) = Some (rc_TLS r))"
  have upd: "(tls(rc_Domain r \<mapsto> rc_TLS r)) (rc_Domain r') \<in> {None, Some (rc_TLS r')} \<longleftrightarrow>
      (if rc_Domain r' = rc_Domain r then rc_TLS r' = rc_TLS r else ok r')" for r'
    by (auto simp: ok_def)
  have same: "tls (rc_Domain r') \<in> {None, Some (rc_TLS r')} \<longleftrightarrow> ok r'" for r' by (auto simp: ok_def)
  have cong: "rc_Domain r' = rc_Domain r \<Longrightarrow> rc_TLS r' = rc_TLS r \<Longrightarrow> ok r' = ok r" for r' by (simp add: ok_def)
  have "validate_routes (r # rs) tls catch seen = None \<longleftrightarrow> route_ok r \<and> ok r \<and> route_place r \<notin> seen
    \<and> (\<forall>r' \<in> set rs. route_ok r' \<and> (if rc_Domain r' = rc_Domain r then rc_TLS r' = rc_TLS r else ok r'))
    \<and> (\<forall>r \<in> set rs. \<forall>r' \<in> set rs. rc_Domain r = rc_Domain r' \<longrightarrow> rc_TLS r = rc_TLS r')
    \<and> distinct (map route_place rs) \<and> route_place ` set rs \<inter> insert (route_place r) seen = {}"
    unfolding validate_routes_step [OF Cons.prems] ih upd same ..
  also have "\<dots> \<longleftrightarrow> (\<forall>r' \<in> set (r # rs). route_ok r' \<and> ok r')
    \<and> (\<forall>a \<in> set (r # rs). \<forall>b \<in> set (r # rs). rc_Domain a = rc_Domain b \<longrightarrow> rc_TLS a = rc_TLS b)
    \<and> distinct (map route_place (r # rs)) \<and> route_place ` set (r # rs) \<inter> seen = {}"
  proof -
    have o: "ok r \<and> (\<forall>r' \<in> set rs. route_ok r' \<and> (if rc_Domain r' = rc_Domain r then rc_TLS r' = rc_TLS r else ok r')) \<longleftrightarrow>
      ok r \<and> (\<forall>r' \<in> set rs. route_ok r' \<and> ok r') \<and> (\<forall>r' \<in> set rs. rc_Domain r' = rc_Domain r \<longrightarrow> rc_TLS r' = rc_TLS r)"
      using cong by metis
    have d: "distinct (map route_place (r # rs)) \<and> route_place ` set (r # rs) \<inter> seen = {} \<longleftrightarrow>
      route_place r \<notin> seen \<and> distinct (map route_place rs) \<and> route_place ` set rs \<inter> insert (route_place r) seen = {}"
      by (simp add: list.set_map) argo
    have s: "(\<forall>r' \<in> set (r # rs). route_ok r' \<and> ok r') \<longleftrightarrow> route_ok r \<and> ok r \<and> (\<forall>r' \<in> set rs. route_ok r' \<and> ok r')" by simp
    have "(b \<and> A) = (b \<and> A' \<and> D) \<Longrightarrow> (a \<and> b \<and> p \<and> A \<and> B \<and> di \<and> i) = ((a \<and> b \<and> A') \<and> (D \<and> B) \<and> p \<and> di \<and> i)"
      for a b p A B di i A' D by blast
    from this [OF o] show ?thesis unfolding agree_Cons [of r rs rc_Domain rc_TLS] d s .
  qed
  finally show ?case unfolding same .
qed simp

lemma validateJacoYAML_None: "validateJacoYAML ParseAddress j = None \<longleftrightarrow> valid_spec ParseAddress j"
proof -
  have if_None: "(if b then Some e else x) = None \<longleftrightarrow> \<not> b \<and> x = None" for b e and x :: "'a option" by simp
  have case_None: "(case x of Some e \<Rightarrow> Some e | None \<Rightarrow> y) = None \<longleftrightarrow> x = None \<and> y = None" for x y :: "'a option"
    by (cases x) simp_all
  have "validate_routes (jy_Routes j) Map.empty Map.empty {} = None \<longleftrightarrow> (\<forall>r \<in> set (jy_Routes j). route_ok r)
     \<and> (\<forall>r \<in> set (jy_Routes j). \<forall>r' \<in> set (jy_Routes j). rc_Domain r = rc_Domain r' \<longrightarrow> rc_TLS r = rc_TLS r')
     \<and> distinct (map route_place (jy_Routes j))"
    by (subst validate_routes_iff) simp_all
  then show ?thesis
    unfolding validateJacoYAML_def valid_spec_def if_None case_None validate_services_iff by (simp only: Int_empty_right de_Morgan_conj not_not) blast
qed

text \<open>
  C19. Validation accepts exactly the sound manifests: no error is returned if and only if the
  deployment is named, the ACME settings are well formed, every service and route is, service
  names and the pairs of domain and path are unique, and each domain has one TLS mode.
\<close>

theorem validate_exact: "validateJacoYAML ParseAddress j = None \<longleftrightarrow> valid_spec ParseAddress j"
  by (rule validateJacoYAML_None)

end
