(* ===== verification/Deploy.thy ===== *)
theory Deploy
  imports JacoSpec Admission Applier Drain
begin

text \<open>
  The handlers of the \<open>Deploy\<close> service:
  \<^verbatim>\<open>internal/controlplane/grpc/deploy.go\<close> and \<^verbatim>\<open>privileged.go\<close>.

  A handler gets the raft node, \<open>None\<close> when it is nil and otherwise whether it leads and how it
  applies commands, the context of the request and the replicated state; it returns a status
  error or the response, with the state. An error carries its gRPC code, its own code and the
  constructor of its message with the arguments of the format. \<open>compose.Validate\<close> and
  \<open>compose.LoadBytes\<close> are parameters. \<open>Apply\<close> also returns a diff, which is always empty and left out.
\<close>

section \<open>Errors\<close>

datatype status_code = C_Unavailable | C_InvalidArgument | C_NotFound | C_FailedPrecondition | C_Internal
  | C_PermissionDenied | C_Unimplemented | C_DeadlineExceeded

datatype rpc_msg =
    Text string | SpecMsg spec_msg | ServiceNotFound string | UnknownHost string string | UnknownService string string
  | RouteNetworkMode string string string | PortTwice string string int32 | PortTaken int32 string
  | TokenNotFound string | LacksPrivileged string string string
  | DeploymentNotFound string | NoPreviousRevision string | DrainMsg drain_error

datatype rpc_error = errorStatus status_code string rpc_msg

type_synonym raft_node = "(bool \<times> applier) option"

section \<open>Privileged workloads\<close>

record privilegedService =
  pv_Name :: string
  pv_Fields :: "string list"

definition privileged_entry :: "ServiceConfig \<Rightarrow> privilegedService option" where
  "privileged_entry svc =
     (let fields = (if sc_Privileged svc then [''privileged''] else []) @ (if length (sc_SecurityOpt svc) > 0 then [''security_opt''] else [])
      in if length fields = 0 then None else Some \<lparr>pv_Name = sc_Name svc, pv_Fields = fields\<rparr>)"

definition collectPrivilegedServices :: "Project \<Rightarrow> privilegedService list" where
  "collectPrivilegedServices project = sort_key pv_Name (List.map_filter (privileged_entry \<circ> snd) project)"

fun joinFields :: "string list \<Rightarrow> string" where
  "joinFields [] = ''''"
| "joinFields [f] = f"
| "joinFields (f # g # fs) = f @ '','' @ joinFields (g # fs)"

definition checkPrivilegedAdmission :: "State \<Rightarrow> string \<Rightarrow> privilegedService list \<Rightarrow> rpc_error option" where
  "checkPrivilegedAdmission s identity svcs =
     (case svcs of
        [] \<Rightarrow> None
      | first # _ \<Rightarrow>
          if identity = LocalIdentity then None
          else if identity = ''''
          then Some (errorStatus C_PermissionDenied ''privilege_denied'' (Text ''privileged workload requires authenticated identity''))
          else
            (case Store_Get (Tokens s) identity of
               None \<Rightarrow> Some (errorStatus C_PermissionDenied ''privilege_denied'' (TokenNotFound identity))
             | Some tok \<Rightarrow>
                 if \<not> tk_allows_privileged tok
                 then Some (errorStatus C_PermissionDenied ''privilege_denied''
                        (LacksPrivileged identity (pv_Name first) (joinFields (pv_Fields first))))
                 else None))"

definition emitPrivilegedAdmittedAudit :: "raft_node \<Rightarrow> time \<Rightarrow> string \<Rightarrow> string \<Rightarrow> privilegedService \<Rightarrow> State \<Rightarrow> State" where
  "emitPrivilegedAdmittedAudit r now identity deployment p s =
     (case r of
        None \<Rightarrow> s
      | Some (_, submit) \<Rightarrow>
          snd (submit (mk_cmd identity now (AuditAppend (Some
            \<lparr>ae_raft_index = 0, ae_type = AE_PRIVILEGED_WORKLOAD_ADMITTED, ae_identity = identity, ae_ts = None,
             ae_payload = [''deployment'' \<mapsto> deployment, ''service'' \<mapsto> pv_Name p, ''identity'' \<mapsto> identity,
               ''fields'' \<mapsto> joinFields (pv_Fields p)]\<rparr>))) s))"

section \<open>Deploy.Apply\<close>

definition ValidateDeploymentName :: "string \<Rightarrow> rpc_error option" where
  "ValidateDeploymentName name =
     (if name = '''' then Some (errorStatus C_InvalidArgument ''validation_failed'' (Text ''deployment is required'')) else None)"

text \<open>The libraries \<open>Apply\<close> calls: YAML decoding, address parsing, validation and loading of compose files.\<close>

record parsers =
  pa_any :: "bytes \<Rightarrow> string + yaml"
  pa_struct :: "bytes \<Rightarrow> string + JacoYAML"
  pa_address :: "string \<Rightarrow> bool"
  pa_validate :: "bytes \<Rightarrow> (string \<times> string) option"
  pa_load :: "bytes \<Rightarrow> string + Project"

definition parseAndValidate :: "parsers \<Rightarrow> bytes \<Rightarrow> bytes \<Rightarrow> rpc_error + JacoYAML \<times> Project" where
  "parseAndValidate pa jacoYAML composeYAML =
     (let invalid = (\<lambda>code msg. Inl (errorStatus C_InvalidArgument code msg))
      in if jacoYAML = [] then invalid ''validation_failed'' (Text ''jaco_yaml is required'')
         else if composeYAML = [] then invalid ''validation_failed'' (Text ''compose_yaml is required'')
         else
           case ParseJacoYAML (pa_any pa) (pa_struct pa) jacoYAML of
             Inl (ValidationError code m) \<Rightarrow> invalid code (SpecMsg m)
           | Inl (PlainError m) \<Rightarrow> invalid ''validation_failed'' (SpecMsg m)
           | Inr jaco \<Rightarrow>
               (case validateJacoYAML (pa_address pa) jaco of
                  Some (ValidationError code m) \<Rightarrow> invalid code (SpecMsg m)
                | Some (PlainError m) \<Rightarrow> invalid ''validation_failed'' (SpecMsg m)
                | None \<Rightarrow>
                    (case pa_validate pa composeYAML of
                       Some (code, msg) \<Rightarrow> invalid code (Text msg)
                     | None \<Rightarrow>
                         (case pa_load pa composeYAML of
                            Inl err \<Rightarrow> invalid ''validation_failed'' (Text err)
                          | Inr project \<Rightarrow> Inr (jaco, project)))))"

text \<open>The checks of \<open>Apply\<close>, each the first error of a loop.\<close>

definition check_overrides :: "JacoYAML \<Rightarrow> Project \<Rightarrow> rpc_error option" where
  "check_overrides jaco project =
     map_option (\<lambda>s. errorStatus C_InvalidArgument ''validation_failed'' (ServiceNotFound (sd_Name s)))
       (find (\<lambda>s. sd_Name s \<notin> sc_Name ` snd ` set project) (jy_Services jaco))"

definition check_hosts :: "State \<Rightarrow> ServiceSpec list \<Rightarrow> rpc_error option" where
  "check_hosts st services =
     map_option (\<lambda>(s, h). errorStatus C_InvalidArgument ''unknown_host'' (UnknownHost (ss_name s) h))
       (find (\<lambda>(s, h). Store_Get (Nodes st) h = None)
          (concat (map (\<lambda>s. map (Pair s) (ss_hosts s)) (filter (\<lambda>s. ss_placement s = PM_HOSTS) services))))"

definition check_route_services :: "JacoYAML \<Rightarrow> ServiceSpec list \<Rightarrow> rpc_error option" where
  "check_route_services jaco services =
     map_option (\<lambda>r. errorStatus C_InvalidArgument ''validation_failed'' (UnknownService (rc_Domain r) (rc_Service r)))
       (find (\<lambda>r. rc_Service r \<notin> ss_name ` set services) (jy_Routes jaco))"

definition network_mode :: "Project \<Rightarrow> string \<rightharpoonup> string" where
  "network_mode project = map_of (rev (map (\<lambda>(_, s). (sc_Name s, sc_NetworkMode s)) (filter (\<lambda>(_, s). sc_NetworkMode s \<noteq> '''') project)))"

definition check_network_modes :: "JacoYAML \<Rightarrow> Project \<Rightarrow> rpc_error option" where
  "check_network_modes jaco project =
     map_option (\<lambda>r. errorStatus C_InvalidArgument ''validation_failed''
         (RouteNetworkMode (rc_Domain r) (rc_Service r) (the (network_mode project (rc_Service r)))))
       (find (\<lambda>r. network_mode project (rc_Service r) \<noteq> None) (jy_Routes jaco))"

fun check_ports_unique :: "TCPRoute list \<Rightarrow> (int32 \<rightharpoonup> string) \<Rightarrow> rpc_error option" where
  "check_ports_unique [] seenPort = None"
| "check_ports_unique (r # rs) seenPort =
     (case seenPort (tr_published_port r) of
        Some prev \<Rightarrow> Some (errorStatus C_InvalidArgument ''port_conflict'' (PortTwice prev (tr_service r) (tr_published_port r)))
      | None \<Rightarrow> check_ports_unique rs (seenPort(tr_published_port r \<mapsto> tr_service r)))"

definition check_ports_free :: "State \<Rightarrow> string \<Rightarrow> TCPRoute list \<Rightarrow> rpc_error option" where
  "check_ports_free st deployment tcpRoutes =
     map_option (\<lambda>r. errorStatus C_InvalidArgument ''port_conflict''
         (PortTaken (tr_published_port r) (tr_deployment (the (Store_Get (TCPRoutes st) (TCPRouteKey (tr_published_port r)))))))
       (find (\<lambda>r. case Store_Get (TCPRoutes st) (TCPRouteKey (tr_published_port r)) of None \<Rightarrow> False
          | Some existing \<Rightarrow> tr_deployment existing \<noteq> deployment) tcpRoutes)"

text \<open>The first error of a sequence of checks.\<close>

fun first_error :: "rpc_error option list \<Rightarrow> rpc_error option" where
  "first_error [] = None"
| "first_error (None # cs) = first_error cs"
| "first_error (Some e # cs) = Some e"

record ApplyRequest =
  aq_jaco_yaml :: bytes
  aq_compose_yaml :: bytes
  aq_dry_run :: bool

text \<open>Everything \<open>Apply\<close> does before it submits: the command it would submit, or the first error.\<close>

definition plan_apply :: "parsers \<Rightarrow> request_ctx \<Rightarrow> ApplyRequest \<Rightarrow> State
    \<Rightarrow> rpc_error + uint64 \<times> DeploymentApplyMsg \<times> privilegedService list" where
  "plan_apply pa ctx req st =
     (case parseAndValidate pa (aq_jaco_yaml req) (aq_compose_yaml req) of
        Inl e \<Rightarrow> Inl e
      | Inr (jaco, project) \<Rightarrow>
          (case check_overrides jaco project of
             Some e \<Rightarrow> Inl e
           | None \<Rightarrow>
               (case MergeServiceDefaults jaco project of
                  Inl (PlainError m) \<Rightarrow> Inl (errorStatus C_InvalidArgument ''validation_failed'' (SpecMsg m))
                | Inl (ValidationError _ m) \<Rightarrow> Inl (errorStatus C_InvalidArgument ''validation_failed'' (SpecMsg m))
                | Inr services \<Rightarrow>
                    (let tcpRoutes = toTCPRoutes (jy_Deployment jaco) project;
                         privileged = collectPrivilegedServices project
                     in case first_error [check_hosts st services, check_route_services jaco services, check_network_modes jaco project,
                          check_ports_unique tcpRoutes Map.empty, check_ports_free st (jy_Deployment jaco) tcpRoutes,
                          checkPrivilegedAdmission st (IdentityFromContext ctx) privileged] of
                          Some e \<Rightarrow> Inl e
                        | None \<Rightarrow>
                            (let currentRev = (case Store_Get (Deployments st) (jy_Deployment jaco) of
                               Some existing \<Rightarrow> dp_applied_revision existing | None \<Rightarrow> 0)
                             in Inr (currentRev, \<lparr>da_deployment = jy_Deployment jaco, da_revision = currentRev + 1,
                                  da_jaco_yaml = aq_jaco_yaml req, da_compose_yaml = aq_compose_yaml req, da_services = services,
                                  da_routes = toRoutes (jy_Deployment jaco) (jy_Routes jaco), da_tcp_routes = tcpRoutes,
                                  da_acme_email = jy_ACMEEmail jaco\<rparr>, privileged))))))"

definition Deploy_Apply :: "parsers \<Rightarrow> raft_node \<Rightarrow> time \<Rightarrow> request_ctx \<Rightarrow> ApplyRequest \<Rightarrow> State \<Rightarrow> (rpc_error + uint64) \<times> State" where
  "Deploy_Apply pa r now ctx req st =
     (case r of
        None \<Rightarrow> (Inl (errorStatus C_Unavailable ''raft_unavailable'' (Text ''raft not wired'')), st)
      | Some (isLeader, submit) \<Rightarrow>
          if \<not> isLeader then (Inl (errorStatus C_Unavailable ''no_leader'' (Text ''apply requires leader'')), st)
          else
            (case plan_apply pa ctx req st of
               Inl e \<Rightarrow> (Inl e, st)
             | Inr (currentRev, da, privileged) \<Rightarrow>
                 if aq_dry_run req then (Inr currentRev, st)
                 else
                   (case submit (mk_cmd (IdentityFromContext ctx) now (DeploymentApply da)) st of
                      (Some err, st1) \<Rightarrow> (Inl (errorStatus C_Internal ''raft_apply_failed'' (Text err)), st1)
                    | (None, st1) \<Rightarrow>
                        (Inr (da_revision da),
                         fold (emitPrivilegedAdmittedAudit r now (IdentityFromContext ctx) (da_deployment da)) privileged st1))))"


section \<open>Rollback, Logs and Delete\<close>

definition Deploy_Rollback :: "raft_node \<Rightarrow> time \<Rightarrow> request_ctx \<Rightarrow> string \<Rightarrow> State \<Rightarrow> (rpc_error + uint64) \<times> State" where
  "Deploy_Rollback r now ctx name st =
     (case r of
        None \<Rightarrow> (Inl (errorStatus C_Unavailable ''raft_unavailable'' (Text ''raft not wired'')), st)
      | Some (isLeader, submit) \<Rightarrow>
          if \<not> isLeader then (Inl (errorStatus C_Unavailable ''no_leader'' (Text ''rollback requires leader'')), st)
          else
            (case ValidateDeploymentName name of
               Some e \<Rightarrow> (Inl e, st)
             | None \<Rightarrow>
                 (case Store_Get (Deployments st) name of
                    None \<Rightarrow> (Inl (errorStatus C_NotFound ''deployment_not_found'' (DeploymentNotFound name)), st)
                  | Some dep \<Rightarrow>
                      if dp_previous_revision dep = 0
                      then (Inl (errorStatus C_FailedPrecondition ''no_previous_revision'' (NoPreviousRevision name)), st)
                      else
                        (case submit (mk_cmd (IdentityFromContext ctx) now (DeploymentRollback name (dp_previous_revision dep))) st of
                           (Some err, st1) \<Rightarrow> (Inl (errorStatus C_Internal ''raft_apply_failed'' (Text err)), st1)
                         | (None, st1) \<Rightarrow> (Inr (dp_previous_revision dep), st1)))))"

definition Deploy_Logs :: "rpc_error option" where
  "Deploy_Logs = Some (errorStatus C_Unimplemented ''logs_unimplemented''
     (Text ''Deploy.Logs requires daemon-side docker wiring; follow-up task''))"

definition Deploy_Delete :: "raft_node \<Rightarrow> time \<Rightarrow> request_ctx \<Rightarrow> string \<Rightarrow> State \<Rightarrow> rpc_error option \<times> State" where
  "Deploy_Delete r now ctx name st =
     (case r of
        None \<Rightarrow> (Some (errorStatus C_Unavailable ''raft_unavailable'' (Text ''raft not wired'')), st)
      | Some (isLeader, submit) \<Rightarrow>
          if \<not> isLeader then (Some (errorStatus C_Unavailable ''no_leader'' (Text ''delete requires leader'')), st)
          else
            (case ValidateDeploymentName name of
               Some e \<Rightarrow> (Some e, st)
             | None \<Rightarrow>
                 (case submit (mk_cmd (IdentityFromContext ctx) now (DeploymentDelete name)) st of
                    (Some err, st1) \<Rightarrow> (Some (errorStatus C_Internal ''raft_apply_failed'' (Text err)), st1)
                  | (None, st1) \<Rightarrow> (None, st1))))"

end
