(* ===== verification/TokenRpc.thy ===== *)
theory TokenRpc
  imports Deploy
begin

text \<open>
  The handlers of the \<open>Tokens\<close> and \<open>RegistryCredentials\<close> services,
  \<^verbatim>\<open>internal/controlplane/grpc/token.go\<close> and \<^verbatim>\<open>registry_credential.go\<close>. The random bytes drawn by
  \<open>Issue\<close>, or the error of the generator, are an argument; \<open>sha256\<close> is a parameter.
\<close>

section \<open>Tokens\<close>

record TokenIssueResponse =
  ti_Identity :: string
  ti_Token :: string
  ti_IssuedAt :: timestamp

definition Tokens_Issue :: "(string \<Rightarrow> bytes) \<Rightarrow> string + bytes \<Rightarrow> raft_node \<Rightarrow> time \<Rightarrow> request_ctx \<Rightarrow> string \<Rightarrow> bool \<Rightarrow> State
    \<Rightarrow> (rpc_error + TokenIssueResponse) \<times> State" where
  "Tokens_Issue sha256 random r now ctx identity allowsPrivileged st =
     (case r of
        None \<Rightarrow> (Inl (errorStatus C_Unavailable ''raft_unavailable'' (Text ''raft not wired'')), st)
      | Some (isLeader, submit) \<Rightarrow>
          if \<not> isLeader then (Inl (errorStatus C_Unavailable ''no_leader'' (Text ''issue requires leader'')), st)
          else if identity = '''' then (Inl (errorStatus C_InvalidArgument ''validation_failed'' (Text ''identity is required'')), st)
          else
            (case random of
               Inl err \<Rightarrow> (Inl (errorStatus C_Internal ''rand_failed'' (Text err)), st)
             | Inr tokenBytes \<Rightarrow>
                 (let token = EncodeToString tokenBytes; hash = sha256 token
                  in case submit (mk_cmd (IdentityFromContext ctx) now (TokenIssue identity hash allowsPrivileged)) st of
                       (Some err, st1) \<Rightarrow> (Inl (errorStatus C_Internal ''raft_apply_failed'' (Text err)), st1)
                     | (None, st1) \<Rightarrow> (Inr \<lparr>ti_Identity = identity, ti_Token = token, ti_IssuedAt = Some now\<rparr>, st1))))"

definition Tokens_Revoke :: "raft_node \<Rightarrow> time \<Rightarrow> request_ctx \<Rightarrow> string \<Rightarrow> State \<Rightarrow> rpc_error option \<times> State" where
  "Tokens_Revoke r now ctx identity st =
     (case r of
        None \<Rightarrow> (Some (errorStatus C_Unavailable ''raft_unavailable'' (Text ''raft not wired'')), st)
      | Some (isLeader, submit) \<Rightarrow>
          if \<not> isLeader then (Some (errorStatus C_Unavailable ''no_leader'' (Text ''revoke requires leader'')), st)
          else if identity = '''' then (Some (errorStatus C_InvalidArgument ''validation_failed'' (Text ''identity is required'')), st)
          else
            (case submit (mk_cmd (IdentityFromContext ctx) now (TokenRevoke identity)) st of
               (Some err, st1) \<Rightarrow> (Some (errorStatus C_Internal ''raft_apply_failed'' (Text err)), st1)
             | (None, st1) \<Rightarrow> (None, st1)))"

record TokenInfo =
  tf_Identity :: string
  tf_IssuedAt :: timestamp
  tf_RevokedAt :: timestamp
  tf_AllowsPrivileged :: bool

definition Tokens_List :: "State \<Rightarrow> TokenInfo list" where
  "Tokens_List st =
     map (\<lambda>tok. \<lparr>tf_Identity = tk_identity tok, tf_IssuedAt = tk_issued_at tok, tf_RevokedAt = tk_revoked_at tok,
       tf_AllowsPrivileged = tk_allows_privileged tok\<rparr>) (Store_List (Tokens st))"

section \<open>Registry credentials\<close>

text \<open>The handlers carry a copy of the state machine's canonicalisation.\<close>

definition handler_canonicalRegistryKey :: "string \<Rightarrow> string" where
  "handler_canonicalRegistryKey ref =
     (let h = ToLower (TrimSpace ref)
      in if h = '''' then ''''
         else
           let h = (case after ''://'' h of Some r \<Rightarrow> r | None \<Rightarrow> h);
               h = takeWhile (\<lambda>c. c \<notin> set ''?#'') h;
               host = takeWhile (\<lambda>c. c \<noteq> CHR ''/'') h;
               path = drop 1 (dropWhile (\<lambda>c. c \<noteq> CHR ''/'') h);
               host = (if host \<in> {''index.docker.io'', ''registry-1.docker.io'', ''registry.docker.io''}
                       then ''docker.io'' else host)
           in if host = '''' then ''''
              else let path = trim (\<lambda>c. c = CHR ''/'') path
                   in if path = '''' then host else host @ ''/'' @ path)"

definition Credentials_Add :: "raft_node \<Rightarrow> time \<Rightarrow> request_ctx \<Rightarrow> string \<Rightarrow> string \<Rightarrow> bytes \<Rightarrow> State
    \<Rightarrow> (rpc_error + string \<times> timestamp) \<times> State" where
  "Credentials_Add r now ctx registry username secret st =
     (case r of
        None \<Rightarrow> (Inl (errorStatus C_Unavailable ''raft_unavailable'' (Text ''raft not wired'')), st)
      | Some (isLeader, submit) \<Rightarrow>
          if \<not> isLeader then (Inl (errorStatus C_Unavailable ''no_leader'' (Text ''add registry credential requires leader'')), st)
          else
            (let host = handler_canonicalRegistryKey registry
             in if host = '''' then (Inl (errorStatus C_InvalidArgument ''validation_failed'' (Text ''registry is required'')), st)
                else if username = '''' then (Inl (errorStatus C_InvalidArgument ''validation_failed'' (Text ''username is required'')), st)
                else if length secret = 0 then (Inl (errorStatus C_InvalidArgument ''validation_failed'' (Text ''secret is required'')), st)
                else
                  case submit (mk_cmd (IdentityFromContext ctx) now (RegistryCredentialUpsert (Some
                      \<lparr>cr_registry = host, cr_username = username, cr_secret = secret, cr_updated_at = Some now\<rparr>))) st of
                    (Some err, st1) \<Rightarrow> (Inl (errorStatus C_Internal ''raft_apply_failed'' (Text err)), st1)
                  | (None, st1) \<Rightarrow> (Inr (host, Some now), st1)))"

definition Credentials_Remove :: "raft_node \<Rightarrow> time \<Rightarrow> request_ctx \<Rightarrow> string \<Rightarrow> State \<Rightarrow> rpc_error option \<times> State" where
  "Credentials_Remove r now ctx registry st =
     (case r of
        None \<Rightarrow> (Some (errorStatus C_Unavailable ''raft_unavailable'' (Text ''raft not wired'')), st)
      | Some (isLeader, submit) \<Rightarrow>
          if \<not> isLeader then (Some (errorStatus C_Unavailable ''no_leader'' (Text ''remove registry credential requires leader'')), st)
          else
            (let host = handler_canonicalRegistryKey registry
             in if host = '''' then (Some (errorStatus C_InvalidArgument ''validation_failed'' (Text ''registry is required'')), st)
                else
                  case submit (mk_cmd (IdentityFromContext ctx) now (RegistryCredentialRemove host)) st of
                    (Some err, st1) \<Rightarrow> (Some (errorStatus C_Internal ''raft_apply_failed'' (Text err)), st1)
                  | (None, st1) \<Rightarrow> (None, st1)))"

record RegistryCredentialSummary =
  rs_Registry :: string
  rs_Username :: string
  rs_UpdatedAt :: timestamp

definition Credentials_List :: "State \<Rightarrow> RegistryCredentialSummary list" where
  "Credentials_List st =
     map (\<lambda>c. \<lparr>rs_Registry = cr_registry c, rs_Username = cr_username c, rs_UpdatedAt = cr_updated_at c\<rparr>)
       (Store_List (RegistryCredentials st))"

end
