(* ===== verification/DeployProps.thy ===== *)
theory DeployProps
  imports TokenRpc FsmWitness
begin

text \<open>
  What the handlers guarantee together with the state machine and the admission gate: an accepted
  manifest is in force as declared and takes no port of another deployment, privileged
  workloads need a privileged caller, and an issued token authenticates.
\<close>

section \<open>Audit entries touch nothing else\<close>

lemma AuditAppend_frame: "\<exists>a. apply_command i (mk_cmd u t (AuditAppend e)) s = s\<lparr>AuditEvents := a\<rparr>"
proof (cases e)
  case None
  then have "apply_command i (mk_cmd u t (AuditAppend e)) s = s"
    by (simp add: apply_command.simps [of i "mk_cmd _ _ _"] h_AuditAppend_def audit_append_def)
  then show ?thesis by (intro exI [of _ "AuditEvents s"]) simp
next
  case (Some ev)
  then show ?thesis
    by (simp add: apply_command.simps [of i "mk_cmd _ _ _"] h_AuditAppend_def audit_append_def) blast
qed

context raft_applier
begin

lemma AuditAppend_submitted: "\<exists>a. snd (submit (mk_cmd u t (AuditAppend e)) s) = s\<lparr>AuditEvents := a\<rparr>"
proof (cases "submit (mk_cmd u t (AuditAppend e)) s")
  case (Pair err s')
  show ?thesis
  proof (cases err)
    case None
    then obtain idx where "s' = apply_command idx (mk_cmd u t (AuditAppend e)) s" using applied Pair by blast
    with Pair AuditAppend_frame [of idx u t e s] show ?thesis by simp
  next
    case (Some m)
    then have "s' = s" using rejected Pair by blast
    then show ?thesis using Pair by (intro exI [of _ "AuditEvents s"]) simp
  qed
qed

lemma privileged_audits_frame:
  "\<exists>a. fold (emitPrivilegedAdmittedAudit (Some (l, submit)) now ident dep) ps s = s\<lparr>AuditEvents := a\<rparr>"
proof (induction ps arbitrary: s)
  case Nil
  show ?case by (intro exI [of _ "AuditEvents s"]) simp
next
  case (Cons p ps)
  obtain a where "emitPrivilegedAdmittedAudit (Some (l, submit)) now ident dep p s = s\<lparr>AuditEvents := a\<rparr>"
    unfolding emitPrivilegedAdmittedAudit_def using AuditAppend_submitted by force
  with Cons.IH [of "s\<lparr>AuditEvents := a\<rparr>"] show ?case by auto
qed

lemma Apply_done:
  assumes "Deploy_Apply pa (Some (l, submit)) now ctx req st = (Inr rv, st')" "\<not> aq_dry_run req"
  shows "\<exists>cur da ps idx a. plan_apply pa ctx req st = Inr (cur, da, ps) \<and> rv = da_revision da \<and> l
    \<and> st' = (apply_command idx (mk_cmd (IdentityFromContext ctx) now (DeploymentApply da)) st)\<lparr>AuditEvents := a\<rparr>"
proof -
  from assms obtain cur da ps st1 where p: "plan_apply pa ctx req st = Inr (cur, da, ps)" "rv = da_revision da" "l"
      "submit (mk_cmd (IdentityFromContext ctx) now (DeploymentApply da)) st = (None, st1)"
      "st' = fold (emitPrivilegedAdmittedAudit (Some (l, submit)) now (IdentityFromContext ctx) (da_deployment da)) ps st1"
    by (auto simp: Deploy_Apply_def split: sum.splits prod.splits option.splits if_splits)
  obtain idx where idx: "st1 = apply_command idx (mk_cmd (IdentityFromContext ctx) now (DeploymentApply da)) st"
    using applied [OF p(4)] by blast
  obtain a where "st' = st1\<lparr>AuditEvents := a\<rparr>"
    using privileged_audits_frame [of l now "IdentityFromContext ctx" "da_deployment da" ps st1] p(5) by blast
  with p(1-3) idx show ?thesis by (intro exI conjI) simp_all
qed

end

section \<open>The checks\<close>

lemma first_error_None: "first_error cs = None \<longleftrightarrow> (\<forall>c \<in> set cs. c = None)"
  by (induction cs rule: first_error.induct) auto

lemma check_ports_unique_None:
  "check_ports_unique rs seen = None \<longleftrightarrow>
    distinct (map tr_published_port rs) \<and> (\<forall>r \<in> set rs. seen (tr_published_port r) = None)"
  by (induction rs arbitrary: seen) (auto simp: image_iff split: option.splits if_splits)

lemma find_None: "map_option f (find P xs) = None \<longleftrightarrow> (\<forall>x \<in> set xs. \<not> P x)"
  by (auto simp: find_None_iff)

text \<open>A caller that may run privileged workloads.\<close>

definition may_privileged :: "State \<Rightarrow> string \<Rightarrow> bool" where
  "may_privileged st identity \<longleftrightarrow> identity = LocalIdentity
     \<or> identity \<noteq> '''' \<and> (\<exists>tok. Store_Get (Tokens st) identity = Some tok \<and> tk_allows_privileged tok)"

lemma checkPrivileged_None:
  "checkPrivilegedAdmission st identity svcs = None \<longleftrightarrow> svcs = [] \<or> may_privileged st identity"
  by (auto simp: checkPrivilegedAdmission_def may_privileged_def split: list.splits option.splits)

lemma privileged_collected:
  "collectPrivilegedServices project = [] \<longleftrightarrow>
    (\<forall>(n, svc) \<in> set project. \<not> sc_Privileged svc \<and> sc_SecurityOpt svc = [])"
proof -
  have "collectPrivilegedServices project = [] \<longleftrightarrow> set (collectPrivilegedServices project) = {}" by simp
  also have "\<dots> \<longleftrightarrow> (\<forall>x \<in> set project. privileged_entry (snd x) = None)"
    by (force simp: collectPrivilegedServices_def map_filter_def)
  finally show ?thesis by (auto simp: privileged_entry_def Let_def split: if_splits)
qed


lemma plan_apply_facts:
  assumes "plan_apply pa ctx req st = Inr (cur, da, ps)"
  obtains jaco project where "ParseJacoYAML (pa_any pa) (pa_struct pa) (aq_jaco_yaml req) = Inr jaco"
    "pa_load pa (aq_compose_yaml req) = Inr project" "valid_spec (pa_address pa) jaco"
    "MergeServiceDefaults jaco project = Inr (da_services da)"
    "da_deployment da = jy_Deployment jaco" "da_routes da = toRoutes (jy_Deployment jaco) (jy_Routes jaco)"
    "da_tcp_routes da = toTCPRoutes (jy_Deployment jaco) project"
    "cur = (case Store_Get (Deployments st) (jy_Deployment jaco) of Some d \<Rightarrow> dp_applied_revision d | None \<Rightarrow> 0)" "da_revision da = cur + 1"
    "first_error [check_hosts st (da_services da), check_route_services jaco (da_services da), check_network_modes jaco project,
       check_ports_unique (da_tcp_routes da) Map.empty, check_ports_free st (jy_Deployment jaco) (da_tcp_routes da),
       checkPrivilegedAdmission st (IdentityFromContext ctx) (collectPrivilegedServices project)] = None"
proof -
  obtain jaco project where pv: "parseAndValidate pa (aq_jaco_yaml req) (aq_compose_yaml req) = Inr (jaco, project)"
    using assms by (auto simp: plan_apply_def split: sum.splits)
  then have "ParseJacoYAML (pa_any pa) (pa_struct pa) (aq_jaco_yaml req) = Inr jaco" "pa_load pa (aq_compose_yaml req) = Inr project"
      "validateJacoYAML (pa_address pa) jaco = None"
    by (auto simp: parseAndValidate_def Let_def split: if_splits sum.splits spec_error.splits option.splits)
  moreover obtain services where "MergeServiceDefaults jaco project = Inr services"
    using assms by (auto simp: plan_apply_def pv split: sum.splits option.splits spec_error.splits)
  moreover note assms
  ultimately show ?thesis
    by (intro that [of jaco project]) (auto simp: validateJacoYAML_None plan_apply_def pv Let_def split: option.splits)
qed


lemma toRoutes_keys:
  assumes "\<forall>r \<in> set rs. no_nul (rc_Domain r)" "distinct (map route_place rs)"
  shows "distinct (map route_key (toRoutes d rs))"
proof -
  have "inj_on (\<lambda>r. RouteKey (rc_Domain r) (rc_Path r)) (set rs)"
    using assms by (auto simp: inj_on_def RouteKey_inject distinct_map)
  then show ?thesis using assms(2) by (simp add: toRoutes_def route_key_def comp_def distinct_map)
qed

lemma toRoutes_deployment: "r \<in> set (toRoutes d rs) \<Longrightarrow> rt_deployment r = d"
  by (auto simp: toRoutes_def)

lemma tcp_route_deployment: "tcp_route d svc p = Some r \<Longrightarrow> tr_deployment r = d"
  by (auto simp: tcp_route_def split: if_splits option.splits)

lemma toTCPRoutes_deployment: "r \<in> set (toTCPRoutes d project) \<Longrightarrow> tr_deployment r = d"
  by (auto simp: toTCPRoutes_def map_filter_def tcp_route_deployment)

lemma replace_set_other:
  assumes "m k = Some v" "\<not> D v" "k \<notin> kf ` set vs"
  shows "replace_set kf D vs m k = Some v"
  using assms by (auto simp: replace_set_def drop_where_def map_of_keyed_None [symmetric])

lemma check_hosts_None:
  "check_hosts st services = None \<longleftrightarrow>
    (\<forall>s \<in> set services. ss_placement s = PM_HOSTS \<longrightarrow> (\<forall>h \<in> set (ss_hosts s). Store_Get (Nodes st) h \<noteq> None))"
  unfolding check_hosts_def find_None by auto

lemma check_route_services_None:
  "check_route_services jaco services = None \<longleftrightarrow> (\<forall>r \<in> set (jy_Routes jaco). rc_Service r \<in> ss_name ` set services)"
  unfolding check_route_services_def find_None by simp

lemma check_network_modes_None:
  "check_network_modes jaco project = None \<longleftrightarrow> (\<forall>r \<in> set (jy_Routes jaco). network_mode project (rc_Service r) = None)"
  unfolding check_network_modes_def find_None by simp

lemma check_ports_free_None:
  "check_ports_free st d rs = None \<longleftrightarrow>
    (\<forall>r \<in> set rs. \<forall>old. Store_Get (TCPRoutes st) (tcproute_key r) = Some old \<longrightarrow> tr_deployment old = d)"
  unfolding check_ports_free_def find_None tcproute_key_def by (auto split: option.splits)

lemmas checks_None = first_error_None check_hosts_None check_route_services_None check_network_modes_None
  check_ports_unique_None check_ports_free_None checkPrivileged_None

text \<open>What a plan of \<open>Apply\<close> does to the routes once it is applied.\<close>

lemma planned_routes:
  assumes "state_ok st" "s1 = apply_command idx (mk_cmd u now (DeploymentApply da)) st"
    and "distinct (map route_key (da_routes da))" "distinct (map tr_published_port (da_tcp_routes da))"
    and "\<forall>r \<in> set (da_routes da). rt_deployment r = da_deployment da" "\<forall>r \<in> set (da_tcp_routes da). tr_deployment r = da_deployment da"
    and "check_ports_free st (da_deployment da) (da_tcp_routes da) = None"
  shows "{r \<in> ran (Store_Get (Routes s1)). rt_deployment r = da_deployment da} = set (da_routes da)"
    and "{r \<in> ran (Store_Get (TCPRoutes s1)). tr_deployment r = da_deployment da} = set (da_tcp_routes da)"
    and "Store_Get (TCPRoutes st) k = Some r \<Longrightarrow> tr_deployment r \<noteq> da_deployment da \<Longrightarrow> Store_Get (TCPRoutes s1) k = Some r"
    and "\<exists>dep. Store_Get (Deployments s1) (da_deployment da) = Some dep \<and> dp_applied_revision dep = da_revision da \<and> dp_services dep = da_services da"
proof -
  note eqs = apply_DeploymentApply [OF assms(1) mk_cmd_sel(3) assms(2)]
  show "{r \<in> ran (Store_Get (Routes s1)). rt_deployment r = da_deployment da} = set (da_routes da)"
    unfolding eqs(1) by (rule replace_set_members [OF assms(3,5)])
  have "distinct (map tcproute_key (da_tcp_routes da))"
    using assms(4) by (auto simp: distinct_map tcproute_key_def inj_on_def)
  then show "{r \<in> ran (Store_Get (TCPRoutes s1)). tr_deployment r = da_deployment da} = set (da_tcp_routes da)"
    unfolding eqs(2) by (rule replace_set_members [OF _ assms(6)])
  show "Store_Get (TCPRoutes s1) k = Some r" if "Store_Get (TCPRoutes st) k = Some r" "tr_deployment r \<noteq> da_deployment da"
    unfolding eqs(2) using that assms(7) by (intro replace_set_other) (auto simp: check_ports_free_None)
  show "\<exists>dep. Store_Get (Deployments s1) (da_deployment da) = Some dep \<and> dp_applied_revision dep = da_revision da \<and> dp_services dep = da_services da"
    by (simp add: assms(2) apply_command.simps [of idx "mk_cmd _ _ _"] fsm_deploy_defs Let_def)
qed



section \<open>Tokens\<close>

lemma lookup_unique:
  assumes "store_ok tk_identity T" "Store_Get T i = Some t" "tk_hashed_secret t = h"
    and "\<forall>t' \<in> set (Store_List T). tk_hashed_secret t' = h \<longrightarrow> tk_identity t' = i"
  shows "LookupTokenByHash T h = Some t"
proof -
  have "t \<in> set (Store_List T)" unfolding Store_List_ran [OF assms(1)] using assms(2) by (rule ranI)
  with assms(3) obtain t' where t': "LookupTokenByHash T h = Some t'"
    by (cases "LookupTokenByHash T h") (auto simp: LookupTokenByHash_def find_None_iff)
  then have m: "t' \<in> set (Store_List T)" "tk_hashed_secret t' = h" by (auto simp: LookupTokenByHash_def find_Some_iff)
  with assms(4) have "tk_identity t' = i" by blast
  with m(1) assms(2) have "t' = t" by (auto simp: kst.entries_iff [OF assms(1)])
  with t' show ?thesis by simp
qed

lemma tokens_set: "state_ok s \<Longrightarrow> t \<in> set (Store_List (Tokens s)) \<longleftrightarrow> Store_Get (Tokens s) (tk_identity t) = Some t"
  by (simp add: state_ok_def kst.entries_iff)

lemma EncodeToString_Nil_iff [simp]: "EncodeToString bs = [] \<longleftrightarrow> bs = []"
  by (cases bs) simp_all

text \<open>A token that is the only one with its hash is found by it.\<close>

lemma lookup_updated:
  assumes "state_ok st" "state_ok st'" "Store_Get (Tokens st') = (Store_Get (Tokens st))(identity \<mapsto> t)"
    and "tk_hashed_secret t = h" "tk_identity t = identity"
    and "\<forall>t \<in> set (Store_List (Tokens st)). tk_hashed_secret t = h \<longrightarrow> tk_identity t = identity"
  shows "LookupTokenByHash (Tokens st') h = Some t"
    and "\<forall>t \<in> set (Store_List (Tokens st')). tk_hashed_secret t = h \<longrightarrow> tk_identity t = identity"
proof -
  show *: "\<forall>t \<in> set (Store_List (Tokens st')). tk_hashed_secret t = h \<longrightarrow> tk_identity t = identity"
  proof (intro ballI impI, rule ccontr)
    fix x
    assume x: "x \<in> set (Store_List (Tokens st'))" "tk_hashed_secret x = h" "tk_identity x \<noteq> identity"
    then have "Store_Get (Tokens st) (tk_identity x) = Some x" using tokens_set [OF assms(2), of x] by (simp add: assms(3))
    then have "x \<in> set (Store_List (Tokens st))" using tokens_set [OF assms(1), of x] by simp
    with assms(6) x(2,3) show False by blast
  qed
  show "LookupTokenByHash (Tokens st') h = Some t"
    using assms(2,4) * by (intro lookup_unique [of _ identity]) (auto simp: state_ok_def assms(3))
qed

lemma authResolve_bearer:
  assumes "cx_peer_network ctx = Some ''tcp''" "cx_authorization ctx = Some [''Bearer '' @ token]" "token \<noteq> ''''"
    and "LookupTokenByHash (Tokens s) (sha256 token) = Some t"
  shows "authResolve sha256 ctx s = (if tk_revoked_at t \<noteq> None then Inl (authError ''token_revoked'' ''token has been revoked'')
    else Inr (ctx\<lparr>cx_identity := Some (tk_identity t)\<rparr>))"
  using assms by (simp add: authResolve_def isUnixPeer_def TrimPrefix_def)

context raft_applier
begin

lemma Issue_done:
  assumes "state_ok st" "Tokens_Issue sha256 (Inr bs) (Some (l, submit)) now ctx identity priv st = (Inr resp, st')"
  shows "ti_Token resp = EncodeToString bs" "state_ok st'"
    and "Store_Get (Tokens st') = (Store_Get (Tokens st))(identity \<mapsto> \<lparr>tk_identity = identity, tk_hashed_secret = sha256 (ti_Token resp),
      tk_issued_at = Some now, tk_revoked_at = None, tk_allows_privileged = priv\<rparr>)"
proof -
  define cmd where "cmd = mk_cmd (IdentityFromContext ctx) now (TokenIssue identity (sha256 (EncodeToString bs)) priv)"
  from assms(2) have r: "submit cmd st = (None, st')" "ti_Token resp = EncodeToString bs"
    by (auto simp: Tokens_Issue_def Let_def cmd_def split: if_splits prod.splits option.splits)
  then obtain idx where st': "st' = apply_command idx cmd st" using applied by blast
  show "ti_Token resp = EncodeToString bs" by fact
  show "state_ok st'" using submit_ok [OF assms(1), of cmd] r(1) by simp
  show "Store_Get (Tokens st') = (Store_Get (Tokens st))(identity \<mapsto> \<lparr>tk_identity = identity, tk_hashed_secret = sha256 (ti_Token resp),
      tk_issued_at = Some now, tk_revoked_at = None, tk_allows_privileged = priv\<rparr>)"
    by (simp add: st' cmd_def r(2) apply_command.simps [of idx "mk_cmd _ _ _"] h_TokenIssue_def)
qed

lemma Revoke_done:
  assumes "state_ok st" "Tokens_Revoke (Some (l, submit)) now ctx identity st = (None, st')" "Store_Get (Tokens st) identity = Some t"
  shows "state_ok st'" "Store_Get (Tokens st') = (Store_Get (Tokens st))(identity \<mapsto> t\<lparr>tk_revoked_at := Some now\<rparr>)"
proof -
  define cmd where "cmd = mk_cmd (IdentityFromContext ctx) now (TokenRevoke identity)"
  from assms(2) have r: "submit cmd st = (None, st')"
    by (auto simp: Tokens_Revoke_def cmd_def split: if_splits prod.splits option.splits)
  then obtain idx where st': "st' = apply_command idx cmd st" using applied by blast
  have "tk_identity t = identity" using assms(1,3) by (auto simp: state_ok_def intro: Store_Get_key)
  then show "Store_Get (Tokens st') = (Store_Get (Tokens st))(identity \<mapsto> t\<lparr>tk_revoked_at := Some now\<rparr>)"
    using assms(3) by (simp add: st' cmd_def apply_command.simps [of idx "mk_cmd _ _ _"] h_TokenRevoke_def)
  show "state_ok st'" using submit_ok [OF assms(1), of cmd] r by simp
qed

end

text \<open>
  C21. An issued token opens the gate and a revoked one closes it: the token that \<open>Issue\<close> returns
  authenticates a TCP request as its identity, and once \<open>Revoke\<close> has succeeded the same request
  gets \<open>token_revoked\<close>, whatever raft did to other submissions, as long as no token of another
  identity has the same hash.
\<close>

theorem token_lifecycle:
  assumes "state_ok st" "Tokens_Issue sha256 (Inr bs) (Some (l, Node_Apply raft)) now ctx identity priv st = (Inr resp, st')" "bs \<noteq> []"
    and "\<forall>t \<in> set (Store_List (Tokens st)). tk_hashed_secret t = sha256 (ti_Token resp) \<longrightarrow> tk_identity t = identity"
    and "cx_peer_network rq = Some ''tcp''" "cx_authorization rq = Some [''Bearer '' @ ti_Token resp]"
    and "Tokens_Revoke (Some (l', Node_Apply raft')) now' ctx' identity st' = (None, st'')"
  shows "authResolve sha256 rq st' = Inr (rq\<lparr>cx_identity := Some identity\<rparr>)
    \<and> authResolve sha256 rq st'' = Inl (authError ''token_revoked'' ''token has been revoked'')"
proof -
  note i = node.Issue_done [OF assms(1,2)]
  define t where "t = \<lparr>tk_identity = identity, tk_hashed_secret = sha256 (ti_Token resp), tk_issued_at = Some now,
      tk_revoked_at = None, tk_allows_privileged = priv\<rparr>"
  note g = i(3) [folded t_def]
  note v = node.Revoke_done [OF i(2) assms(7), of t, unfolded g, simplified]
  have tk: "ti_Token resp \<noteq> ''''" using assms(3) by (simp add: i(1))
  note l = lookup_updated [OF assms(1) i(2) g, of "sha256 (ti_Token resp)", OF _ _ assms(4)]
  have "LookupTokenByHash (Tokens st') (sha256 (ti_Token resp)) = Some t" by (rule l(1)) (simp_all add: t_def)
  moreover have "LookupTokenByHash (Tokens st'') (sha256 (ti_Token resp)) = Some (t\<lparr>tk_revoked_at := Some now'\<rparr>)"
    using v(2) g by (intro lookup_updated(1) [OF i(2) v(1) _ _ _ l(2)]) (simp_all add: t_def)
  ultimately show ?thesis using assms(5,6) tk by (simp add: authResolve_bearer t_def)
qed

text \<open>
  The name of the local identity is not reserved: a token issued under \<open>local\<close> without the
  privileged flag authenticates a TCP request as \<open>local\<close>, and the privilege gate lets every privileged
  service of that caller pass.
\<close>

theorem local_token_bypasses_privilege_gate:
  assumes "state_ok st" "Tokens_Issue sha256 (Inr bs) (Some (l, Node_Apply raft)) now ctx LocalIdentity False st = (Inr resp, st')" "bs \<noteq> []"
    and "\<forall>t \<in> set (Store_List (Tokens st)). tk_hashed_secret t = sha256 (ti_Token resp) \<longrightarrow> tk_identity t = LocalIdentity"
    and "cx_peer_network rq = Some ''tcp''" "cx_authorization rq = Some [''Bearer '' @ ti_Token resp]"
  shows "\<exists>rq' t. authResolve sha256 rq st' = Inr rq' \<and> Store_Get (Tokens st') (IdentityFromContext rq') = Some t
    \<and> \<not> tk_allows_privileged t \<and> checkPrivilegedAdmission st' (IdentityFromContext rq') svcs = None"
proof -
  note i = node.Issue_done [OF assms(1,2)]
  define t where "t = \<lparr>tk_identity = LocalIdentity, tk_hashed_secret = sha256 (ti_Token resp), tk_issued_at = Some now,
      tk_revoked_at = None, tk_allows_privileged = False\<rparr>"
  note g = i(3) [folded t_def]
  have tk: "ti_Token resp \<noteq> ''''" using assms(3) by (simp add: i(1))
  have "LookupTokenByHash (Tokens st') (sha256 (ti_Token resp)) = Some t"
    by (rule lookup_updated(1) [OF assms(1) i(2) g _ _ assms(4)]) (simp_all add: t_def)
  then have "authResolve sha256 rq st' = Inr (rq\<lparr>cx_identity := Some LocalIdentity\<rparr>)"
    using assms(5,6) tk by (simp add: authResolve_bearer t_def)
  moreover have "checkPrivilegedAdmission st' LocalIdentity svcs = None" by (simp add: checkPrivilegedAdmission_def split: list.split)
  ultimately show ?thesis
    by (intro exI [of _ "rq\<lparr>cx_identity := Some LocalIdentity\<rparr>"] exI [of _ t]) (simp add: IdentityFromContext_def g t_def)
qed


section \<open>Examples\<close>

text \<open>A cluster where \<open>db\<close> publishes port 53; a manifest for \<open>web\<close> with one route and one port.\<close>

definition ex_db :: State where
  "ex_db = State_New\<lparr>TCPRoutes := put tcproute_key \<lparr>tr_published_port = 53, tr_deployment = ''db'', tr_service = ''dns'', tr_container_port = 53\<rparr> 1
     (TCPRoutes State_New)\<rparr>"

definition ex_jaco :: JacoYAML where
  "ex_jaco = \<lparr>jy_Deployment = ''web'', jy_Services = [\<lparr>sd_Name = ''app'', sd_Replicas = Some 2, sd_Placement = '''', sd_Hosts = [], sd_Networks = []\<rparr>],
     jy_Routes = [\<lparr>rc_Domain = ''a.io'', rc_Service = ''app'', rc_Port = 80, rc_TLS = '''', rc_Path = '''', rc_StripPath = False\<rparr>],
     jy_ACME = '''', jy_ACMEEmail = '''', jy_Environment = ''''\<rparr>"

definition ex_compose :: "string \<Rightarrow> Project" where
  "ex_compose port = [(''app'', \<lparr>sc_Name = ''app'', sc_DeployReplicas = None, sc_Networks = [''b'', ''a''],
     sc_Ports = [\<lparr>po_Published = port, po_Protocol = ''tcp'', po_HostIP = '''', po_Target = 80\<rparr>], sc_NetworkMode = '''',
     sc_Privileged = True, sc_SecurityOpt = []\<rparr>)]"

definition ex_parsers :: "string \<Rightarrow> parsers" where
  "ex_parsers port = \<lparr>pa_any = (\<lambda>_. Inr (YMap [(YStr ''deployment'', YStr ''web'')])), pa_struct = (\<lambda>_. Inr ex_jaco), pa_address = (\<lambda>_. True),
     pa_validate = (\<lambda>_. None), pa_load = (\<lambda>_. Inr (ex_compose port))\<rparr>"

definition ex_req :: ApplyRequest where
  "ex_req = \<lparr>aq_jaco_yaml = ''j'', aq_compose_yaml = ''c'', aq_dry_run = False\<rparr>"

definition ex_ctx :: "string option \<Rightarrow> request_ctx" where
  "ex_ctx i = \<lparr>cx_peer_network = Some ''unix'', cx_authorization = None, cx_identity = i\<rparr>"

text \<open>The port of another deployment and a privileged service of an unprivileged caller are refused.\<close>

lemma ex_apply_refused:
  "plan_apply (ex_parsers ''53'') (ex_ctx (Some ''local'')) ex_req ex_db = Inl (errorStatus C_InvalidArgument ''port_conflict'' (PortTaken 53 ''db''))"
  "plan_apply (ex_parsers ''80'') (ex_ctx (Some ''ann'')) ex_req ex_db = Inl (errorStatus C_PermissionDenied ''privilege_denied'' (TokenNotFound ''ann''))"
  by code_simp+

definition ex_applied :: "(rpc_error + uint64) \<times> State" where
  "ex_applied = Deploy_Apply (ex_parsers ''80'') (Some (True, Node_Apply (\<lambda>_ _. Committed 7))) 9 (ex_ctx (Some ''local'')) ex_req ex_db"

lemma ex_applied_eq:
  "Deploy_Apply (ex_parsers ''80'') (Some (True, Node_Apply (\<lambda>_ _. Committed 7))) 9 (ex_ctx (Some ''local'')) ex_req ex_db = (Inr 1, snd ex_applied)"
proof -
  have "(case plan_apply (ex_parsers ''80'') (ex_ctx (Some ''local'')) ex_req ex_db of Inl _ \<Rightarrow> None | Inr (_, da, _) \<Rightarrow> Some (da_revision da)) = Some 1"
    by code_simp
  then obtain cur da ps where "plan_apply (ex_parsers ''80'') (ex_ctx (Some ''local'')) ex_req ex_db = Inr (cur, da, ps)" "da_revision da = 1"
    by (auto split: sum.splits)
  then have "fst ex_applied = Inr 1" by (simp add: ex_applied_def Deploy_Apply_def Node_Apply_def ex_req_def)
  then show ?thesis unfolding ex_applied_def by (metis prod.collapse)
qed


definition ex_issue :: "string \<Rightarrow> (rpc_error + TokenIssueResponse) \<times> State" where
  "ex_issue i = Tokens_Issue ex_sha (Inr ''x'') (Some (True, Node_Apply (\<lambda>_ _. Committed 7))) 9 (ex_ctx (Some ''ann'')) i False ex_tokens"

lemma ex_issue_eq:
  "Tokens_Issue ex_sha (Inr ''x'') (Some (True, Node_Apply (\<lambda>_ _. Committed 7))) 9 (ex_ctx (Some ''ann'')) i False ex_tokens
     = (Inr \<lparr>ti_Identity = i, ti_Token = ''78'', ti_IssuedAt = Some 9\<rparr>, snd (ex_issue i))" if "i \<noteq> ''''"
proof -
  have "EncodeToString ''x'' = ''78''" by code_simp
  with that show ?thesis by (simp add: ex_issue_def Tokens_Issue_def Node_Apply_def Let_def)
qed

lemma ex_tokens_fresh: "\<forall>t \<in> set (Store_List (Tokens ex_tokens)). tk_hashed_secret t = ex_sha ''78'' \<longrightarrow> tk_identity t = i"
proof -
  have "\<forall>t \<in> set (Store_List (Tokens ex_tokens)). tk_hashed_secret t \<noteq> ex_sha ''78''" by code_simp
  then show ?thesis by blast
qed

theorem token_lifecycle_witness:
  "authResolve ex_sha \<lparr>cx_peer_network = Some ''tcp'', cx_authorization = Some [''Bearer 78''], cx_identity = None\<rparr> (snd (ex_issue ''eve''))
     = Inr \<lparr>cx_peer_network = Some ''tcp'', cx_authorization = Some [''Bearer 78''], cx_identity = Some ''eve''\<rparr>"
proof -
  define st'' where "st'' = snd (Tokens_Revoke (Some (True, Node_Apply (\<lambda>_ _. Committed 8))) 9 (ex_ctx None) ''eve'' (snd (ex_issue ''eve'')))"
  have "Tokens_Revoke (Some (True, Node_Apply (\<lambda>_ _. Committed 8))) 9 (ex_ctx None) ''eve'' (snd (ex_issue ''eve'')) = (None, st'')"
    by (simp add: st''_def Tokens_Revoke_def Node_Apply_def)
  from token_lifecycle [OF ex_tokens_ok ex_issue_eq _ _ _ _ this, of "\<lparr>cx_peer_network = Some ''tcp'', cx_authorization = Some [''Bearer 78''], cx_identity = None\<rparr>"]
    ex_tokens_fresh show ?thesis by simp
qed

theorem local_token_bypasses_privilege_gate_witness:
  "checkPrivilegedAdmission (snd (ex_issue ''local'')) ''local'' [\<lparr>pv_Name = ''app'', pv_Fields = [''privileged'']\<rparr>] = None
   \<and> (\<exists>rq'. authResolve ex_sha \<lparr>cx_peer_network = Some ''tcp'', cx_authorization = Some [''Bearer 78''], cx_identity = None\<rparr>
        (snd (ex_issue ''local'')) = Inr rq')"
proof -
  have l: "LocalIdentity \<noteq> ''''" "LocalIdentity = ''local''" by (simp_all add: LocalIdentity_def)
  have "checkPrivilegedAdmission (snd (ex_issue ''local'')) ''local'' [\<lparr>pv_Name = ''app'', pv_Fields = [''privileged'']\<rparr>] = None"
    by (simp add: checkPrivilegedAdmission_def l(2))
  with local_token_bypasses_privilege_gate [OF ex_tokens_ok ex_issue_eq [OF l(1)], of "\<lparr>cx_peer_network = Some ''tcp'', cx_authorization = Some [''Bearer 78''], cx_identity = None\<rparr>"]
    ex_tokens_fresh [of LocalIdentity] show ?thesis by (auto simp: l(2))
qed

end
