(* ===== verification/NodeOps.thy ===== *)
theory NodeOps
  imports Deploy Drain Membership
begin

text \<open>
  Nodes entering and leaving the cluster: the handlers of
  \<^verbatim>\<open>internal/controlplane/grpc/membership.go\<close> and \<^verbatim>\<open>drain.go\<close>, the daemon's own \<open>NodeJoin\<close>
  (\<^verbatim>\<open>internal/daemon/grpc/membership.go\<close>) and the purge of the subnets without host
  (\<^verbatim>\<open>internal/daemon/grpc/subnet_migration.go\<close>).

  hashicorp/raft is third-party code. A raft node is a record of what the handlers call on it;
  its configuration, a list of servers, is passed next to the replicated state. A change of the
  configuration is the field \<open>rh_change\<close>, an error or the new configuration, and the documented effect
  of a successful change is the hypothesis \<open>conf_effect\<close>. The CA signs a certificate request
  through the parameter \<open>sign\<close>; \<open>sha256\<close> is a parameter as well.

  While a drain waits, the rest of the cluster goes on: \<open>clock n\<close>, \<open>view n\<close> and \<open>done n\<close> are the time, the
  state and the cancellation that the n-th round of the wait observes.
\<close>

section \<open>The raft node\<close>

datatype conf_change = Change_AddNonvoter string string | Change_Demote string | Change_Remove string

record raft_handle =
  rh_IsLeader :: bool
  rh_Apply :: applier
  rh_Leader :: string
  rh_LeaderID :: string
  rh_LocalAddr :: string
  rh_readable :: bool
  rh_change :: "conf_change \<Rightarrow> Server list \<Rightarrow> string + Server list"

definition conf_effect :: "(conf_change \<Rightarrow> Server list \<Rightarrow> string + Server list) \<Rightarrow> bool" where
  "conf_effect change \<longleftrightarrow>
     (\<forall>i ss ss'. change (Change_Demote i) ss = Inr ss' \<longrightarrow> ss' = set_suffrage i Nonvoter ss)
   \<and> (\<forall>i ss ss'. change (Change_Remove i) ss = Inr ss' \<longrightarrow> ss' = filter (\<lambda>s. sv_ID s \<noteq> i) ss)"

section \<open>Joining\<close>

definition joinTokenTTL :: int where
  "joinTokenTTL = 24 * 3600 * 1000000000"

record IssueJoinTokenResponse =
  ij_Token :: string
  ij_CaCert :: bytes
  ij_LeaderAddrs :: "string list"

definition leader_addrs :: "string \<Rightarrow> Node list \<Rightarrow> string list" where
  "leader_addrs leader nodes = leader # filter (\<lambda>a. a \<noteq> '''' \<and> a \<noteq> leader) (map nd_address nodes)"

definition IssueJoinToken :: "(string \<Rightarrow> bytes) \<Rightarrow> string + bytes \<Rightarrow> raft_handle option \<Rightarrow> time \<Rightarrow> request_ctx \<Rightarrow> State
    \<Rightarrow> (rpc_error + IssueJoinTokenResponse) \<times> State" where
  "IssueJoinToken sha256 random raft now ctx st =
     (case raft of
        None \<Rightarrow> (Inl (errorStatus C_Unavailable ''raft_unavailable'' (Text ''raft not wired'')), st)
      | Some r \<Rightarrow>
          if \<not> rh_IsLeader r then (Inl (errorStatus C_Unavailable ''no_leader'' (Text ''issue join token requires leader'')), st)
          else
            (case random of
               Inl err \<Rightarrow> (Inl (errorStatus C_Internal ''rand_failed'' (Text err)), st)
             | Inr tokenBytes \<Rightarrow>
                 (let token = EncodeToString tokenBytes; hash = sha256 token
                  in case rh_Apply r (mk_cmd (IdentityFromContext ctx) now (JoinTokenIssue hash (Some (now + joinTokenTTL)))) st of
                       (Some err, st1) \<Rightarrow> (Inl (errorStatus C_Internal ''raft_apply_failed'' (Text err)), st1)
                     | (None, st1) \<Rightarrow>
                         (Inr \<lparr>ij_Token = token,
                               ij_CaCert = (case Cluster_Get (ClusterMetaCell st1) of None \<Rightarrow> [] | Some meta \<Rightarrow> cm_ca_cert meta),
                               ij_LeaderAddrs = leader_addrs (rh_Leader r) (Store_List (Nodes st1))\<rparr>, st1))))"

record NodeJoinRequest =
  jr_Name :: string
  jr_JoinToken :: string
  jr_CsrPem :: bytes
  jr_AdvertiseAddr :: string
  jr_WireguardPubkey :: bytes
  jr_GrpcAddress :: string

record NodeJoinResponse =
  jp_ClusterId :: string
  jp_SignedCert :: bytes
  jp_CaCert :: bytes
  jp_PeerAddrs :: "string list"

datatype join_error =
    RaftUnavailable | NoLeader | ValidationFailed | JoinTokenInvalid | JoinTokenConsumed | JoinTokenExpired
  | CaMissing | CsrInvalid string | AddNonvoterFailed string | RaftApplyFailed string

text \<open>What the checks establish: the hash of the token, the cluster's metadata and the signed certificate.\<close>

record join_grant =
  jg_hash :: bytes
  jg_meta :: ClusterMeta
  jg_cert :: bytes

text \<open>
  The checks of a join read the local state and change nothing. Both handlers carry the same ones.
\<close>

definition join_checks :: "(string \<Rightarrow> bytes) \<Rightarrow> (bytes \<Rightarrow> bytes \<Rightarrow> bytes \<Rightarrow> string + bytes) \<Rightarrow> raft_handle option \<Rightarrow> time
    \<Rightarrow> NodeJoinRequest \<Rightarrow> State \<Rightarrow> join_error + join_grant" where
  "join_checks sha256 sign raft now req st =
     (case raft of
        None \<Rightarrow> Inl RaftUnavailable
      | Some r \<Rightarrow>
          if \<not> rh_IsLeader r then Inl NoLeader
          else if jr_Name req = '''' \<or> jr_JoinToken req = '''' \<or> length (jr_CsrPem req) = 0 \<or> jr_AdvertiseAddr req = ''''
          then Inl ValidationFailed
          else
            (let hash = sha256 (jr_JoinToken req)
             in case Store_Get (JoinTokens st) (EncodeToString hash) of
                  None \<Rightarrow> Inl JoinTokenInvalid
                | Some tok \<Rightarrow>
                    if jt_consumed_at tok \<noteq> None then Inl JoinTokenConsumed
                    else if jt_expires_at tok \<noteq> None \<and> AsTime (jt_expires_at tok) < now then Inl JoinTokenExpired
                    else
                      (case Cluster_Get (ClusterMetaCell st) of
                         None \<Rightarrow> Inl CaMissing
                       | Some meta \<Rightarrow>
                           if length (cm_ca_cert meta) = 0 \<or> length (cm_ca_key meta) = 0 then Inl CaMissing
                           else
                             (case sign (jr_CsrPem req) (cm_ca_cert meta) (cm_ca_key meta) of
                                Inl err \<Rightarrow> Inl (CsrInvalid err)
                              | Inr cert \<Rightarrow> Inr \<lparr>jg_hash = hash, jg_meta = meta, jg_cert = cert\<rparr>))))"

definition peer_addrs :: "string \<Rightarrow> string \<Rightarrow> Node list \<Rightarrow> string list" where
  "peer_addrs local joiner nodes = local # filter (\<lambda>a. a \<noteq> '''' \<and> a \<noteq> local \<and> a \<noteq> joiner) (map nd_address nodes)"

definition join_node :: "NodeJoinRequest \<Rightarrow> string \<Rightarrow> Command Payload" where
  "join_node req grpcAddress = NodeJoin \<lparr>nj_hostname = jr_Name req, nj_address = jr_AdvertiseAddr req,
     nj_server_cert_fingerprint = [], nj_wireguard_pubkey = jr_WireguardPubkey req, nj_grpc_address = grpcAddress\<rparr>"

text \<open>
  A granted join changes the raft configuration and then submits one batch: the control plane's
  handler consumes the token and writes the node; the daemon's also gives the address of its gRPC
  listener and marks the node ready.
\<close>

definition batch_of :: "string \<Rightarrow> time \<Rightarrow> Command Payload list \<Rightarrow> Command" where
  "batch_of ident now ps = mk_cmd ident now (Batch (map (\<lambda>p. Some (mk_cmd ident now p)) ps))"

definition join_identity :: "bytes \<Rightarrow> string" where
  "join_identity hash = ''join_token:'' @ take 8 (EncodeToString hash)"

definition cp_join_batch :: "NodeJoinRequest \<Rightarrow> bytes \<Rightarrow> time \<Rightarrow> Command" where
  "cp_join_batch req hash now = batch_of (join_identity hash) now [JoinTokenConsume hash, join_node req '''']"

definition daemon_join_batch :: "NodeJoinRequest \<Rightarrow> bytes \<Rightarrow> time \<Rightarrow> Command" where
  "daemon_join_batch req hash now = batch_of (join_identity hash) now
     [JoinTokenConsume hash, join_node req (jr_GrpcAddress req),
      NodeStatusUpdate \<lparr>nu_hostname = jr_Name req, nu_status = NS_READY, nu_details = Map.empty,
        nu_cpu_pressure = 0, nu_memory_pressure = 0, nu_include_pressure = False\<rparr>]"

definition join_commit :: "(NodeJoinRequest \<Rightarrow> bytes \<Rightarrow> time \<Rightarrow> Command) \<Rightarrow> raft_handle \<Rightarrow> time \<Rightarrow> NodeJoinRequest \<Rightarrow> join_grant
    \<Rightarrow> Server list \<times> State \<Rightarrow> (join_error + NodeJoinResponse) \<times> Server list \<times> State" where
  "join_commit batch r now req g = (\<lambda>(cfg, st).
     (case rh_change r (Change_AddNonvoter (jr_Name req) (jr_AdvertiseAddr req)) cfg of
        Inl err \<Rightarrow> (Inl (AddNonvoterFailed err), cfg, st)
      | Inr cfg1 \<Rightarrow>
          (case rh_Apply r (batch req (jg_hash g) now) st of
             (Some err, st1) \<Rightarrow> (Inl (RaftApplyFailed err), cfg1, st1)
           | (None, st1) \<Rightarrow>
               (Inr \<lparr>jp_ClusterId = cm_cluster_id (jg_meta g), jp_SignedCert = jg_cert g, jp_CaCert = cm_ca_cert (jg_meta g),
                     jp_PeerAddrs = peer_addrs (rh_LocalAddr r) (jr_AdvertiseAddr req) (Store_List (Nodes st1))\<rparr>, cfg1, st1))))"

definition join_handler :: "(NodeJoinRequest \<Rightarrow> bytes \<Rightarrow> time \<Rightarrow> Command) \<Rightarrow> (string \<Rightarrow> bytes)
    \<Rightarrow> (bytes \<Rightarrow> bytes \<Rightarrow> bytes \<Rightarrow> string + bytes) \<Rightarrow> raft_handle option \<Rightarrow> time \<Rightarrow> NodeJoinRequest
    \<Rightarrow> Server list \<times> State \<Rightarrow> (join_error + NodeJoinResponse) \<times> Server list \<times> State" where
  "join_handler batch sha256 sign raft now req = (\<lambda>(cfg, st).
     (case join_checks sha256 sign raft now req st of
        Inl err \<Rightarrow> (Inl err, cfg, st)
      | Inr g \<Rightarrow> join_commit batch (the raft) now req g (cfg, st)))"

text \<open>
  The status each handler reports for an error. The daemon's first message has an em dash where the
  semicolon is.
\<close>

fun cp_join_status :: "join_error \<Rightarrow> rpc_error" where
  "cp_join_status RaftUnavailable = errorStatus C_Unavailable ''raft_unavailable'' (Text ''raft not wired'')"
| "cp_join_status NoLeader = errorStatus C_Unavailable ''no_leader'' (Text ''join requires leader'')"
| "cp_join_status ValidationFailed =
     errorStatus C_InvalidArgument ''validation_failed'' (Text ''name, join_token, csr_pem, advertise_addr required'')"
| "cp_join_status JoinTokenInvalid = errorStatus C_PermissionDenied ''join_token_invalid'' (Text ''unknown join token'')"
| "cp_join_status JoinTokenConsumed = errorStatus C_PermissionDenied ''join_token_consumed'' (Text ''join token already used'')"
| "cp_join_status JoinTokenExpired = errorStatus C_PermissionDenied ''join_token_expired'' (Text ''join token expired'')"
| "cp_join_status CaMissing = errorStatus C_Internal ''ca_missing'' (Text ''cluster CA not present in state'')"
| "cp_join_status (CsrInvalid err) = errorStatus C_InvalidArgument ''csr_invalid'' (Text err)"
| "cp_join_status (AddNonvoterFailed err) = errorStatus C_Internal ''raft_add_nonvoter_failed'' (Text err)"
| "cp_join_status (RaftApplyFailed err) = errorStatus C_Internal ''raft_apply_failed'' (Text err)"

datatype status_error = status_Error status_code string

fun daemon_join_status :: "join_error \<Rightarrow> status_error" where
  "daemon_join_status RaftUnavailable = status_Error C_Unavailable
     ''raft_unavailable: daemon has no raft state; run `jaco cluster init` first''"
| "daemon_join_status NoLeader = status_Error C_Unavailable ''no_leader: NodeJoin must be sent to the leader''"
| "daemon_join_status ValidationFailed = status_Error C_InvalidArgument
     ''validation_failed: name, join_token, csr_pem, advertise_addr required''"
| "daemon_join_status JoinTokenInvalid = status_Error C_PermissionDenied ''join_token_invalid''"
| "daemon_join_status JoinTokenConsumed = status_Error C_PermissionDenied ''join_token_consumed''"
| "daemon_join_status JoinTokenExpired = status_Error C_PermissionDenied ''join_token_expired''"
| "daemon_join_status CaMissing = status_Error C_Internal ''ca_missing: cluster CA not in state''"
| "daemon_join_status (CsrInvalid err) = status_Error C_InvalidArgument (''csr_invalid: '' @ err)"
| "daemon_join_status (AddNonvoterFailed err) = status_Error C_Internal (''raft_add_voter_failed: '' @ err)"
| "daemon_join_status (RaftApplyFailed err) = status_Error C_Internal (''raft_apply_failed: '' @ err)"

definition cp_NodeJoin :: "(string \<Rightarrow> bytes) \<Rightarrow> (bytes \<Rightarrow> bytes \<Rightarrow> bytes \<Rightarrow> string + bytes) \<Rightarrow> raft_handle option \<Rightarrow> time \<Rightarrow> NodeJoinRequest
    \<Rightarrow> Server list \<times> State \<Rightarrow> (rpc_error + NodeJoinResponse) \<times> Server list \<times> State" where
  "cp_NodeJoin sha256 sign raft now req w =
     apfst (map_sum cp_join_status id) (join_handler cp_join_batch sha256 sign raft now req w)"

text \<open>
  The daemon's handler also kicks the reconciler of the voter set, where there is one. A daemon with a
  raft node has a state, so its check for a missing state is left out.
\<close>

definition daemon_NodeJoin :: "(string \<Rightarrow> bytes) \<Rightarrow> (bytes \<Rightarrow> bytes \<Rightarrow> bytes \<Rightarrow> string + bytes) \<Rightarrow> raft_handle option \<Rightarrow> time \<Rightarrow> NodeJoinRequest
    \<Rightarrow> Reconciler option \<Rightarrow> Server list \<times> State
    \<Rightarrow> (status_error + NodeJoinResponse) \<times> Reconciler option \<times> Server list \<times> State" where
  "daemon_NodeJoin sha256 sign raft now req m w =
     (case join_handler daemon_join_batch sha256 sign raft now req w of
        (Inl err, w1) \<Rightarrow> (Inl (daemon_join_status err), m, w1)
      | (Inr resp, w1) \<Rightarrow> (Inr resp, map_option Kick m, w1))"

section \<open>Draining\<close>

text \<open>A migration rewrites the replica with its new host; the other fields of the message stay at their zero values.\<close>

definition drain_cmd :: "string \<Rightarrow> time \<Rightarrow> Migration \<Rightarrow> Command" where
  "drain_cmd hostname now m = mk_cmd (''drain:'' @ hostname) now (ReplicaDesiredUpsert (Some
     \<lparr>rd_id = mg_ReplicaID m, rd_deployment = mg_Deployment m, rd_service = mg_Service m, rd_index = 0,
      rd_host = mg_ToHost m, rd_image = mg_Image m, rd_raft_index = 0, rd_spec_hash = []\<rparr>))"

fun drain_upserts :: "applier \<Rightarrow> string \<Rightarrow> time \<Rightarrow> Migration list \<Rightarrow> State \<Rightarrow> string option \<times> State" where
  "drain_upserts submit hostname now [] st = (None, st)"
| "drain_upserts submit hostname now (m # ms) st =
     (case submit (drain_cmd hostname now m) st of
        (Some err, st1) \<Rightarrow> (Some err, st1)
      | (None, st1) \<Rightarrow> drain_upserts submit hostname now ms st1)"

definition drainComplete :: "State \<Rightarrow> Migration list \<Rightarrow> bool" where
  "drainComplete st ms \<longleftrightarrow>
     list_all (\<lambda>m. case Store_Get (ReplicasObserved st) (mg_ReplicaID m) of None \<Rightarrow> False | Some obs \<Rightarrow> ro_state obs = RS_RUNNING) ms"

definition drainDeadline :: int where
  "drainDeadline = 60 * 1000000000"

definition drainInterval :: int where
  "drainInterval = 500 * 1000000"

text \<open>The wait: the result and the number of the round in which it ends.\<close>

partial_function (option) drain_wait :: "(nat \<Rightarrow> time) \<Rightarrow> (nat \<Rightarrow> State) \<Rightarrow> (nat \<Rightarrow> string option) \<Rightarrow> time \<Rightarrow> Migration list \<Rightarrow> nat
    \<Rightarrow> (rpc_error option \<times> nat) option" where
  "drain_wait clock view cancel deadline ms n =
     (if clock n < deadline
      then if drainComplete (view n) ms then Some (None, n)
           else (case cancel n of
                   Some err \<Rightarrow> Some (Some (errorStatus C_DeadlineExceeded ''drain_cancelled'' (Text err)), n)
                 | None \<Rightarrow> drain_wait clock view cancel deadline ms (Suc n))
      else Some (Some (errorStatus C_FailedPrecondition ''drain_timeout''
             (Text ''drain did not complete within 60s; retry or pass --force to skip the drain step'')), n))"

declare drain_wait.simps [code]

text \<open>
  What goes on around a drain: the clock at each round, what the rest of the cluster has done to the state
  by then, and the cancellation of the request.
\<close>

record drain_env =
  de_clock :: "nat \<Rightarrow> time"
  de_view :: "nat \<Rightarrow> State \<Rightarrow> State"
  de_cancel :: "nat \<Rightarrow> string option"

definition drainHost :: "svcKey list \<Rightarrow> drain_env \<Rightarrow> applier \<Rightarrow> time \<Rightarrow> string \<Rightarrow> State \<Rightarrow> (rpc_error option \<times> State) option" where
  "drainHost order env submit now hostname st =
     (case Plan order st hostname of
        Inl err \<Rightarrow> Some (Some (errorStatus C_FailedPrecondition ''drain_no_placement'' (DrainMsg err)), st)
      | Inr migrations \<Rightarrow>
          if length migrations = 0 then Some (None, st)
          else
            (case drain_upserts submit hostname now migrations st of
               (Some err, st1) \<Rightarrow> Some (Some (errorStatus C_Internal ''drain_apply_failed'' (Text err)), st1)
             | (None, st1) \<Rightarrow>
                 map_option (\<lambda>(res, n). (res, de_view env n st1))
                   (drain_wait (de_clock env) (\<lambda>n. de_view env n st1) (de_cancel env) (now + drainDeadline) migrations 0)))"

section \<open>Leaving\<close>

definition removeString :: "string list \<Rightarrow> string \<Rightarrow> string list" where
  "removeString xs v = filter (\<lambda>x. x \<noteq> v) xs"

fun demote_excess :: "(conf_change \<Rightarrow> Server list \<Rightarrow> string + Server list) \<Rightarrow> string \<Rightarrow> nat \<Rightarrow> string list \<Rightarrow> Server list
    \<Rightarrow> rpc_error option \<times> Server list" where
  "demote_excess change self 0 voters cfg = (None, cfg)"
| "demote_excess change self (Suc n) voters cfg =
     (let pick = PickDemote voters self
      in if pick = '''' then (None, cfg)
         else (case change (Change_Demote pick) cfg of
                 Inl err \<Rightarrow> (Some (errorStatus C_Internal ''raft_demote_failed'' (Text err)), cfg)
               | Inr cfg1 \<Rightarrow> demote_excess change self n (removeString voters pick) cfg1))"

definition prepareForRemoval :: "raft_handle \<Rightarrow> string \<Rightarrow> Server list \<Rightarrow> rpc_error option \<times> Server list" where
  "prepareForRemoval r leaver cfg =
     (if \<not> rh_readable r then (None, cfg)
      else
        let rest = filter (\<lambda>s. sv_ID s \<noteq> leaver) cfg;
            voters = map sv_ID (filter (\<lambda>s. sv_Suffrage s = Voter) rest);
            target = Target (int (length rest));
            excess = int (length voters) - target
        in if excess \<le> 0 then (None, cfg)
           else demote_excess (rh_change r) (rh_LeaderID r) (nat excess) voters cfg)"

definition NodeRemove_membership :: "raft_handle \<Rightarrow> time \<Rightarrow> request_ctx \<Rightarrow> string \<Rightarrow> Server list \<times> State
    \<Rightarrow> rpc_error option \<times> Server list \<times> State" where
  "NodeRemove_membership r now ctx hostname = (\<lambda>(cfg, st).
     (case prepareForRemoval r hostname cfg of
        (Some err, cfg1) \<Rightarrow> (Some err, cfg1, st)
      | (None, cfg1) \<Rightarrow>
          (case rh_change r (Change_Remove hostname) cfg1 of
             Inl err \<Rightarrow> (Some (errorStatus C_Internal ''raft_remove_failed'' (Text err)), cfg1, st)
           | Inr cfg2 \<Rightarrow>
               (case rh_Apply r (mk_cmd (IdentityFromContext ctx) now (NodeRemove hostname)) st of
                  (Some err, st1) \<Rightarrow> (Some (errorStatus C_Internal ''raft_apply_failed'' (Text err)), cfg2, st1)
                | (None, st1) \<Rightarrow> (None, cfg2, st1)))))"

definition rpc_NodeRemove :: "svcKey list \<Rightarrow> drain_env \<Rightarrow> raft_handle option \<Rightarrow> time \<Rightarrow> request_ctx \<Rightarrow> string \<Rightarrow> bool \<Rightarrow> Server list \<times> State
    \<Rightarrow> (rpc_error option \<times> Server list \<times> State) option" where
  "rpc_NodeRemove order env raft now ctx hostname force = (\<lambda>(cfg, st).
     (case raft of
        None \<Rightarrow> Some (Some (errorStatus C_Unavailable ''raft_unavailable'' (Text ''raft not wired'')), cfg, st)
      | Some r \<Rightarrow>
          if \<not> rh_IsLeader r
          then Some (Some (errorStatus C_Unavailable ''no_leader'' (Text ''remove requires leader'')), cfg, st)
          else if hostname = ''''
          then Some (Some (errorStatus C_InvalidArgument ''validation_failed'' (Text ''hostname required'')), cfg, st)
          else if force then Some (NodeRemove_membership r now ctx hostname (cfg, st))
          else
            (case drainHost order env (rh_Apply r) now hostname st of
               None \<Rightarrow> None
             | Some (Some err, st1) \<Rightarrow> Some (Some err, cfg, st1)
             | Some (None, st1) \<Rightarrow> Some (NodeRemove_membership r now ctx hostname (cfg, st1)))))"

section \<open>The purge of subnets without host\<close>

fun purge_each :: "applier \<Rightarrow> (nat \<Rightarrow> time) \<Rightarrow> Subnet list \<Rightarrow> nat \<Rightarrow> State \<Rightarrow> (nat \<times> string option) \<times> State" where
  "purge_each submit clock [] purged st = ((purged, None), st)"
| "purge_each submit clock (sn # sns) purged st =
     (if sn_host sn \<noteq> '''' then purge_each submit clock sns purged st
      else (case submit (mk_cmd ''migration'' (clock purged) (SubnetFree (sn_deployment sn) (sn_network sn) '''')) st of
              (Some err, st1) \<Rightarrow> ((purged, Some err), st1)
            | (None, st1) \<Rightarrow> purge_each submit clock sns (Suc purged) st1))"

definition purgeHostlessSubnets :: "applier \<Rightarrow> (nat \<Rightarrow> time) \<Rightarrow> State \<Rightarrow> (nat \<times> string option) \<times> State" where
  "purgeHostlessSubnets submit clock st = purge_each submit clock (Store_List (Subnets st)) 0 st"

end
