(* ===== verification/NodeOpsProps.thy ===== *)
theory NodeOpsProps
  imports NodeOps
begin

text \<open>
  Properties of nodes entering and leaving: a graceful removal always returns, a removal keeps the voter set
  at its target and the leader in it, a join token admits one node when joins do not overlap and two
  when they do, what a drain waits for, and what the purge of host-less subnets frees.
\<close>

section \<open>The wait of a drain\<close>

lemma clock_advances:
  assumes "(start :: time) \<le> clock 0" "\<forall>n. clock n + drainInterval \<le> clock (Suc n)"
  shows "start + int n * drainInterval \<le> clock n"
proof (induction n)
  case (Suc n)
  then show ?case using assms(2) [rule_format, of n] by (simp add: algebra_simps)
qed (use assms(1) in simp)

definition wait_ends :: "(nat \<Rightarrow> time) \<Rightarrow> (nat \<Rightarrow> State) \<Rightarrow> (nat \<Rightarrow> string option) \<Rightarrow> time \<Rightarrow> Migration list \<Rightarrow> nat
    \<Rightarrow> rpc_error option \<Rightarrow> nat \<Rightarrow> bool" where
  "wait_ends clock view cancel deadline ms n res k \<longleftrightarrow> n \<le> k
     \<and> (res = None \<longleftrightarrow> clock k < deadline \<and> drainComplete (view k) ms)
     \<and> (\<forall>j. n \<le> j \<and> j < k \<longrightarrow> \<not> drainComplete (view j) ms \<and> cancel j = None \<and> clock j < deadline)"

lemma drain_wait_returns:
  assumes "n \<le> N" "deadline \<le> clock N"
  shows "\<exists>res k. drain_wait clock view cancel deadline ms n = Some (res, k) \<and> k \<le> N
    \<and> wait_ends clock view cancel deadline ms n res k"
  using assms(1)
proof (induction n rule: inc_induct)
  case base
  then show ?case using assms(2) by (auto simp: drain_wait.simps wait_ends_def)
next
  case (step n)
  show ?case
  proof (cases "clock n < deadline \<and> \<not> drainComplete (view n) ms \<and> cancel n = None")
    case True
    then have w: "drain_wait clock view cancel deadline ms n = drain_wait clock view cancel deadline ms (Suc n)"
      by (subst drain_wait.simps) simp
    from step.IH obtain res k where k: "drain_wait clock view cancel deadline ms (Suc n) = Some (res, k)" "k \<le> N"
      "wait_ends clock view cancel deadline ms (Suc n) res k" by blast
    from k(3) True have "wait_ends clock view cancel deadline ms n res k"
      unfolding wait_ends_def by (metis Suc_leD Suc_leI le_neq_implies_less)
    with k w show ?thesis by auto
  next
    case False
    then show ?thesis using step.hyps
      by (subst drain_wait.simps) (auto simp: wait_ends_def split: option.split)
  qed
qed

lemma drain_wait_bounded:
  assumes "start \<le> clock 0" "\<forall>n. clock n + drainInterval \<le> clock (Suc n)"
  shows "\<exists>res k. drain_wait clock view cancel (start + drainDeadline) ms 0 = Some (res, k) \<and> k \<le> 120
    \<and> wait_ends clock view cancel (start + drainDeadline) ms 0 res k"
  using clock_advances [OF assms, of 120]
  by (intro drain_wait_returns) (simp_all add: drainDeadline_def drainInterval_def)

lemma drainHost_returns:
  assumes "now \<le> de_clock env 0" "\<forall>n. de_clock env n + drainInterval \<le> de_clock env (Suc n)"
  shows "drainHost order env submit now hostname st \<noteq> None"
proof -
  have "drain_wait (de_clock env) view cancel (now + drainDeadline) ms 0 \<noteq> None" for view cancel ms
    using drain_wait_bounded [OF assms, of view cancel ms] by auto
  then show ?thesis by (simp add: drainHost_def split: sum.split prod.split option.split)
qed

text \<open>
  C15. A graceful removal terminates: when every round of the wait takes at least its interval, the
  handler returns, whatever the rest of the cluster does to the state, and the wait ends within 121
  rounds, with success exactly when the round that ends it came before the deadline and saw every
  migrated replica running.
\<close>

theorem NodeRemove_terminates:
  assumes "now \<le> de_clock env 0" "\<forall>n. de_clock env n + drainInterval \<le> de_clock env (Suc n)"
  shows "(\<exists>out. rpc_NodeRemove order env raft now ctx hostname force w = Some out)
    \<and> (\<exists>res k. drain_wait (de_clock env) view (de_cancel env) (now + drainDeadline) ms 0 = Some (res, k) \<and> k \<le> 120
        \<and> (res = None \<longleftrightarrow> de_clock env k < now + drainDeadline \<and> drainComplete (view k) ms))"
proof
  show "\<exists>out. rpc_NodeRemove order env raft now ctx hostname force w = Some out"
    using drainHost_returns [OF assms]
    by (cases w) (simp add: rpc_NodeRemove_def option.case_eq_if prod.case_eq_if not_None_eq [symmetric]
      del: not_None_eq split_paired_Ex)
  show "\<exists>res k. drain_wait (de_clock env) view (de_cancel env) (now + drainDeadline) ms 0 = Some (res, k) \<and> k \<le> 120
        \<and> (res = None \<longleftrightarrow> de_clock env k < now + drainDeadline \<and> drainComplete (view k) ms)"
    using drain_wait_bounded [OF assms, of view "de_cancel env" ms] unfolding wait_ends_def by blast
qed

section \<open>Removal and the voter set\<close>

definition staying_voters :: "string \<Rightarrow> Server list \<Rightarrow> string list" where
  "staying_voters leaver cfg = voters_of (filter (\<lambda>s. sv_ID s \<noteq> leaver) cfg)"

lemma set_suffrage_ids [simp]: "map sv_ID (set_suffrage i f ss) = map sv_ID ss"
  by (simp add: set_suffrage_def)

lemma staying_voters_demoted:
  "staying_voters leaver (set_suffrage i Nonvoter cfg) = removeString (staying_voters leaver cfg) i"
  by (induction cfg) (simp_all add: staying_voters_def voters_of_def set_suffrage_def removeString_def)

lemma distinct_staying: "distinct (map sv_ID cfg) \<Longrightarrow> distinct (staying_voters leaver cfg)"
  by (auto simp: staying_voters_def voters_of_def distinct_map inj_on_def)

lemma length_removeString: "distinct xs \<Longrightarrow> x \<in> set xs \<Longrightarrow> Suc (length (removeString xs x)) = length xs"
  by (induction xs) (auto simp: removeString_def intro!: arg_cong [of _ _ length] filter_True)

lemma staying_voters_ids: "set (staying_voters leaver cfg) \<subseteq> sv_ID ` set cfg"
  by (auto simp: staying_voters_def voters_of_def)

lemma demote_excess_spec:
  assumes "conf_effect change" "distinct (map sv_ID cfg)" "'''' \<notin> sv_ID ` set cfg"
    and "n < length (staying_voters leaver cfg)"
    and "demote_excess change self n (staying_voters leaver cfg) cfg = (None, cfg')"
  shows "map sv_ID cfg' = map sv_ID cfg \<and> length (staying_voters leaver cfg') + n = length (staying_voters leaver cfg)
    \<and> set (staying_voters leaver cfg') \<subseteq> set (staying_voters leaver cfg)
    \<and> (self \<in> set (staying_voters leaver cfg) \<longrightarrow> self \<in> set (staying_voters leaver cfg'))"
  using assms(2-5)
proof (induction n arbitrary: cfg)
  case (Suc n)
  let ?vs = "staying_voters leaver cfg" and ?pick = "PickDemote (staying_voters leaver cfg) self"
  have d: "distinct ?vs" using Suc.prems(1) by (rule distinct_staying)
  have "'''' \<notin> set ?vs" using Suc.prems(2) staying_voters_ids by blast
  have "?pick \<noteq> ''''"
  proof
    assume "?pick = ''''"
    then have "set ?vs \<subseteq> {self}" using PickDemote_none [OF _ \<open>'''' \<notin> set ?vs\<close>] by blast
    then have "card (set ?vs) \<le> 1" using card_mono [of "{self}" "set ?vs"] by simp
    then show False using Suc.prems(3) d by (simp add: distinct_card)
  qed
  from PickDemote_mem [OF this] have pick: "?pick \<in> set ?vs" "?pick \<noteq> self" by simp_all
  from Suc.prems(4) \<open>?pick \<noteq> ''''\<close> obtain cfg1 where c: "change (Change_Demote ?pick) cfg = Inr cfg1"
    and r: "demote_excess change self n (removeString ?vs ?pick) cfg1 = (None, cfg')"
    by (auto simp: Let_def split: sum.splits)
  from assms(1) c have cfg1: "cfg1 = set_suffrage ?pick Nonvoter cfg" by (simp add: conf_effect_def)
  then have v1: "staying_voters leaver cfg1 = removeString ?vs ?pick" and i1: "map sv_ID cfg1 = map sv_ID cfg"
    by (simp_all add: staying_voters_demoted)
  have l1: "Suc (length (removeString ?vs ?pick)) = length ?vs" using d pick(1) by (rule length_removeString)
  have s1: "sv_ID ` set cfg1 = sv_ID ` set cfg" using i1 by (metis list.set_map)
  from Suc.IH [of cfg1] Suc.prems(1,2,3) r l1 i1 s1 v1
  have ih: "map sv_ID cfg' = map sv_ID cfg \<and> length (staying_voters leaver cfg') + n = length (removeString ?vs ?pick)
    \<and> set (staying_voters leaver cfg') \<subseteq> set (removeString ?vs ?pick)
    \<and> (self \<in> set (removeString ?vs ?pick) \<longrightarrow> self \<in> set (staying_voters leaver cfg'))" by simp
  with l1 pick show ?case by (auto simp: removeString_def)
qed auto


lemma staying_removed: "voters_of (filter (\<lambda>s. sv_ID s \<noteq> leaver) cfg) = staying_voters leaver cfg"
  by (simp add: staying_voters_def)

lemma map_sv_ID_filter: "map sv_ID (filter (\<lambda>s. sv_ID s \<noteq> h) cfg) = filter (\<lambda>i. i \<noteq> h) (map sv_ID cfg)"
  by (induction cfg) simp_all

lemma prepareForRemoval_spec:
  assumes "conf_effect (rh_change r)" "distinct (map sv_ID cfg)" "'''' \<notin> sv_ID ` set cfg" "rh_readable r"
    and "prepareForRemoval r leaver cfg = (None, cfg1)"
  defines "t \<equiv> Target (int (length (filter (\<lambda>i. i \<noteq> leaver) (map sv_ID cfg))))"
  shows "map sv_ID cfg1 = map sv_ID cfg
    \<and> int (length (staying_voters leaver cfg1)) = min (int (length (staying_voters leaver cfg))) t
    \<and> set (staying_voters leaver cfg1) \<subseteq> set (staying_voters leaver cfg)
    \<and> (rh_LeaderID r \<in> set (staying_voters leaver cfg) \<longrightarrow> rh_LeaderID r \<in> set (staying_voters leaver cfg1))"
proof -
  let ?vs = "staying_voters leaver cfg" and ?rest = "filter (\<lambda>s. sv_ID s \<noteq> leaver) cfg"
  have v: "map sv_ID (filter (\<lambda>s. sv_Suffrage s = Voter) ?rest) = ?vs" by (simp add: staying_voters_def voters_of_def)
  have t: "Target (int (length ?rest)) = t" unfolding t_def by (simp only: map_sv_ID_filter [symmetric] length_map)
  have p: "prepareForRemoval r leaver cfg =
     (if int (length ?vs) - t \<le> 0 then (None, cfg)
      else demote_excess (rh_change r) (rh_LeaderID r) (nat (int (length ?vs) - t)) ?vs cfg)"
    using assms(4) by (simp only: prepareForRemoval_def Let_def v t if_not_P not_not if_P simp_thms if_False)
  show ?thesis
  proof (cases "int (length ?vs) - t \<le> 0")
    case True
    then show ?thesis using assms(5) p by simp
  next
    case False
    have "?rest \<noteq> []"
    proof
      assume "?rest = []"
      then have "?vs = []" "t = 0" using v t by (simp_all add: Target_def)
      with False show False by simp
    qed
    then have "t \<ge> 1" using Target_pos [of "int (length ?rest)"] t by (cases ?rest) simp_all
    with False have n: "nat (int (length ?vs) - t) < length ?vs" by linarith
    have "demote_excess (rh_change r) (rh_LeaderID r) (nat (int (length ?vs) - t)) ?vs cfg = (None, cfg1)"
      using assms(5) p False by simp
    from demote_excess_spec [OF assms(1-3) n this] False show ?thesis by auto
  qed
qed

lemma NodeRemove_applied:
  assumes "state_ok s"
  shows "Nodes (apply_command i (mk_cmd u t (NodeRemove h)) s) = del h i (Nodes s)"
    and "Store_Get (Subnets (apply_command i (mk_cmd u t (NodeRemove h)) s)) k = Some sn \<Longrightarrow> sn_host sn \<noteq> h"
  using assms by (auto simp: apply_command.simps [of i "mk_cmd _ _ _"] h_NodeRemove_def Let_def state_ok_def
      drop_where_def split: option.splits if_splits)


lemma drain_upserts_ok:
  "drain_upserts (Node_Apply raft) h now ms st = (e, st') \<Longrightarrow> state_ok st \<Longrightarrow> state_ok st'"
proof (induction ms arbitrary: st)
  case (Cons m ms)
  have "state_ok (snd (Node_Apply raft (drain_cmd h now m) st))" using Cons.prems(2) by (rule node.submit_ok)
  with Cons show ?case by (auto split: prod.splits option.splits)
qed simp

text \<open>
  C4. A removal that succeeds takes exactly the leaving server out of the raft configuration and leaves
  no more voters than the target for the servers that stay: it demotes the excess and nobody else, and
  never the leader. The node and the subnets of its host are gone from the state.
\<close>

theorem NodeRemove_keeps_voters_safe:
  assumes "conf_effect (rh_change r)" "rh_Apply r = Node_Apply raft" "rh_readable r"
    and "distinct (map sv_ID cfg)" "'''' \<notin> sv_ID ` set cfg" "state_ok st"
    and "\<forall>n s. state_ok s \<longrightarrow> state_ok (de_view env n s)"
    and "rpc_NodeRemove order env (Some r) now ctx hostname force (cfg, st) = Some (None, cfg', st')"
  shows "map sv_ID cfg' = filter (\<lambda>i. i \<noteq> hostname) (map sv_ID cfg)
    \<and> int (length (voters_of cfg')) = min (int (length (staying_voters hostname cfg))) (Target (int (length cfg')))
    \<and> set (voters_of cfg') \<subseteq> set (staying_voters hostname cfg)
    \<and> (rh_LeaderID r \<in> set (staying_voters hostname cfg) \<longrightarrow> rh_LeaderID r \<in> set (voters_of cfg'))
    \<and> Store_Get (Nodes st') hostname = None \<and> (\<forall>sn \<in> set (Store_List (Subnets st')). sn_host sn \<noteq> hostname)"
proof -
  have ok: "state_ok st1" if "drainHost order env (rh_Apply r) now hostname st = Some (res, st1)" for res st1
    using that assms(2,6,7) by (auto simp: drainHost_def split: sum.splits if_splits prod.splits option.splits
        dest!: drain_upserts_ok)
  from assms(8) ok assms(6) obtain st1 where "state_ok st1"
    and m: "NodeRemove_membership r now ctx hostname (cfg, st1) = (None, cfg', st')"
    by (auto simp: rpc_NodeRemove_def split: if_splits option.splits prod.splits)
  from m obtain cfg1 where p: "prepareForRemoval r hostname cfg = (None, cfg1)"
    and c: "rh_change r (Change_Remove hostname) cfg1 = Inr cfg'"
    and a: "rh_Apply r (mk_cmd (IdentityFromContext ctx) now (NodeRemove hostname)) st1 = (None, st')"
    by (auto simp: NodeRemove_membership_def split: prod.splits option.splits sum.splits)
  from assms(1) c have cfg': "cfg' = filter (\<lambda>s. sv_ID s \<noteq> hostname) cfg1" by (simp add: conf_effect_def)
  note spec = prepareForRemoval_spec [OF assms(1,4,5,3) p]
  have ids: "map sv_ID cfg' = filter (\<lambda>i. i \<noteq> hostname) (map sv_ID cfg)"
    using spec by (simp only: cfg' map_sv_ID_filter)
  then have len: "length (filter (\<lambda>i. i \<noteq> hostname) (map sv_ID cfg)) = length cfg'" by (metis length_map)
  from node.applied [of raft] a assms(2) obtain i where
    "st' = apply_command i (mk_cmd (IdentityFromContext ctx) now (NodeRemove hostname)) st1" by metis
  with NodeRemove_applied [OF \<open>state_ok st1\<close>] have gone: "Store_Get (Nodes st') hostname = None"
    "\<forall>k sn. Store_Get (Subnets st') k = Some sn \<longrightarrow> sn_host sn \<noteq> hostname" by auto
  have "state_ok st'" using node.submit_ok [OF \<open>state_ok st1\<close>, of raft] a assms(2) by (metis snd_conv)
  then have "set (Store_List (Subnets st')) = ran (Store_Get (Subnets st'))"
    by (intro Store_List_ran [of subnet_key]) (simp add: state_ok_def)
  with gone have "\<forall>sn \<in> set (Store_List (Subnets st')). sn_host sn \<noteq> hostname" by (auto simp: ran_def)
  with ids gone(1) spec show ?thesis unfolding len by (simp add: cfg' staying_removed)
qed


section \<open>Join tokens\<close>

lemma apply_batch_of: "apply_command i (batch_of u t ps) s = fold (\<lambda>p. apply_command i (mk_cmd u t p)) ps s"
proof -
  have f: "fold (\<lambda>child s'. case child of None \<Rightarrow> s' | Some c \<Rightarrow> apply_command i c s') (map (\<lambda>p. Some (mk_cmd u t p)) ps) s
    = fold (\<lambda>p. apply_command i (mk_cmd u t p)) ps s" by (induction ps arbitrary: s) simp_all
  show ?thesis unfolding batch_of_def
    by (subst apply_command.simps) (simp add: h_Batch_def f audit_append_def)
qed

lemma apply_join_leaves:
  "JoinTokens (apply_command i (mk_cmd u t (JoinTokenConsume h)) s) = JoinTokens (fst (h_JoinTokenConsume h (Some t) i s))"
  "Nodes (apply_command i (mk_cmd u t (JoinTokenConsume h)) s) = Nodes s"
  "JoinTokens (apply_command i (mk_cmd u t (NodeJoin nj)) s) = JoinTokens s"
  "Nodes (apply_command i (mk_cmd u t (NodeJoin nj)) s) = Nodes (fst (h_NodeJoin nj (Some t) i s))"
  "JoinTokens (apply_command i (mk_cmd u t (NodeStatusUpdate nu)) s) = JoinTokens s"
  "Nodes (apply_command i (mk_cmd u t (NodeStatusUpdate nu)) s) = Nodes (fst (h_NodeStatusUpdate nu (Some t) i s))"
  by (simp_all add: apply_command.simps [of i "mk_cmd _ _ _"] h_JoinTokenConsume_def h_NodeJoin_def h_NodeStatusUpdate_def
      Let_def split: option.split)


lemma daemon_join_batch_applied:
  assumes "state_ok s" "Store_Get (JoinTokens s) (EncodeToString h) \<noteq> None"
  shows "join_consumed h (apply_command i (daemon_join_batch req h now) s)"
    and "Store_Get (Nodes (apply_command i (daemon_join_batch req h now) s)) k =
      (if k = jr_Name req then Some \<lparr>nd_hostname = jr_Name req, nd_address = jr_AdvertiseAddr req,
          nd_server_cert_fingerprint = [], nd_wireguard_pubkey = jr_WireguardPubkey req, nd_status = NS_READY,
          nd_status_details = Map.empty, nd_joined_at = Some now, nd_grpc_address = jr_GrpcAddress req,
          nd_cpu_pressure = 0, nd_memory_pressure = 0, nd_last_pressure_at = None\<rparr>
       else Store_Get (Nodes s) k)"
  using consumed_JoinTokenConsume [of s h h "Some now" i] assms
  by (simp_all add: daemon_join_batch_def apply_batch_of apply_join_leaves join_node_def join_consumed_def
      h_NodeJoin_def h_NodeStatusUpdate_def Let_def)

lemma daemon_NodeJoin_done:
  assumes "daemon_NodeJoin sha256 sign (Some r) now req m (cfg, st) = (Inr resp, m', cfg', st')" "rh_Apply r = Node_Apply raft"
  obtains g i where "join_checks sha256 sign (Some r) now req st = Inr g"
    "st' = apply_command i (daemon_join_batch req (sha256 (jr_JoinToken req)) now) st"
proof -
  from assms(1) obtain g where g: "join_checks sha256 sign (Some r) now req st = Inr g"
    and c: "join_commit daemon_join_batch r now req g (cfg, st) = (Inr resp, cfg', st')"
    by (auto simp: daemon_NodeJoin_def join_handler_def split: sum.splits prod.splits)
  from g have "jg_hash g = sha256 (jr_JoinToken req)"
    by (auto simp: join_checks_def Let_def split: if_splits option.splits sum.splits)
  with c have "Node_Apply raft (daemon_join_batch req (sha256 (jr_JoinToken req)) now) st = (None, st')"
    using assms(2) by (auto simp: join_commit_def split: sum.splits prod.splits option.splits)
  from node.applied [OF this] g that show thesis by blast
qed

lemma join_checks_token:
  assumes "join_checks sha256 sign raft now req st = Inr g"
  shows "jg_hash g = sha256 (jr_JoinToken req)"
    and "\<exists>tok. Store_Get (JoinTokens st) (EncodeToString (sha256 (jr_JoinToken req))) = Some tok
      \<and> jt_consumed_at tok = None \<and> (jt_expires_at tok \<noteq> None \<longrightarrow> now \<le> AsTime (jt_expires_at tok))"
  using assms by (auto simp: join_checks_def Let_def split: if_splits option.splits sum.splits)

lemma join_checks_consumed:
  assumes "join_consumed (sha256 (jr_JoinToken req)) st"
  shows "\<exists>err. join_checks sha256 sign raft now req st = Inl err"
  using assms by (auto simp: join_checks_def join_consumed_def Let_def split: option.splits)

text \<open>
  C16. A join token admits one node: a successful join found the token issued, not used and not expired, and
  writes the node ready under its address; from then on, after every log that does not issue
  the same hash again, each of the two handlers refuses the token and changes nothing.
\<close>

theorem join_token_admits_once:
  assumes "state_ok st" "rh_Apply r = Node_Apply raft"
    and "daemon_NodeJoin sha256 sign (Some r) now req m (cfg, st) = (Inr resp, m', cfg', st')"
    and "leaves_sat (no_join_reissue (sha256 (jr_JoinToken req))) es" "jr_JoinToken req' = jr_JoinToken req"
  shows "(\<exists>tok. Store_Get (JoinTokens st) (EncodeToString (sha256 (jr_JoinToken req))) = Some tok
        \<and> jt_consumed_at tok = None \<and> (jt_expires_at tok \<noteq> None \<longrightarrow> now \<le> AsTime (jt_expires_at tok)))
    \<and> (\<exists>node. Store_Get (Nodes st') (jr_Name req) = Some node \<and> nd_status node = NS_READY \<and> nd_address node = jr_AdvertiseAddr req)
    \<and> (\<exists>err. daemon_NodeJoin sha256 sign' raft' now' req' m2 (cfg2, run_log es st') = (Inl err, m2, cfg2, run_log es st'))
    \<and> (\<exists>err. cp_NodeJoin sha256 sign' raft' now' req' (cfg2, run_log es st') = (Inl err, cfg2, run_log es st'))"
proof -
  let ?h = "sha256 (jr_JoinToken req)"
  from daemon_NodeJoin_done [OF assms(3,2)] obtain g i where g: "join_checks sha256 sign (Some r) now req st = Inr g"
    and st': "st' = apply_command i (daemon_join_batch req ?h now) st" .
  note tok = join_checks_token(2) [OF g]
  then have known: "Store_Get (JoinTokens st) (EncodeToString ?h) \<noteq> None" by auto
  note batch = daemon_join_batch_applied [OF assms(1) known, of i req now, folded st']
  have "state_ok st'" unfolding st' using assms(1) by (rule ok_inv.apply_command_inv) (simp add: list_all_iff)
  then have "consumed_kept ?h (run_log es st')"
    using batch(1) assms(4) by (intro consumed_inv.run_log_keeps) (simp_all add: consumed_kept_def)
  then obtain err where "join_checks sha256 sign' raft' now' req' (run_log es st') = Inl err"
    using join_checks_consumed [of sha256 req' "run_log es st'" sign' raft' now'] assms(5) by (auto simp: consumed_kept_def)
  then have "daemon_NodeJoin sha256 sign' raft' now' req' m2 (cfg2, run_log es st') = (Inl (daemon_join_status err), m2, cfg2, run_log es st')"
    "cp_NodeJoin sha256 sign' raft' now' req' (cfg2, run_log es st') = (Inl (cp_join_status err), cfg2, run_log es st')"
    by (simp_all add: daemon_NodeJoin_def cp_NodeJoin_def join_handler_def)
  with tok batch(2) [of "jr_Name req"] show ?thesis by auto
qed

text \<open>
  C39. The handler checks the token before it submits, and the state machine marks a token consumed
  without looking: two joins with one token that both check before the first commits are both granted,
  and both nodes end up ready members.
\<close>

theorem join_token_race:
  assumes "state_ok st" "rh_Apply r = leader_apply i"
    and "join_checks sha256 sign (Some r) now1 req1 st = Inr g1" "join_checks sha256 sign (Some r) now2 req2 st = Inr g2"
    and "jr_JoinToken req1 = jr_JoinToken req2" "jr_Name req1 \<noteq> jr_Name req2"
    and "rh_change r (Change_AddNonvoter (jr_Name req1) (jr_AdvertiseAddr req1)) cfg = Inr cfg1"
    and "rh_change r (Change_AddNonvoter (jr_Name req2) (jr_AdvertiseAddr req2)) cfg1 = Inr cfg2"
  shows "\<exists>resp1 st1 resp2 st2. join_commit daemon_join_batch r now1 req1 g1 (cfg, st) = (Inr resp1, cfg1, st1)
    \<and> join_commit daemon_join_batch r now2 req2 g2 (cfg1, st1) = (Inr resp2, cfg2, st2)
    \<and> (\<forall>req \<in> {req1, req2}. \<exists>node. Store_Get (Nodes st2) (jr_Name req) = Some node \<and> nd_status node = NS_READY)"
proof -
  let ?h = "sha256 (jr_JoinToken req2)"
  have h: "jg_hash g1 = ?h" "jg_hash g2 = ?h" using join_checks_token(1) assms(3-5) by metis+
  have known: "Store_Get (JoinTokens st) (EncodeToString ?h) \<noteq> None" using join_checks_token(2) [OF assms(4)] by auto
  define st1 where "st1 = apply_command i (daemon_join_batch req1 ?h now1) st"
  define st2 where "st2 = apply_command i (daemon_join_batch req2 ?h now2) st1"
  note b1 = daemon_join_batch_applied [OF assms(1) known, of i req1 now1, folded st1_def]
  have "state_ok st1" unfolding st1_def using assms(1) by (rule ok_inv.apply_command_inv) (simp add: list_all_iff)
  moreover have "Store_Get (JoinTokens st1) (EncodeToString ?h) \<noteq> None" using b1(1) by (auto simp: join_consumed_def split: option.splits)
  ultimately have b2: "Store_Get (Nodes st2) k = (if k = jr_Name req2 then Some (the (Store_Get (Nodes st2) k)) else Store_Get (Nodes st1) k)"
    "nd_status (the (Store_Get (Nodes st2) (jr_Name req2))) = NS_READY" for k
    using daemon_join_batch_applied(2) [of st1 ?h i req2 now2, folded st2_def] by simp_all
  have "rh_Apply r (daemon_join_batch req1 (jg_hash g1) now1) st = (None, st1)"
    "rh_Apply r (daemon_join_batch req2 (jg_hash g2) now2) st1 = (None, st2)"
    by (simp_all add: assms(2) leader_apply_eq h st1_def st2_def)
  moreover have "\<forall>req \<in> {req1, req2}. \<exists>node. Store_Get (Nodes st2) (jr_Name req) = Some node \<and> nd_status node = NS_READY"
    using b1(2) [of "jr_Name req1"] b2 assms(6) by (metis insertE singletonD Node.select_convs(5))
  ultimately show ?thesis using assms(7,8) by (simp add: join_commit_def)
qed


section \<open>What a drain waits for\<close>

lemma drain_cmd_applied:
  "ReplicasObserved (apply_command i (drain_cmd h now m) s) = ReplicasObserved s"
  "ReplicasDesired (apply_command i (drain_cmd h now m) s) = put rd_id \<lparr>rd_id = mg_ReplicaID m, rd_deployment = mg_Deployment m,
     rd_service = mg_Service m, rd_index = 0, rd_host = mg_ToHost m, rd_image = mg_Image m, rd_raft_index = i, rd_spec_hash = []\<rparr> i
     (ReplicasDesired s)"
  by (simp_all add: drain_cmd_def apply_command.simps [of i "mk_cmd _ _ _"] h_ReplicaDesiredUpsert_def)

definition stripped :: "State \<Rightarrow> string \<Rightarrow> bool" where
  "stripped s k \<longleftrightarrow> (\<exists>rd. Store_Get (ReplicasDesired s) k = Some rd \<and> rd_index rd = 0 \<and> rd_spec_hash rd = [])"

lemma drain_upserts_applied:
  "\<exists>st'. drain_upserts (leader_apply i) h now ms st = (None, st') \<and> ReplicasObserved st' = ReplicasObserved st
    \<and> (\<forall>k. k \<in> mg_ReplicaID ` set ms \<or> stripped st k \<longrightarrow> stripped st' k)"
proof (induction ms arbitrary: st)
  case (Cons m ms)
  let ?s = "apply_command i (drain_cmd h now m) st"
  obtain st' where st': "drain_upserts (leader_apply i) h now ms ?s = (None, st')" "ReplicasObserved st' = ReplicasObserved ?s"
    "\<forall>k. k \<in> mg_ReplicaID ` set ms \<or> stripped ?s k \<longrightarrow> stripped st' k" using Cons.IH by blast
  have "stripped ?s k" if "k = mg_ReplicaID m \<or> stripped st k" for k
    using that by (auto simp: stripped_def drain_cmd_applied)
  moreover have "drain_upserts (leader_apply i) h now (m # ms) st = (None, st')"
    using st'(1) leader_apply_eq [of i "drain_cmd h now m" st] by simp
  ultimately show ?case using st'(2,3) by (intro exI [of _ st'] conjI) (auto simp: drain_cmd_applied)
qed simp

text \<open>
  The wait of a drain is for the replica ids only: observations written by the host that is being drained,
  while its containers still run, end the wait in its first round, before any replica runs on
  its new host. The upserts also set the index and the spec hash of every migrated replica to zero values.
\<close>

theorem drain_accepts_stale_observations:
  assumes "Plan order st hostname = Inr ms" "ms \<noteq> []" "drainComplete st ms"
    and "de_clock env 0 < now + drainDeadline" "de_view env 0 = id"
  shows "\<exists>st'. drainHost order env (leader_apply i) now hostname st = Some (None, st')
    \<and> ReplicasObserved st' = ReplicasObserved st
    \<and> (\<forall>m \<in> set ms. \<exists>rd. Store_Get (ReplicasDesired st') (mg_ReplicaID m) = Some rd \<and> rd_index rd = 0 \<and> rd_spec_hash rd = [])"
proof -
  obtain st' where st': "drain_upserts (leader_apply i) hostname now ms st = (None, st')" "ReplicasObserved st' = ReplicasObserved st"
    "\<forall>k. k \<in> mg_ReplicaID ` set ms \<or> stripped st k \<longrightarrow> stripped st' k" using drain_upserts_applied by blast
  have "drain_wait (de_clock env) (\<lambda>n. de_view env n st') (de_cancel env) (now + drainDeadline) ms 0 = Some (None, 0)"
    using assms(3-5) st'(2) by (subst drain_wait.simps) (simp add: drainComplete_def)
  then have "drainHost order env (leader_apply i) now hostname st = Some (None, st')"
    using assms(1,2,5) st'(1) by (simp add: drainHost_def)
  with st'(2,3) show ?thesis by (auto simp: stripped_def)
qed

section \<open>The purge\<close>

definition purged_by :: "Subnet list \<Rightarrow> Subnet \<Rightarrow> bool" where
  "purged_by sns sn \<longleftrightarrow> (\<exists>h \<in> set sns. sn_host h = '''' \<and> (sn_deployment h = '''' \<or> sn_deployment sn = sn_deployment h)
     \<and> (sn_network h = '''' \<or> sn_network sn = sn_network h))"

lemma SubnetFree_applied:
  assumes "store_ok subnet_key (Subnets s)"
  shows "store_ok subnet_key (Subnets (apply_command i (mk_cmd u t (SubnetFree d n '''')) s))"
    and "Store_Get (Subnets (apply_command i (mk_cmd u t (SubnetFree d n '''')) s)) k = Some sn \<longleftrightarrow> Store_Get (Subnets s) k = Some sn
      \<and> \<not> ((d = '''' \<or> sn_deployment sn = d) \<and> (n = '''' \<or> sn_network sn = n))"
  using assms
  by (auto simp: apply_command.simps [of i "mk_cmd _ _ _"] h_SubnetFree_def drop_where_def split: option.splits if_splits)

lemma purge_each_spec:
  assumes "store_ok subnet_key (Subnets s)"
  shows "\<exists>s'. purge_each (leader_apply i) clock sns p s = ((p + length (filter (\<lambda>sn. sn_host sn = '''') sns), None), s')
    \<and> (\<forall>k sn. Store_Get (Subnets s') k = Some sn \<longleftrightarrow> Store_Get (Subnets s) k = Some sn \<and> \<not> purged_by sns sn)"
  using assms
proof (induction sns arbitrary: p s)
  case Nil
  then show ?case by (simp add: purged_by_def)
next
  case (Cons h sns)
  show ?case
  proof (cases "sn_host h = ''''")
    case True
    let ?s = "apply_command i (mk_cmd ''migration'' (clock p) (SubnetFree (sn_deployment h) (sn_network h) '''')) s"
    note free = SubnetFree_applied [OF Cons.prems, of i "''migration''" "clock p" "sn_deployment h" "sn_network h"]
    from Cons.IH [OF free(1), of "Suc p"] obtain s' where s':
      "purge_each (leader_apply i) clock sns (Suc p) ?s = ((Suc p + length (filter (\<lambda>sn. sn_host sn = '''') sns), None), s')"
      "\<forall>k sn. Store_Get (Subnets s') k = Some sn \<longleftrightarrow> Store_Get (Subnets ?s) k = Some sn \<and> \<not> purged_by sns sn" by blast
    have "purged_by (h # sns) sn \<longleftrightarrow> purged_by sns sn \<or>
      (sn_deployment h = '''' \<or> sn_deployment sn = sn_deployment h) \<and> (sn_network h = '''' \<or> sn_network sn = sn_network h)" for sn
      using True by (auto simp: purged_by_def)
    then have "Store_Get (Subnets s') k = Some sn \<longleftrightarrow> Store_Get (Subnets s) k = Some sn \<and> \<not> purged_by (h # sns) sn" for k sn
      using s'(2) free(2) by blast
    moreover have "purge_each (leader_apply i) clock (h # sns) p s = purge_each (leader_apply i) clock sns (Suc p) ?s"
      using True leader_apply_eq [of i "mk_cmd ''migration'' (clock p) (SubnetFree (sn_deployment h) (sn_network h) '''')" s] by simp
    ultimately show ?thesis using s'(1) True by (intro exI [of _ s'] conjI) simp_all
  next
    case False
    then have "purged_by (h # sns) sn = purged_by sns sn" for sn by (simp add: purged_by_def)
    with Cons.IH [OF Cons.prems, of p] False show ?thesis by simp
  qed
qed

text \<open>
  On the leader the purge always succeeds and counts the entries without host, but each removal it
  submits has an empty host, which the state machine reads as any host: what survives is exactly
  what shares deployment and network with no host-less entry, so allocations of hosts are freed as well.
\<close>

theorem purge_frees_host_allocations:
  assumes "state_ok st"
  shows "\<exists>st'. purgeHostlessSubnets (leader_apply i) clock st =
      ((length (filter (\<lambda>sn. sn_host sn = '''') (Store_List (Subnets st))), None), st')
    \<and> (\<forall>k sn. Store_Get (Subnets st') k = Some sn \<longleftrightarrow> Store_Get (Subnets st) k = Some sn
        \<and> \<not> (\<exists>h \<in> set (Store_List (Subnets st)). sn_host h = '''' \<and> (sn_deployment h = '''' \<or> sn_deployment sn = sn_deployment h)
            \<and> (sn_network h = '''' \<or> sn_network sn = sn_network h)))"
  using purge_each_spec [of st i clock "Store_List (Subnets st)" 0] assms
  by (simp add: purgeHostlessSubnets_def purged_by_def state_ok_def)


section \<open>Examples\<close>

text \<open>A raft node that accepts every change, and a cluster of three voters led by \<open>n1\<close>.\<close>

fun ex_change :: "conf_change \<Rightarrow> Server list \<Rightarrow> string + Server list" where
  "ex_change (Change_AddNonvoter i a) ss = Inr (ss @ [\<lparr>sv_ID = i, sv_Address = a, sv_Suffrage = Nonvoter\<rparr>])"
| "ex_change (Change_Demote i) ss = Inr (set_suffrage i Nonvoter ss)"
| "ex_change (Change_Remove i) ss = Inr (filter (\<lambda>s. sv_ID s \<noteq> i) ss)"

definition ex_raft :: raft_handle where
  "ex_raft = \<lparr>rh_IsLeader = True, rh_Apply = leader_apply 7, rh_Leader = ''n1:7000'', rh_LeaderID = ''n1'', rh_LocalAddr = ''n1:7000'',
     rh_readable = True, rh_change = ex_change\<rparr>"

definition ex_cfg :: "Server list" where
  "ex_cfg = map (\<lambda>i. \<lparr>sv_ID = i, sv_Address = i @ '':7000'', sv_Suffrage = Voter\<rparr>) [''n1'', ''n2'', ''n3'']"

text \<open>Half a minute between the rounds of a wait, and nothing else happening.\<close>

definition ex_env :: drain_env where
  "ex_env = \<lparr>de_clock = (\<lambda>n. int n * 30000000000), de_view = (\<lambda>_. id), de_cancel = (\<lambda>_. None)\<rparr>"

definition ex_caller :: request_ctx where
  "ex_caller = \<lparr>cx_peer_network = Some ''unix'', cx_authorization = None, cx_identity = Some ''local''\<rparr>"

lemma ex_env_advances: "0 \<le> de_clock ex_env 0" "\<forall>n. de_clock ex_env n + drainInterval \<le> de_clock ex_env (Suc n)"
  by (simp_all add: ex_env_def drainInterval_def)

lemma ex_raft_effect: "conf_effect (rh_change ex_raft)" "rh_Apply ex_raft = Node_Apply (\<lambda>_ _. Committed 7)" "rh_readable ex_raft"
  by (simp_all add: conf_effect_def ex_raft_def leader_apply_def)

theorem NodeRemove_terminates_witness:
  "(\<exists>out. rpc_NodeRemove [(''web'', ''app'')] ex_env (Some ex_raft) 0 ex_caller ''n1'' False (ex_cfg, ex_drain) = Some out)
   \<and> (\<exists>res k. drain_wait (de_clock ex_env) (\<lambda>_. ex_drain) (de_cancel ex_env) drainDeadline
        [\<lparr>mg_ReplicaID = ''web-app-0'', mg_Deployment = ''web'', mg_Service = ''app'', mg_FromHost = ''n1'', mg_ToHost = ''n2'', mg_Image = ''nginx''\<rparr>] 0
        = Some (res, k) \<and> k \<le> 120 \<and> res \<noteq> None)"
proof -
  have "\<not> drainComplete ex_drain [\<lparr>mg_ReplicaID = ''web-app-0'', mg_Deployment = ''web'', mg_Service = ''app'', mg_FromHost = ''n1'',
      mg_ToHost = ''n2'', mg_Image = ''nginx''\<rparr>]" by (simp add: drainComplete_def ex_drain_def State_New_def)
  with NodeRemove_terminates [OF ex_env_advances, of "[(''web'', ''app'')]" "Some ex_raft" ex_caller "''n1''" False "(ex_cfg, ex_drain)" "\<lambda>_. ex_drain"
    "[\<lparr>mg_ReplicaID = ''web-app-0'', mg_Deployment = ''web'', mg_Service = ''app'', mg_FromHost = ''n1'', mg_ToHost = ''n2'', mg_Image = ''nginx''\<rparr>]"]
  show ?thesis by (auto simp del: not_None_eq split_paired_Ex)
qed

theorem NodeRemove_keeps_voters_safe_witness:
  "\<exists>cfg' st'. rpc_NodeRemove [] ex_env (Some ex_raft) 0 ex_caller ''n3'' True (ex_cfg, State_New) = Some (None, cfg', st')
     \<and> map sv_ID cfg' = [''n1'', ''n2''] \<and> int (length (voters_of cfg')) = 1 \<and> ''n1'' \<in> set (voters_of cfg')"
proof -
  have "demote_excess ex_change ''n1'' 1 [''n1'', ''n2''] ex_cfg = (None, set_suffrage ''n2'' Nonvoter ex_cfg)" by code_simp
  then have "prepareForRemoval ex_raft ''n3'' ex_cfg = (None, set_suffrage ''n2'' Nonvoter ex_cfg)"
    by (simp add: prepareForRemoval_def ex_raft_def ex_cfg_def Target_def MaxVoters_def Let_def)
  then obtain cfg' st' where r: "rpc_NodeRemove [] ex_env (Some ex_raft) 0 ex_caller ''n3'' True (ex_cfg, State_New) = Some (None, cfg', st')"
    by (simp add: rpc_NodeRemove_def NodeRemove_membership_def ex_raft_def leader_apply_eq)
  have d: "distinct (map sv_ID ex_cfg)" "'''' \<notin> sv_ID ` set ex_cfg" by (simp_all add: ex_cfg_def)
  have v: "\<forall>n s. state_ok s \<longrightarrow> state_ok (de_view ex_env n s)" by (simp add: ex_env_def)
  have l: "staying_voters ''n3'' ex_cfg = [''n1'', ''n2'']" "filter (\<lambda>i. i \<noteq> ''n3'') (map sv_ID ex_cfg) = [''n1'', ''n2'']" "rh_LeaderID ex_raft = ''n1''"
    by (simp_all add: staying_voters_def voters_of_def ex_cfg_def ex_raft_def)
  note s = NodeRemove_keeps_voters_safe [OF ex_raft_effect d state_ok_New v r, unfolded l]
  then have "length cfg' = 2" by (metis length_map list.size(3,4) One_nat_def Suc_1 add.right_neutral add_Suc_right)
  with s r show ?thesis by (intro exI [of _ cfg'] exI [of _ st']) (simp add: Target_def MaxVoters_def)
qed


text \<open>A cluster with one join token, and two nodes that hold it.\<close>

definition ex_join :: State where
  "ex_join = State_New\<lparr>JoinTokens := put jointoken_key \<lparr>jt_hashed_secret = ''tok'', jt_issued_at = Some 0, jt_expires_at = Some 100,
       jt_consumed_at = None\<rparr> 1 (JoinTokens State_New),
     ClusterMetaCell := Cluster_Set \<lparr>cm_cluster_id = ''c'', cm_ca_cert = ''crt'', cm_ca_key = ''key'', cm_created_at = None\<rparr> 1
       (ClusterMetaCell State_New)\<rparr>"

definition ex_joiner :: "string \<Rightarrow> NodeJoinRequest" where
  "ex_joiner n = \<lparr>jr_Name = n, jr_JoinToken = ''tok'', jr_CsrPem = ''csr'', jr_AdvertiseAddr = n @ '':7000'', jr_WireguardPubkey = [],
     jr_GrpcAddress = n @ '':7001''\<rparr>"

definition ex_sign :: "bytes \<Rightarrow> bytes \<Rightarrow> bytes \<Rightarrow> string + bytes" where
  "ex_sign csr crt key = Inr (csr @ crt)"

lemma ex_join_ok: "state_ok ex_join"
  using state_ok_New by (simp add: ex_join_def state_ok_def)

definition ex_grant :: join_grant where
  "ex_grant = \<lparr>jg_hash = ''tok'', jg_meta = \<lparr>cm_cluster_id = ''c'', cm_ca_cert = ''crt'', cm_ca_key = ''key'', cm_created_at = None\<rparr>,
     jg_cert = ''csrcrt''\<rparr>"

lemma ex_join_checks:
  "n \<noteq> '''' \<Longrightarrow> now \<le> 100 \<Longrightarrow> join_checks id ex_sign (Some ex_raft) now (ex_joiner n) ex_join = Inr ex_grant"
  by (simp add: join_checks_def ex_raft_def ex_joiner_def ex_join_def ex_sign_def ex_grant_def jointoken_key_def Cluster_Get_def Let_def)

lemma ex_raft_sel: "rh_Apply ex_raft = leader_apply 7" "rh_change ex_raft = ex_change"
  by (simp_all add: ex_raft_def)

theorem join_token_admits_once_witness:
  "\<exists>resp cfg' st'. daemon_NodeJoin id ex_sign (Some ex_raft) 50 (ex_joiner ''n4'') None (ex_cfg, ex_join) = (Inr resp, None, cfg', st')
     \<and> (\<exists>err. daemon_NodeJoin id ex_sign (Some ex_raft) 60 (ex_joiner ''n5'') None (cfg', st') = (Inl err, None, cfg', st'))"
proof -
  obtain resp cfg' st' where r: "daemon_NodeJoin id ex_sign (Some ex_raft) 50 (ex_joiner ''n4'') None (ex_cfg, ex_join) = (Inr resp, None, cfg', st')"
    by (simp add: daemon_NodeJoin_def join_handler_def ex_join_checks join_commit_def ex_raft_sel leader_apply_eq)
  have t: "jr_JoinToken (ex_joiner ''n5'') = jr_JoinToken (ex_joiner ''n4'')" by (simp add: ex_joiner_def)
  have n: "leaves_sat (no_join_reissue (id (jr_JoinToken (ex_joiner ''n4'')))) []" by (simp add: leaves_sat_def)
  have l: "run_log [] st' = st'" by (simp add: run_log_def)
  have "\<exists>err. daemon_NodeJoin id ex_sign (Some ex_raft) 60 (ex_joiner ''n5'') None (cfg', st') = (Inl err, None, cfg', st')"
    using join_token_admits_once [OF ex_join_ok ex_raft_effect(2) r n t, of ex_sign "Some ex_raft" 60 None cfg'] unfolding l by (elim conjE)
  with r show ?thesis by blast
qed

theorem join_token_race_witness:
  "\<exists>resp1 st1 resp2 st2 cfg1 cfg2. join_commit daemon_join_batch ex_raft 50 (ex_joiner ''n4'') ex_grant (ex_cfg, ex_join) = (Inr resp1, cfg1, st1)
     \<and> join_commit daemon_join_batch ex_raft 51 (ex_joiner ''n5'') ex_grant (cfg1, st1) = (Inr resp2, cfg2, st2)
     \<and> (\<forall>n \<in> {''n4'', ''n5''}. Store_Get (Nodes st2) n \<noteq> None)"
proof -
  have n: "jr_JoinToken (ex_joiner ''n4'') = jr_JoinToken (ex_joiner ''n5'')" "jr_Name (ex_joiner ''n4'') \<noteq> jr_Name (ex_joiner ''n5'')"
    by (simp_all add: ex_joiner_def)
  obtain cfg1 where c1: "rh_change ex_raft (Change_AddNonvoter (jr_Name (ex_joiner ''n4'')) (jr_AdvertiseAddr (ex_joiner ''n4''))) ex_cfg = Inr cfg1"
    by (simp add: ex_raft_sel)
  obtain cfg2 where c2: "rh_change ex_raft (Change_AddNonvoter (jr_Name (ex_joiner ''n5'')) (jr_AdvertiseAddr (ex_joiner ''n5''))) cfg1 = Inr cfg2"
    by (simp add: ex_raft_sel)
  have "join_checks id ex_sign (Some ex_raft) 50 (ex_joiner ''n4'') ex_join = Inr ex_grant"
    "join_checks id ex_sign (Some ex_raft) 51 (ex_joiner ''n5'') ex_join = Inr ex_grant" by (simp_all add: ex_join_checks)
  from join_token_race [OF ex_join_ok ex_raft_sel(1) this n c1 c2] show ?thesis by (auto simp: ex_joiner_def)
qed

text \<open>The replica of \<open>n2\<close> still runs there when \<open>n2\<close> is drained.\<close>

definition ex_started :: State where
  "ex_started = ex_drain\<lparr>ReplicasObserved := put ro_id \<lparr>ro_id = ''web-app-1'', ro_state = RS_RUNNING, ro_code = '''', ro_message = '''',
     ro_details = Map.empty, ro_container_id = ''c1'', ro_host = ''n2'', ro_started_at = None, ro_last_health_at = None\<rparr> 4 (ReplicasObserved State_New)\<rparr>"

theorem drain_accepts_stale_observations_witness:
  "\<exists>st' rd obs. drainHost [(''web'', ''app'')] ex_env (leader_apply 7) 0 ''n2'' ex_started = Some (None, st')
     \<and> Store_Get (ReplicasDesired st') ''web-app-1'' = Some rd \<and> rd_index rd = 0
     \<and> Store_Get (ReplicasObserved st') ''web-app-1'' = Some obs \<and> ro_host obs = ''n2''"
proof -
  have "(case Plan [(''web'', ''app'')] ex_started ''n2'' of Inl _ \<Rightarrow> None | Inr ms \<Rightarrow> Some (map mg_ReplicaID ms)) = Some [''web-app-1'']"
    by code_simp
  then obtain ms where ms: "Plan [(''web'', ''app'')] ex_started ''n2'' = Inr ms" "map mg_ReplicaID ms = [''web-app-1'']"
    by (auto split: sum.splits)
  then obtain m where m: "ms = [m]" "mg_ReplicaID m = ''web-app-1''" by auto
  have obs: "\<exists>obs. Store_Get (ReplicasObserved ex_started) ''web-app-1'' = Some obs \<and> ro_host obs = ''n2'' \<and> ro_state obs = RS_RUNNING"
    by (simp add: ex_started_def)
  then have c: "drainComplete ex_started ms" using m by (auto simp: drainComplete_def)
  have e: "ms \<noteq> []" "de_clock ex_env 0 < 0 + drainDeadline" "de_view ex_env 0 = id"
    by (simp_all add: m(1) ex_env_def drainDeadline_def)
  from drain_accepts_stale_observations [OF ms(1) e(1) c e(2,3), of 7] obs m show ?thesis by auto
qed

text \<open>One allocation from before the hosts had their own subnets, and one of a host.\<close>

definition ex_alloc :: "string \<Rightarrow> string \<Rightarrow> Subnet" where
  "ex_alloc host cidr = \<lparr>sn_deployment = ''web'', sn_network = ''net'', sn_cidr = cidr, sn_allocated_at = None, sn_host = host\<rparr>"

definition ex_legacy :: State where
  "ex_legacy = State_New\<lparr>Subnets := put subnet_key (ex_alloc ''n1'' ''10.0.1.0/24'') 2
     (put subnet_key (ex_alloc '''' ''10.0.0.0/24'') 1 (Subnets State_New))\<rparr>"

theorem purge_frees_host_allocations_witness:
  "\<exists>st'. snd (purgeHostlessSubnets (leader_apply 7) (\<lambda>_. 0) ex_legacy) = st'
     \<and> Store_Get (Subnets ex_legacy) (SubnetKey ''web'' ''net'' ''n1'') \<noteq> None
     \<and> Store_Get (Subnets st') (SubnetKey ''web'' ''net'' ''n1'') = None"
proof -
  have ok: "state_ok ex_legacy" using state_ok_New by (simp add: ex_legacy_def state_ok_def)
  have l: "set (Store_List (Subnets ex_legacy)) = {ex_alloc ''n1'' ''10.0.1.0/24'', ex_alloc '''' ''10.0.0.0/24''}" by code_simp
  have g: "Store_Get (Subnets ex_legacy) (SubnetKey ''web'' ''net'' ''n1'') = Some (ex_alloc ''n1'' ''10.0.1.0/24'')"
    by (simp add: ex_legacy_def ex_alloc_def subnet_key_def)
  from purge_frees_host_allocations [OF ok, of 7 "\<lambda>_. 0"] obtain st' where
    "snd (purgeHostlessSubnets (leader_apply 7) (\<lambda>_. 0) ex_legacy) = st'"
    and s: "\<forall>sn. Store_Get (Subnets st') (SubnetKey ''web'' ''net'' ''n1'') = Some sn \<longrightarrow>
      Store_Get (Subnets ex_legacy) (SubnetKey ''web'' ''net'' ''n1'') = Some sn \<and> (sn_deployment sn = ''web'' \<longrightarrow> sn_network sn \<noteq> ''net'')"
    unfolding l by (auto simp: ex_alloc_def)
  moreover have "Store_Get (Subnets st') (SubnetKey ''web'' ''net'' ''n1'') = None"
  proof (rule ccontr)
    assume "Store_Get (Subnets st') (SubnetKey ''web'' ''net'' ''n1'') \<noteq> None"
    then show False using s g by (auto simp: ex_alloc_def)
  qed
  ultimately show ?thesis using g by simp
qed

end
