(* ===== verification/Firewall.thy ===== *)
theory Firewall
  imports State "HOL-Library.Product_Lexorder"
begin

text \<open>
  The isolation ruleset, \<^verbatim>\<open>internal/discovery/firewall\<close>: what \<open>Render\<close> (\<^verbatim>\<open>render.go\<close>) emits for the
  allocated subnets, the comparison of the host's ruleset with it (\<^verbatim>\<open>selftest.go\<close>) and the reconciler
  that repairs drift (\<^verbatim>\<open>reconcile.go\<close>).

  \<open>nft\<close> and \<open>iptables\<close> are external programs: listing and applying are fields of the environment of
  a tick. The JSON document is taken after decoding. \<open>sha1\<close> is a parameter. \<open>sort.Slice\<close> is not stable;
  \<open>Render\<close> below sorts stably and is shown to depend on the set of subnets only, so that any order
  of equal keys gives the same text. Names are ASCII (\<open>sanitize\<close> replaces a character, here a byte).
  Logging is left out.
\<close>

section \<open>The ruleset\<close>

definition MaxSetNameLen :: nat where
  "MaxSetNameLen = 63"

record FwSubnet =
  fs_Deployment :: string
  fs_Network :: string
  fs_CIDR :: string

record RuleInput =
  ri_Subnets :: "FwSubnet list"
  ri_WGPort :: int
  ri_GrpcPort :: int
  ri_IngressPorts :: "int list"

definition is_word :: "char \<Rightarrow> bool" where
  "is_word c \<longleftrightarrow> CHR ''a'' \<le> c \<and> c \<le> CHR ''z'' \<or> CHR ''A'' \<le> c \<and> c \<le> CHR ''Z'' \<or> CHR ''0'' \<le> c \<and> c \<le> CHR ''9'' \<or> c = CHR ''_''"

definition sanitize :: "string \<Rightarrow> string" where
  "sanitize s = map (\<lambda>c. if is_word c then c else CHR ''_'') s"

definition SetName :: "(bytes \<Rightarrow> bytes) \<Rightarrow> string \<Rightarrow> string \<Rightarrow> string" where
  "SetName sha1 deployment network =
     (let network = (if network = '''' then ''_default'' else network);
          full = ''dep_net_'' @ sanitize deployment @ ''_'' @ sanitize network
      in if length full \<le> MaxSetNameLen then full
         else
           let sum = sha1 (deployment @ ''/'' @ network);
               prefix = take (length ''dep_net_'' + 8) full
           in prefix @ ''_'' @ take 8 (EncodeToString sum))"

definition set_of :: "(bytes \<Rightarrow> bytes) \<Rightarrow> FwSubnet \<Rightarrow> string" where
  "set_of sha1 s = SetName sha1 (fs_Deployment s) (fs_Network s)"

text \<open>The sets in the order of their first subnet, and the blocks of each.\<close>

fun group_sets :: "(bytes \<Rightarrow> bytes) \<Rightarrow> FwSubnet list \<Rightarrow> string list \<Rightarrow> (string \<rightharpoonup> string list) \<Rightarrow> string list \<times> (string \<rightharpoonup> string list)" where
  "group_sets sha1 [] setOrder cidrsBySet = (setOrder, cidrsBySet)"
| "group_sets sha1 (s # ss) setOrder cidrsBySet =
     (let name = set_of sha1 s
      in case cidrsBySet name of
           None \<Rightarrow> group_sets sha1 ss (setOrder @ [name]) (cidrsBySet(name \<mapsto> [fs_CIDR s]))
         | Some cs \<Rightarrow> group_sets sha1 ss setOrder (cidrsBySet(name \<mapsto> cs @ [fs_CIDR s])))"

definition fw_sets :: "(bytes \<Rightarrow> bytes) \<Rightarrow> FwSubnet list \<Rightarrow> (string \<times> string list) list" where
  "fw_sets sha1 subnets =
     (let (setOrder, cidrsBySet) =
        group_sets sha1 (sort_key (\<lambda>s. (fs_Deployment s, fs_Network s)) subnets) [] Map.empty
      in map (\<lambda>name. (name, sort (the (cidrsBySet name)))) setOrder)"

definition all_cidrs :: "(string \<times> string list) list \<Rightarrow> string list" where
  "all_cidrs sets = sort (concat (map snd sets))"

fun Join :: "string \<Rightarrow> string list \<Rightarrow> string" where
  "Join sep [] = ''''"
| "Join sep [x] = x"
| "Join sep (x # y # xs) = x @ sep @ Join sep (y # xs)"

definition newline :: string where
  "newline = [CHR 0x0A]"

definition set_lines :: "string \<Rightarrow> string list \<Rightarrow> string list" where
  "set_lines name cidrs =
     [''    set '' @ name @ '' {'', ''        type ipv4_addr'', ''        flags interval'',
      ''        elements = { '' @ Join '', '' cidrs @ '' }'', ''    }'', '''']"

definition forward_lines :: "(string \<times> string list) list \<Rightarrow> string list" where
  "forward_lines sets =
     [''    chain forward {'', ''        type filter hook forward priority 0; policy accept;'',
      ''        ct state established,related accept'']
     @ map (\<lambda>(name, _). ''        ip saddr @'' @ name @ '' ip daddr @'' @ name @ '' accept'') sets
     @ (if length (all_cidrs sets) > 0 then [''        ip saddr @jaco_pool ip daddr @jaco_pool drop''] else [])
     @ [''    }'', '''']"

definition Render :: "(bytes \<Rightarrow> bytes) \<Rightarrow> RuleInput \<Rightarrow> string" where
  "Render sha1 i =
     (let sets = fw_sets sha1 (ri_Subnets i); allCIDRs = all_cidrs sets
      in concat (map (\<lambda>l. l @ newline)
        ([''add table inet jaco'', ''delete table inet jaco'', ''table inet jaco {'']
         @ concat (map (\<lambda>(name, cidrs). set_lines name cidrs) sets)
         @ (if length allCIDRs > 0 then set_lines ''jaco_pool'' allCIDRs else [])
         @ forward_lines sets
         @ [''    chain input {'', ''        type filter hook input priority 0; policy accept;'', ''    }'', '''',
            ''    chain output {'', ''        type filter hook output priority 0; policy accept;'', ''    }'', ''}''])))"

text \<open>The input the daemon renders: the subnets of the replicated state and fixed ports.\<close>

definition fw_input :: "int \<Rightarrow> State \<Rightarrow> RuleInput" where
  "fw_input wgPort st =
     \<lparr>ri_Subnets = map (\<lambda>sn. \<lparr>fs_Deployment = sn_deployment sn, fs_Network = sn_network sn, fs_CIDR = sn_cidr sn\<rparr>) (Store_List (Subnets st)),
      ri_WGPort = wgPort, ri_GrpcPort = 7000, ri_IngressPorts = [80, 443]\<rparr>"

section \<open>The self-test\<close>

record nftChain =
  nc_Name :: string
  nc_Hook :: string
  nc_Priority :: int
  nc_Policy :: string

record nftEntry =
  ne_Chain :: "nftChain option"
  ne_Set :: "string option"

datatype selftest_error = ParseNft string | Diverges "string list" "string list"

definition got_chain :: "nftEntry list \<Rightarrow> string \<Rightarrow> nftChain option" where
  "got_chain doc name = map_of (rev (map (\<lambda>c. (nc_Name c, c)) (List.map_filter ne_Chain doc))) name"

definition got_sets :: "nftEntry list \<Rightarrow> string list" where
  "got_sets doc = remdups (List.map_filter ne_Set doc)"

definition want_chains :: "string list" where
  "want_chains = [''forward'', ''input'', ''output'']"

text \<open>The wanted chain of a name has that name as its hook, policy accept and priority 0.\<close>

definition chain_problems :: "nftEntry list \<Rightarrow> string \<Rightarrow> string list" where
  "chain_problems doc name =
     (case got_chain doc name of
        None \<Rightarrow> [''chain:'' @ name]
      | Some got \<Rightarrow>
          (if nc_Hook got \<noteq> name then [''chain:'' @ name @ ''.hook='' @ nc_Hook got @ '' (want '' @ name @ '')''] else [])
          @ (if nc_Policy got \<noteq> '''' \<and> nc_Policy got \<noteq> ''accept''
             then [''chain:'' @ name @ ''.policy='' @ nc_Policy got @ '' (want accept)''] else [])
          @ (if nc_Priority got \<noteq> 0 then [''chain:'' @ name @ ''.priority='' @ Itoa (nc_Priority got) @ '' (want 0)''] else []))"

definition want_sets :: "(bytes \<Rightarrow> bytes) \<Rightarrow> RuleInput \<Rightarrow> string list" where
  "want_sets sha1 expected =
     remdups (map (set_of sha1) (ri_Subnets expected) @ (if length (ri_Subnets expected) > 0 then [''jaco_pool''] else []))"

definition SelfTestFromJSON :: "(bytes \<Rightarrow> bytes) \<Rightarrow> string + nftEntry list \<Rightarrow> RuleInput \<Rightarrow> selftest_error option" where
  "SelfTestFromJSON sha1 json expected =
     (case json of
        Inl err \<Rightarrow> Some (ParseNft err)
      | Inr doc \<Rightarrow>
          let missing = sort (concat (map (chain_problems doc) want_chains)
                @ map (\<lambda>n. ''set:'' @ n) (filter (\<lambda>n. n \<notin> set (got_sets doc)) (want_sets sha1 expected)));
              extra = sort (map (\<lambda>n. ''set:'' @ n) (filter (\<lambda>n. n \<notin> set (want_sets sha1 expected)) (got_sets doc)))
          in if length missing > 0 \<or> length extra > 0 then Some (Diverges missing extra) else None)"

definition summarizeDrift :: "selftest_error option \<Rightarrow> string" where
  "summarizeDrift err =
     (case err of
        None \<Rightarrow> ''''
      | Some (ParseNft e) \<Rightarrow> ''parse nft json: '' @ e
      | Some (Diverges missing extra) \<Rightarrow>
          Join '','' (sort (map (\<lambda>m. ''missing:'' @ m) missing @ map (\<lambda>e. ''extra:'' @ e) extra)))"

section \<open>The reconciler\<close>

datatype fw_action =
    DoSNAT string | DoOverlay string | DoAudit string strmap | DoStatus string string | DoApply string

datatype fw_error = NftListFailed string | ApplyRulesetFailed string | StatusFailed string | AuditFailed string

text \<open>
  What a tick calls: the optional exemptions, the list of the live table, and the answers to
  applying, auditing and reporting; an answer is an error or nothing. The two calls of the
  render function may see different states.
\<close>

record fw_env =
  fe_Pool :: string
  fe_SNAT :: "(string \<Rightarrow> string option) option"
  fe_Overlay :: "(string \<Rightarrow> string option) option"
  fe_Lister :: "string + (string + nftEntry list)"
  fe_Applier :: "string \<Rightarrow> string option"
  fe_Audit :: "string \<Rightarrow> strmap \<Rightarrow> string option"
  fe_Status :: "string \<Rightarrow> string \<Rightarrow> string option"
  fe_expected :: RuleInput
  fe_rendered :: RuleInput

definition exempt :: "(string \<Rightarrow> fw_action) \<Rightarrow> string \<Rightarrow> (string \<Rightarrow> string option) option \<Rightarrow> string \<Rightarrow> fw_action list" where
  "exempt act code f pool =
     (case f of
        None \<Rightarrow> []
      | Some ensure \<Rightarrow>
          if pool = '''' then []
          else act pool # (case ensure pool of None \<Rightarrow> [] | Some err \<Rightarrow> [DoAudit code [''error'' \<mapsto> err]]))"

definition Fw_Tick :: "(bytes \<Rightarrow> bytes) \<Rightarrow> fw_env \<Rightarrow> bool \<Rightarrow> fw_action list \<times> fw_error option \<times> bool" where
  "Fw_Tick sha1 env degraded =
     (let pre = exempt DoSNAT ''SNAT_EXEMPT_FAILED'' (fe_SNAT env) (fe_Pool env)
            @ exempt DoOverlay ''OVERLAY_EXEMPT_FAILED'' (fe_Overlay env) (fe_Pool env)
      in case fe_Lister env of
           Inl err \<Rightarrow> (pre, Some (NftListFailed err), degraded)
         | Inr listBytes \<Rightarrow>
             (case SelfTestFromJSON sha1 listBytes (fe_expected env) of
                None \<Rightarrow>
                  if \<not> degraded then (pre, None, False)
                  else
                    let ready = DoStatus ''ready'' ''isolation_reload_recovered'';
                        audit = DoAudit ''ISOLATION_RULESET_RECONCILED'' [''action'' \<mapsto> ''recovered'']
                    in (case fe_Status env ''ready'' ''isolation_reload_recovered'' of
                          Some err \<Rightarrow> (pre @ [ready], Some (StatusFailed err), False)
                        | None \<Rightarrow>
                            (case fe_Audit env ''ISOLATION_RULESET_RECONCILED'' [''action'' \<mapsto> ''recovered''] of
                               Some err \<Rightarrow> (pre @ [ready, audit], Some (AuditFailed err), False)
                             | None \<Rightarrow> (pre @ [ready, audit], None, False)))
              | Some selfErr \<Rightarrow>
                  let ruleset = Render sha1 (fe_rendered env); summary = summarizeDrift (Some selfErr)
                  in (case fe_Applier env ruleset of
                        Some applyErr \<Rightarrow>
                          (pre @ [DoApply ruleset, DoStatus ''isolation_unavailable'' applyErr], Some (ApplyRulesetFailed applyErr), True)
                      | None \<Rightarrow>
                          let details = [''action'' \<mapsto> ''applied'', ''summary'' \<mapsto> summary];
                              acts = pre @ [DoApply ruleset, DoAudit ''ISOLATION_RULESET_RECONCILED'' details]
                          in (case fe_Audit env ''ISOLATION_RULESET_RECONCILED'' details of
                                Some err \<Rightarrow> (acts, Some (AuditFailed err), degraded)
                              | None \<Rightarrow>
                                  if degraded then (acts @ [DoStatus ''ready'' ''isolation_reload_recovered''], None, False)
                                  else (acts, None, False)))))"

text \<open>The loop: a tick whenever the gate is open.\<close>

fun Fw_Loop :: "(bytes \<Rightarrow> bytes) \<Rightarrow> (bool \<times> fw_env) list \<Rightarrow> bool \<Rightarrow> fw_action list \<times> bool" where
  "Fw_Loop sha1 [] degraded = ([], degraded)"
| "Fw_Loop sha1 ((ready, env) # ts) degraded =
     (if \<not> ready then Fw_Loop sha1 ts degraded
      else let (acts, _, degraded') = Fw_Tick sha1 env degraded; (acts', d) = Fw_Loop sha1 ts degraded'
           in (acts @ acts', d))"


section \<open>Grouping\<close>

lemma group_sets_blocks:
  "snd (group_sets sha1 ss ns m) n =
     (if \<exists>s \<in> set ss. set_of sha1 s = n
      then Some ((case m n of None \<Rightarrow> [] | Some cs \<Rightarrow> cs) @ map fs_CIDR (filter (\<lambda>s. set_of sha1 s = n) ss))
      else m n)"
  by (induction ss arbitrary: ns m) (auto simp: Let_def filter_empty_conv split: option.split)

lemma group_sets_order:
  assumes "dom m = set ns" "distinct ns"
  shows "set (fst (group_sets sha1 ss ns m)) = set ns \<union> set_of sha1 ` set ss \<and> distinct (fst (group_sets sha1 ss ns m))"
  using assms
proof (induction ss arbitrary: ns m)
  case (Cons s ss)
  let ?n = "set_of sha1 s"
  show ?case
  proof (cases "m ?n")
    case None
    then have "?n \<notin> set ns" using Cons.prems(1) by blast
    then show ?thesis
      using None Cons.IH [of "m(?n \<mapsto> [fs_CIDR s])" "ns @ [?n]"] Cons.prems by (simp add: Let_def del: fun_upd_apply)
  next
    case (Some cs)
    then have "?n \<in> set ns" using Cons.prems(1) by blast
    then show ?thesis
      using Some Cons.IH [of "m(?n \<mapsto> cs @ [fs_CIDR s])" ns] Cons.prems by (simp add: Let_def insert_absorb del: fun_upd_apply)
  qed
qed simp

lemma group_sets_order_names:
  assumes "map (set_of sha1) ss = map (set_of sha1) ss'" "dom m = dom m'"
  shows "fst (group_sets sha1 ss ns m) = fst (group_sets sha1 ss' ns m')"
  using assms
proof (induction ss arbitrary: ss' ns m m')
  case (Cons s ss)
  then obtain s' ss'' where ss': "ss' = s' # ss''" "set_of sha1 s' = set_of sha1 s" "map (set_of sha1) ss = map (set_of sha1) ss''"
    by (cases ss') auto
  have d: "m (set_of sha1 s) = None \<longleftrightarrow> m' (set_of sha1 s) = None" using Cons.prems(2) by (metis domIff)
  have u: "dom (m(set_of sha1 s \<mapsto> cs)) = dom (m'(set_of sha1 s \<mapsto> cs'))" for cs cs' using Cons.prems(2) by simp
  show ?case using d Cons.IH [OF ss'(3) u] by (auto simp: ss'(1,2) Let_def simp del: fun_upd_apply split: option.split)
qed simp

lemma fw_sets_names: "set (map fst (fw_sets sha1 subs)) = set_of sha1 ` set subs \<and> distinct (map fst (fw_sets sha1 subs))"
  using group_sets_order [of Map.empty "[]" sha1 "sort_key (\<lambda>s. (fs_Deployment s, fs_Network s)) subs"]
  by (simp add: fw_sets_def prod.case_eq_if comp_def image_image)

lemma fw_sets_blocks:
  "(n, cs) \<in> set (fw_sets sha1 subs) \<longleftrightarrow> n \<in> set_of sha1 ` set subs
     \<and> cs = sort (map fs_CIDR (filter (\<lambda>s. set_of sha1 s = n) (sort_key (\<lambda>s. (fs_Deployment s, fs_Network s)) subs)))"
  using group_sets_order [of Map.empty "[]" sha1 "sort_key (\<lambda>s. (fs_Deployment s, fs_Network s)) subs"]
  by (auto simp: fw_sets_def prod.case_eq_if group_sets_blocks image_iff)

lemma fw_sets_member:
  "(n, cs) \<in> set (fw_sets sha1 subs) \<Longrightarrow> c \<in> set cs \<longleftrightarrow> (\<exists>s \<in> set subs. set_of sha1 s = n \<and> fs_CIDR s = c)"
  by (auto simp: fw_sets_blocks)

lemma set_all_cidrs: "set (all_cidrs (fw_sets sha1 subs)) = fs_CIDR ` set subs"
proof -
  have "set (all_cidrs (fw_sets sha1 subs)) = {c. \<exists>n cs. (n, cs) \<in> set (fw_sets sha1 subs) \<and> c \<in> set cs}"
    by (force simp: all_cidrs_def)
  also have "\<dots> = fs_CIDR ` set subs" by (auto simp: fw_sets_blocks)
  finally show ?thesis .
qed

section \<open>Determinism\<close>

lemma sort_mset_eq: "mset xs = mset ys \<Longrightarrow> sort xs = sort ys"
  by (metis mset_sort properties_for_sort sorted_sort)

lemma map_sort_key: "map f (sort_key f xs) = sort (map f xs)"
  by (metis mset_map mset_sort properties_for_sort sorted_sort_key)

lemma fw_sets_mset:
  assumes "mset xs = mset ys"
  shows "fw_sets sha1 xs = fw_sets sha1 ys"
proof -
  let ?k = "\<lambda>s. (fs_Deployment s, fs_Network s)"
  let ?xs = "sort_key ?k xs" and ?ys = "sort_key ?k ys"
  have "map ?k ?xs = map ?k ?ys" using assms by (simp add: map_sort_key sort_mset_eq)
  then have "map (\<lambda>(d, n). SetName sha1 d n) (map ?k ?xs) = map (\<lambda>(d, n). SetName sha1 d n) (map ?k ?ys)" by simp
  then have names: "map (set_of sha1) ?xs = map (set_of sha1) ?ys" by (simp add: comp_def set_of_def [abs_def])
  have order: "fst (group_sets sha1 ?xs [] Map.empty) = fst (group_sets sha1 ?ys [] Map.empty)"
    by (rule group_sets_order_names [OF names]) simp
  have "mset ?xs = mset ?ys" using assms by simp
  then have "mset (filter P ?xs) = mset (filter P ?ys)" for P by simp
  then have blocks: "sort (map fs_CIDR (filter P ?xs)) = sort (map fs_CIDR (filter P ?ys))" for P
    by (intro sort_mset_eq) simp
  have "set xs = set ys" using assms by (metis set_mset_mset)
  then show ?thesis using blocks by (simp add: fw_sets_def prod.case_eq_if order group_sets_blocks)
qed


text \<open>
  C28. The rendered ruleset is a function of the set of allocated subnets: the order in which the store
  lists them, and the order an unstable sort leaves between equal scopes, do not change a byte.
\<close>

theorem Render_deterministic:
  assumes "mset (ri_Subnets i) = mset (ri_Subnets j)"
  shows "Render sha1 i = Render sha1 j"
  using fw_sets_mset [OF assms] by (simp add: Render_def)

section \<open>Isolation\<close>

lemma length_SetName: "length (SetName sha1 d n) \<le> MaxSetNameLen"
  by (auto simp: SetName_def MaxSetNameLen_def Let_def)


lemma sanitize_append: "sanitize (xs @ ys) = sanitize xs @ sanitize ys"
  by (simp add: sanitize_def)

lemma SetName_collision:
  assumes "n \<noteq> ''''" "length d + length x + length n \<le> 53"
  shows "SetName sha1 (d @ ''-'' @ x) n = SetName sha1 d (x @ ''-'' @ n)"
proof -
  have "sanitize (d @ ''-'' @ x) @ ''_'' @ sanitize n = sanitize d @ ''_'' @ sanitize (x @ ''-'' @ n)"
    unfolding sanitize_append by (simp add: sanitize_def is_word_def less_eq_char_def)
  moreover have "length (sanitize s) = length s" for s by (simp add: sanitize_def)
  ultimately show ?thesis using assms unfolding SetName_def Let_def by (simp add: MaxSetNameLen_def)
qed

text \<open>
  C40. Two deployments can end up in one set: the separator of deployment and network is what
  \<open>sanitize\<close> puts for a dash, so the network \<open>n\<close> of \<open>d-x\<close> and the network \<open>x-n\<close> of \<open>d\<close> share their set, and
  an accept rule in front of the drop joins them.
\<close>

theorem scopes_share_a_set:
  assumes "n \<noteq> ''''" "length d + length x + length n \<le> 53"
    and "a \<in> set subs" "fs_Deployment a = d @ ''-'' @ x" "fs_Network a = n"
    and "b \<in> set subs" "fs_Deployment b = d" "fs_Network b = x @ ''-'' @ n"
  shows "\<exists>name cidrs. (name, cidrs) \<in> set (fw_sets sha1 subs) \<and> fs_CIDR a \<in> set cidrs \<and> fs_CIDR b \<in> set cidrs
    \<and> ''        ip saddr @'' @ name @ '' ip daddr @'' @ name @ '' accept'' \<in> set (forward_lines (fw_sets sha1 subs))"
proof -
  have eq: "set_of sha1 a = set_of sha1 b"
    using SetName_collision [OF assms(1,2), of sha1] assms(4,5,7,8) by (simp add: set_of_def)
  define cidrs where "cidrs = sort (map fs_CIDR (filter (\<lambda>s. set_of sha1 s = set_of sha1 b)
    (sort_key (\<lambda>s. (fs_Deployment s, fs_Network s)) subs)))"
  have in_sets: "(set_of sha1 b, cidrs) \<in> set (fw_sets sha1 subs)" using assms(6) by (simp add: fw_sets_blocks cidrs_def)
  moreover have "fs_CIDR a \<in> set cidrs" "fs_CIDR b \<in> set cidrs" using assms(3,6) eq by (auto simp: cidrs_def)
  moreover have "''        ip saddr @'' @ set_of sha1 b @ '' ip daddr @'' @ set_of sha1 b @ '' accept'' \<in> set (forward_lines (fw_sets sha1 subs))"
    using in_sets unfolding forward_lines_def by (auto simp: image_iff intro!: bexI [of _ "(set_of sha1 b, cidrs)"])
  ultimately show ?thesis by blast
qed


section \<open>Drift\<close>

lemma SelfTest_None_iff:
  "SelfTestFromJSON sha1 (Inr doc) expected = None \<longleftrightarrow>
     (\<forall>name \<in> set want_chains. chain_problems doc name = []) \<and> set (got_sets doc) = set (want_sets sha1 expected)"
proof -
  have "sort xs = [] \<longleftrightarrow> xs = []" for xs :: "string list" by (metis set_empty set_sort)
  then show ?thesis by (auto simp: SelfTestFromJSON_def Let_def filter_empty_conv)
qed

lemma SelfTest_sets_only:
  assumes "SelfTestFromJSON sha1 json old = None" "set (want_sets sha1 old) = set (want_sets sha1 new)"
  shows "SelfTestFromJSON sha1 json new = None"
proof -
  from assms(1) obtain doc where "json = Inr doc" by (cases json) (simp_all add: SelfTestFromJSON_def)
  with assms show ?thesis by (simp add: SelfTest_None_iff)
qed

lemma exempt_no_apply: "DoApply r \<notin> set (exempt DoSNAT code f pool) \<and> DoApply r \<notin> set (exempt DoOverlay code f pool)"
  by (simp add: exempt_def split: option.split)

lemma exempt_no_status: "DoStatus s r \<notin> set (exempt DoSNAT code f pool) \<and> DoStatus s r \<notin> set (exempt DoOverlay code f pool)"
  by (simp add: exempt_def split: option.split)

text \<open>
  The self-test compares the names of the sets and not their elements. When a further host gets a
  block in a scope that has one, the live table of before still passes: the tick applies
  nothing and reports no error, although the live sets and the live pool lack the new block.
\<close>

theorem selftest_misses_new_blocks:
  assumes "s \<in> set (ri_Subnets old)" "fs_Deployment n = fs_Deployment s" "fs_Network n = fs_Network s"
    and "fs_CIDR n \<notin> fs_CIDR ` set (ri_Subnets old)"
    and "fe_Lister env = Inr json" "SelfTestFromJSON sha1 json old = None"
    and "fe_expected env = old\<lparr>ri_Subnets := ri_Subnets old @ [n]\<rparr>"
  shows "\<exists>acts. Fw_Tick sha1 env False = (acts, None, False) \<and> (\<forall>r. DoApply r \<notin> set acts)
    \<and> fs_CIDR n \<notin> set (all_cidrs (fw_sets sha1 (ri_Subnets old)))"
proof -
  have "set_of sha1 n = set_of sha1 s" using assms(2,3) by (simp add: set_of_def)
  then have "set (want_sets sha1 old) = set (want_sets sha1 (fe_expected env))"
    using assms(1) by (auto simp: want_sets_def assms(7))
  from SelfTest_sets_only [OF assms(6) this] assms(4,5) show ?thesis
    by (simp add: Fw_Tick_def Let_def exempt_no_apply set_all_cidrs)
qed

lemma passing_loop:
  assumes "\<forall>(ready, env) \<in> set ts. \<exists>json. fe_Lister env = Inr json \<and> SelfTestFromJSON sha1 json (fe_expected env) = None"
  shows "DoStatus s r \<notin> set (fst (Fw_Loop sha1 ts False)) \<and> snd (Fw_Loop sha1 ts False) = False"
  using assms
proof (induction ts)
  case (Cons t ts)
  then show ?case by (cases t) (auto simp: Fw_Tick_def Let_def exempt_no_status split: prod.splits)
qed simp

text \<open>
  A recovered node can stay marked as not isolated: the tick clears its flag before it reports the
  recovery, so when that one report fails, no later tick of a passing table reports again.
\<close>

theorem recovery_report_lost:
  assumes "fe_Lister env = Inr json" "SelfTestFromJSON sha1 json (fe_expected env) = None"
    and "fe_Status env ''ready'' ''isolation_reload_recovered'' = Some err"
    and "\<forall>(ready, env) \<in> set ts. \<exists>json. fe_Lister env = Inr json \<and> SelfTestFromJSON sha1 json (fe_expected env) = None"
  shows "\<exists>acts. Fw_Tick sha1 env True = (acts, Some (StatusFailed err), False)
    \<and> DoStatus ''ready'' ''isolation_reload_recovered'' \<notin> set (fst (Fw_Loop sha1 ts False))"
  using assms(1-3) passing_loop [OF assms(4)] by (simp add: Fw_Tick_def Let_def)

section \<open>Examples\<close>

definition ex_fw :: "string \<Rightarrow> string \<Rightarrow> string \<Rightarrow> FwSubnet" where
  "ex_fw d n c = \<lparr>fs_Deployment = d, fs_Network = n, fs_CIDR = c\<rparr>"

definition ex_rules :: "FwSubnet list \<Rightarrow> RuleInput" where
  "ex_rules subs = \<lparr>ri_Subnets = subs, ri_WGPort = 51820, ri_GrpcPort = 7000, ri_IngressPorts = [80, 443]\<rparr>"

theorem Render_deterministic_witness:
  "Render id (ex_rules [ex_fw ''web'' ''net'' ''10.0.1.0/24'', ex_fw ''web'' ''net'' ''10.0.0.0/24'', ex_fw ''db'' '''' ''10.0.2.0/24''])
   = Render id (ex_rules [ex_fw ''db'' '''' ''10.0.2.0/24'', ex_fw ''web'' ''net'' ''10.0.0.0/24'', ex_fw ''web'' ''net'' ''10.0.1.0/24''])"
  by (rule Render_deterministic) (simp add: ex_rules_def)

definition ex_block :: "string \<Rightarrow> string \<Rightarrow> string \<Rightarrow> Subnet" where
  "ex_block d host cidr = \<lparr>sn_deployment = d, sn_network = ''net'', sn_cidr = cidr, sn_allocated_at = None, sn_host = host\<rparr>"

definition ex_blocks :: State where
  "ex_blocks = State_New\<lparr>Subnets := put subnet_key (ex_block ''web'' ''n1'' ''10.0.0.0/24'') 1 (put subnet_key (ex_block ''web'' ''n2'' ''10.0.1.0/24'') 2
     (put subnet_key (ex_block ''db'' ''n1'' ''10.0.2.0/24'') 3 (Subnets State_New)))\<rparr>"


theorem scopes_share_a_set_witness:
  "\<exists>name cidrs. (name, cidrs) \<in> set (fw_sets id [ex_fw ''a-b'' ''c'' ''10.0.0.0/24'', ex_fw ''a'' ''b-c'' ''10.0.1.0/24''])
     \<and> ''10.0.0.0/24'' \<in> set cidrs \<and> ''10.0.1.0/24'' \<in> set cidrs"
  using scopes_share_a_set [of "''c''" "''a''" "''b''" "ex_fw ''a-b'' ''c'' ''10.0.0.0/24''"
      "[ex_fw ''a-b'' ''c'' ''10.0.0.0/24'', ex_fw ''a'' ''b-c'' ''10.0.1.0/24'']" "ex_fw ''a'' ''b-c'' ''10.0.1.0/24''" id]
  by (auto simp: ex_fw_def)

text \<open>The table of one allocation, listed after its ruleset was applied.\<close>

definition ex_listed :: "nftEntry list" where
  "ex_listed = map (\<lambda>c. \<lparr>ne_Chain = Some \<lparr>nc_Name = c, nc_Hook = c, nc_Priority = 0, nc_Policy = ''accept''\<rparr>, ne_Set = None\<rparr>)
       [''forward'', ''input'', ''output'']
     @ map (\<lambda>n. \<lparr>ne_Chain = None, ne_Set = Some n\<rparr>) [''dep_net_web_net'', ''jaco_pool'']"

definition ex_fw_env :: "RuleInput \<Rightarrow> fw_env" where
  "ex_fw_env i = \<lparr>fe_Pool = '''', fe_SNAT = None, fe_Overlay = None, fe_Lister = Inr (Inr ex_listed), fe_Applier = (\<lambda>_. None), fe_Audit = (\<lambda>_ _. None),
     fe_Status = (\<lambda>_ _. Some ''no leader''), fe_expected = i, fe_rendered = i\<rparr>"

lemma ex_listed_passes: "SelfTestFromJSON id (Inr ex_listed) (ex_rules [ex_fw ''web'' ''net'' ''10.0.0.0/24'']) = None"
  by code_simp

theorem selftest_misses_new_blocks_witness:
  "\<exists>acts. Fw_Tick id (ex_fw_env (ex_rules [ex_fw ''web'' ''net'' ''10.0.0.0/24'', ex_fw ''web'' ''net'' ''10.0.1.0/24''])) False = (acts, None, False)
     \<and> (\<forall>r. DoApply r \<notin> set acts)"
  using selftest_misses_new_blocks [OF _ _ _ _ _ ex_listed_passes, of "ex_fw ''web'' ''net'' ''10.0.0.0/24''" "ex_fw ''web'' ''net'' ''10.0.1.0/24''"
      "ex_fw_env (ex_rules [ex_fw ''web'' ''net'' ''10.0.0.0/24'', ex_fw ''web'' ''net'' ''10.0.1.0/24''])"]
  by (auto simp: ex_rules_def ex_fw_def ex_fw_env_def)

theorem recovery_report_lost_witness:
  "\<exists>acts. Fw_Tick id (ex_fw_env (ex_rules [ex_fw ''web'' ''net'' ''10.0.0.0/24''])) True = (acts, Some (StatusFailed ''no leader''), False)
     \<and> DoStatus ''ready'' ''isolation_reload_recovered''
       \<notin> set (fst (Fw_Loop id [(True, ex_fw_env (ex_rules [ex_fw ''web'' ''net'' ''10.0.0.0/24'']))] False))"
proof -
  let ?env = "ex_fw_env (ex_rules [ex_fw ''web'' ''net'' ''10.0.0.0/24''])"
  have l: "fe_Lister ?env = Inr (Inr ex_listed)" "fe_Status ?env ''ready'' ''isolation_reload_recovered'' = Some ''no leader''"
    "fe_expected ?env = ex_rules [ex_fw ''web'' ''net'' ''10.0.0.0/24'']" by (simp_all add: ex_fw_env_def)
  have p: "SelfTestFromJSON id (Inr ex_listed) (fe_expected ?env) = None" unfolding l(3) by (rule ex_listed_passes)
  with l(1) have "\<forall>(ready, env) \<in> set [(True, ?env)]. \<exists>json. fe_Lister env = Inr json \<and> SelfTestFromJSON id json (fe_expected env) = None"
    by auto
  from recovery_report_lost [OF l(1) p l(2) this] show ?thesis .
qed

end
