(* ===== verification/IngressConfig.thy ===== *)
theory IngressConfig
  imports Deploy "HOL-Library.Product_Lexorder"
begin

text \<open>
  The configuration of the ingress proxy, \<^verbatim>\<open>internal/ingress/config/config.go\<close>, the inputs the daemon
  projects from the replicated state for it (\<^verbatim>\<open>internal/daemon/grpc/ingress.go\<close>) and the view of one
  domain that \<open>GetRoute\<close> reports (\<^verbatim>\<open>internal/controlplane/grpc/getroute.go\<close>).

  The result of \<open>BuildCaddyConfig\<close> is the JSON value that \<open>json.MarshalIndent\<close> prints, with the members of an
  object in the order they are written here; the printer sorts them by key. A nil slice is null. The
  keys that are sorted with \<open>sort.Slice\<close> are unique where they come from the stores. The clock is read once.
\<close>

section \<open>JSON\<close>

datatype json = JNull | JBool bool | JNum int | JStr string | JArr "json list" | JObj "(string \<times> json) list"

definition JSlice :: "json list \<Rightarrow> json" where
  "JSlice xs = (if xs = [] then JNull else JArr xs)"

section \<open>Inputs\<close>

definition HealthFreshness :: int where
  "HealthFreshness = 10 * 1000000000"

text \<open>The zero \<open>time.Time\<close>, the first of January of year 1.\<close>

definition zeroTime :: time where
  "zeroTime = - 62135596800 * 1000000000"

record IRoute =
  ir_Domain :: string
  ir_Deployment :: string
  ir_Service :: string
  ir_Port :: int
  ir_TLSAuto :: bool
  ir_Path :: string
  ir_StripPath :: bool
  ir_ACMEEmail :: string

record ITCPRoute =
  it_PublishedPort :: int
  it_Deployment :: string
  it_Service :: string
  it_ContainerPort :: int

record ReplicaObservedView =
  rv_ID :: string
  rv_Deployment :: string
  rv_Service :: string
  rv_State :: string
  rv_LastHealthAt :: time

text \<open>The addresses of the replicas of a service; a service without an entry has no metadata.\<close>

type_synonym service_meta = "string \<rightharpoonup> (string \<rightharpoonup> string)"

definition MetaKey :: "string \<Rightarrow> string \<Rightarrow> string" where
  "MetaKey deployment service = deployment @ ''/'' @ service"

record BuildOpts =
  bo_ACMEEmail :: string
  bo_ACMECA :: string
  bo_ACMEEnabled :: bool
  bo_ACMEStagingCA :: string
  bo_StagingDomains :: "string \<Rightarrow> bool"
  bo_Now :: time

definition isEligible :: "ReplicaObservedView \<Rightarrow> time \<Rightarrow> bool" where
  "isEligible r now \<longleftrightarrow> rv_State r = ''running'' \<and> rv_LastHealthAt r \<noteq> zeroTime \<and> now - rv_LastHealthAt r < HealthFreshness"

section \<open>Upstreams\<close>

definition healthy_replicas :: "ReplicaObservedView list \<Rightarrow> time \<Rightarrow> string \<Rightarrow> ReplicaObservedView list" where
  "healthy_replicas replicas now key =
     sort_key rv_ID (filter (\<lambda>r. isEligible r now \<and> MetaKey (rv_Deployment r) (rv_Service r) = key) replicas)"

definition upstream_ips :: "(string \<Rightarrow> ReplicaObservedView list) \<Rightarrow> service_meta \<Rightarrow> string \<Rightarrow> string list" where
  "upstream_ips healthyByService services key =
     (case services key of
        None \<Rightarrow> []
      | Some ips \<Rightarrow> List.map_filter (\<lambda>r. ips (rv_ID r)) (healthyByService key))"

definition buildUpstreams :: "(string \<Rightarrow> ReplicaObservedView list) \<Rightarrow> service_meta \<Rightarrow> IRoute \<Rightarrow> json list" where
  "buildUpstreams healthyByService services r =
     map (\<lambda>ip. JObj [(''dial'', JStr (ip @ '':'' @ Itoa (ir_Port r)))])
       (upstream_ips healthyByService services (MetaKey (ir_Deployment r) (ir_Service r)))"

definition buildTCPUpstreams :: "(string \<Rightarrow> ReplicaObservedView list) \<Rightarrow> service_meta \<Rightarrow> ITCPRoute \<Rightarrow> json list" where
  "buildTCPUpstreams healthyByService services tr =
     map (\<lambda>ip. JObj [(''dial'', JArr [JStr (ip @ '':'' @ Itoa (it_ContainerPort tr))])])
       (upstream_ips healthyByService services (MetaKey (it_Deployment tr) (it_Service tr)))"

definition buildLayer4Servers :: "(string \<Rightarrow> ReplicaObservedView list) \<Rightarrow> service_meta \<Rightarrow> ITCPRoute list \<Rightarrow> (string \<times> json) list" where
  "buildLayer4Servers healthyByService services tcpRoutes =
     List.map_filter (\<lambda>tr.
       let upstreams = buildTCPUpstreams healthyByService services tr
       in if length upstreams = 0 then None
          else Some (''tcp_'' @ Itoa (it_PublishedPort tr),
            JObj [(''listen'', JArr [JStr ('':'' @ Itoa (it_PublishedPort tr))]),
                  (''routes'', JArr [JObj [(''handle'', JArr [JObj
                     [(''handler'', JStr ''proxy''), (''upstreams'', JArr upstreams),
                      (''load_balancing'', JObj [(''selection'', JObj [(''policy'', JStr ''round_robin'')])])]])]])]))
       (sort_key it_PublishedPort tcpRoutes)"

section \<open>Routes\<close>

definition HasSuffix :: "string \<Rightarrow> string \<Rightarrow> bool" where
  "HasSuffix s suf = suffix suf s"

definition TrimSuffix :: "string \<Rightarrow> string \<Rightarrow> string" where
  "TrimSuffix s suf = (if suffix suf s then take (length s - length suf) s else s)"

definition stripPrefix :: "string \<Rightarrow> string" where
  "stripPrefix path = TrimSuffix (TrimSuffix path ''*'') ''/''"

definition pathMatchers :: "string \<Rightarrow> json list" where
  "pathMatchers path =
     (if HasSuffix path ''*'' then [JStr path]
      else let exact = TrimSuffix path ''/'' in [JStr exact, JStr (exact @ ''/*'')])"

definition proxyHandler :: "(string \<Rightarrow> ReplicaObservedView list) \<Rightarrow> service_meta \<Rightarrow> IRoute \<Rightarrow> json" where
  "proxyHandler healthyByService services r =
     JObj [(''handler'', JStr ''reverse_proxy''), (''upstreams'', JSlice (buildUpstreams healthyByService services r)),
       (''load_balancing'', JObj [(''selection_policy'', JObj [(''policy'', JStr ''random'')]), (''retries'', JNum 2), (''try_duration'', JStr ''0s'')]),
       (''health_checks'', JObj [(''passive'', JObj [(''fail_duration'', JStr ''10s'')])])]"

definition buildProxyHandle :: "(string \<Rightarrow> ReplicaObservedView list) \<Rightarrow> service_meta \<Rightarrow> IRoute \<Rightarrow> json" where
  "buildProxyHandle healthyByService services r = JObj [(''handle'', JArr [proxyHandler healthyByService services r])]"

definition buildHandleChain :: "(string \<Rightarrow> ReplicaObservedView list) \<Rightarrow> service_meta \<Rightarrow> IRoute \<Rightarrow> json list" where
  "buildHandleChain healthyByService services r =
     (let proxy = proxyHandler healthyByService services r
      in if ir_StripPath r \<and> ir_Path r \<noteq> ''''
         then [JObj [(''handler'', JStr ''rewrite''), (''strip_path_prefix'', JStr (stripPrefix (ir_Path r)))], proxy]
         else [proxy])"

definition buildSingleRoute :: "(string \<Rightarrow> ReplicaObservedView list) \<Rightarrow> service_meta \<Rightarrow> string \<Rightarrow> IRoute \<Rightarrow> json" where
  "buildSingleRoute healthyByService services domain r =
     (let match = [(''host'', JArr [JStr domain])] @ (if ir_Path r \<noteq> '''' then [(''path'', JArr (pathMatchers (ir_Path r)))] else [])
      in JObj [(''match'', JArr [JObj match]), (''handle'', JArr (buildHandleChain healthyByService services r))])"

definition buildPathRoute :: "(string \<Rightarrow> ReplicaObservedView list) \<Rightarrow> service_meta \<Rightarrow> IRoute \<Rightarrow> json" where
  "buildPathRoute healthyByService services r =
     JObj [(''match'', JArr [JObj [(''path'', JArr (pathMatchers (ir_Path r)))]]), (''handle'', JArr (buildHandleChain healthyByService services r))]"

text \<open>Longer paths first, equal lengths in the order of the strings.\<close>

definition pathRoutes :: "IRoute list \<Rightarrow> IRoute list" where
  "pathRoutes domRoutes = sort_key (\<lambda>r. (- int (length (ir_Path r)), ir_Path r)) (filter (\<lambda>r. ir_Path r \<noteq> '''') domRoutes)"

definition catchAll :: "IRoute list \<Rightarrow> IRoute option" where
  "catchAll domRoutes = (case rev (filter (\<lambda>r. ir_Path r = '''') domRoutes) of [] \<Rightarrow> None | r # _ \<Rightarrow> Some r)"

definition buildDomainRoute :: "(string \<Rightarrow> ReplicaObservedView list) \<Rightarrow> service_meta \<Rightarrow> string \<Rightarrow> IRoute list \<Rightarrow> json" where
  "buildDomainRoute healthyByService services domain domRoutes =
     (if length (pathRoutes domRoutes) = 0 then buildSingleRoute healthyByService services domain (hd domRoutes)
      else JObj [(''match'', JArr [JObj [(''host'', JArr [JStr domain])]]),
             (''handle'', JArr [JObj [(''handler'', JStr ''subroute''),
               (''routes'', JArr (map (buildPathRoute healthyByService services) (pathRoutes domRoutes)
                  @ (case catchAll domRoutes of None \<Rightarrow> [] | Some r \<Rightarrow> [buildProxyHandle healthyByService services r])))]])])"

definition acmeChallengePathGlob :: string where
  "acmeChallengePathGlob = ''/.well-known/acme-challenge/*''"

definition challengeRoute :: json where
  "challengeRoute = JObj [(''match'', JArr [JObj [(''path'', JArr [JStr acmeChallengePathGlob])]]),
     (''handle'', JArr [JObj [(''handler'', JStr ''jaco_acme_challenge'')]])]"

definition redirectRoute :: "string \<Rightarrow> json" where
  "redirectRoute domain =
     JObj [(''match'', JArr [JObj [(''host'', JArr [JStr domain]), (''not'', JArr [JObj [(''path'', JArr [JStr acmeChallengePathGlob])]])]]),
       (''handle'', JArr [JObj [(''handler'', JStr ''static_response''), (''status_code'', JNum 308),
          (''headers'', JObj [(''Location'', JArr [JStr ''https://{http.request.host}{http.request.uri}''])])]])]"

definition fallbackRoute :: json where
  "fallbackRoute = JObj [(''handle'', JArr [JObj [(''handler'', JStr ''static_response''), (''status_code'', JNum 404),
     (''headers'', JObj [(''Server'', JArr [JStr ''jaco''])])]])]"

definition redirectDomainSet :: "IRoute list \<Rightarrow> BuildOpts \<Rightarrow> string \<Rightarrow> bool" where
  "redirectDomainSet routes opts domain \<longleftrightarrow> bo_ACMEEnabled opts \<and> list_ex (\<lambda>r. ir_TLSAuto r \<and> ir_Domain r = domain) routes"

section \<open>Certificates\<close>

type_synonym policyKey = "bool \<times> string"

definition policy_key :: "BuildOpts \<Rightarrow> IRoute \<Rightarrow> policyKey" where
  "policy_key opts r =
     (bo_StagingDomains opts (ir_Domain r) \<and> bo_ACMEStagingCA opts \<noteq> '''',
      if ir_ACMEEmail r = '''' then bo_ACMEEmail opts else ir_ACMEEmail r)"

text \<open>The routes that decide the policy of their domain: the first with automatic TLS of each domain.\<close>

fun deciding :: "string set \<Rightarrow> IRoute list \<Rightarrow> IRoute list" where
  "deciding seen [] = []"
| "deciding seen (r # rs) =
     (if \<not> ir_TLSAuto r \<or> ir_Domain r \<in> seen then deciding seen rs
      else r # deciding (insert (ir_Domain r) seen) rs)"

definition tlsPolicy :: "string list \<Rightarrow> string \<Rightarrow> string \<Rightarrow> json" where
  "tlsPolicy domains ca email =
     JObj [(''subjects'', JArr (map JStr domains)),
       (''issuers'', JArr [JObj ([(''module'', JStr ''acme''), (''ca'', JStr ca),
          (''challenges'', JObj [(''http'', JObj []), (''tls-alpn'', JObj [(''disabled'', JBool True)])])]
          @ (if email \<noteq> '''' then [(''email'', JStr email)] else []))]),
       (''key_type'', JStr ''p256''), (''storage'', JObj [(''module'', JStr ''jaco'')])]"

definition policy_groups :: "IRoute list \<Rightarrow> BuildOpts \<Rightarrow> (policyKey \<times> string list) list" where
  "policy_groups routes opts =
     (let ds = deciding {} routes; keys = sort_key (\<lambda>(staging, email). (\<not> staging, email)) (remdups (map (policy_key opts) ds))
      in map (\<lambda>k. (k, sort (map ir_Domain (filter (\<lambda>r. policy_key opts r = k) ds)))) keys)"

definition buildTLSPolicies :: "IRoute list \<Rightarrow> BuildOpts \<Rightarrow> json list" where
  "buildTLSPolicies routes opts =
     (if \<not> bo_ACMEEnabled opts then []
      else map (\<lambda>((staging, email), domains).
             tlsPolicy domains (if staging then bo_ACMEStagingCA opts else bo_ACMECA opts) email) (policy_groups routes opts))"

section \<open>The whole configuration\<close>

definition route_domains :: "IRoute list \<Rightarrow> string list" where
  "route_domains routes = sort (remdups (map ir_Domain routes))"

definition domain_routes :: "IRoute list \<Rightarrow> string \<Rightarrow> IRoute list" where
  "domain_routes routes d = filter (\<lambda>r. ir_Domain r = d) routes"

definition default_ca :: "BuildOpts \<Rightarrow> BuildOpts" where
  "default_ca opts = (if bo_ACMECA opts = '''' then opts\<lparr>bo_ACMECA := ''https://acme-v02.api.letsencrypt.org/directory''\<rparr> else opts)"

definition BuildCaddyConfig :: "IRoute list \<Rightarrow> ITCPRoute list \<Rightarrow> ReplicaObservedView list \<Rightarrow> service_meta \<Rightarrow> BuildOpts \<Rightarrow> json" where
  "BuildCaddyConfig routes tcpRoutes replicas services opts0 =
     (let opts = default_ca opts0;
          healthyByService = healthy_replicas replicas (bo_Now opts);
          domains = route_domains routes;
          sortedRoutes = concat (map (domain_routes routes) domains);
          proxyRoute = (\<lambda>d. buildDomainRoute healthyByService services d (domain_routes routes d));
          tlsPolicies = buildTLSPolicies sortedRoutes opts;
          httpsRoutes = map proxyRoute domains @ [fallbackRoute];
          httpRoutes = map (\<lambda>d. if redirectDomainSet sortedRoutes opts d then redirectRoute d else proxyRoute d) domains @ [fallbackRoute];
          httpRoutes = (if length tlsPolicies > 0 then challengeRoute # httpRoutes else httpRoutes);
          autoHTTPS = (if length tlsPolicies = 0 then JObj [(''disable'', JBool True)] else JObj [(''disable_redirects'', JBool True)]);
          servers = buildLayer4Servers healthyByService services tcpRoutes
      in JObj [(''apps'', JObj
           ([(''http'', JObj [(''servers'', JObj
               [(''jaco_https'', JObj [(''listen'', JArr [JStr '':443'']), (''routes'', JArr httpsRoutes), (''automatic_https'', autoHTTPS)]),
                (''jaco_http'', JObj [(''listen'', JArr [JStr '':80'']), (''routes'', JArr httpRoutes), (''automatic_https'', autoHTTPS)])])])]
            @ (if length tlsPolicies > 0 then [(''tls'', JObj [(''automation'', JObj [(''policies'', JArr tlsPolicies)])])] else [])
            @ (if length servers > 0 then [(''layer4'', JObj [(''servers'', JObj servers)])] else [])))])"


section \<open>The daemon's inputs\<close>

definition Contains :: "string \<Rightarrow> string \<Rightarrow> bool" where
  "Contains s sub = sublist sub s"

fun replicaStateString :: "ReplicaState \<Rightarrow> string" where
  "replicaStateString RS_RUNNING = ''running''"
| "replicaStateString RS_DEGRADED = ''degraded''"
| "replicaStateString RS_FAILED = ''failed''"
| "replicaStateString RS_PENDING = ''pending''"
| "replicaStateString _ = ''''"

definition replicaIDDeployment :: "State \<Rightarrow> string \<Rightarrow> string" where
  "replicaIDDeployment st i = (case Store_Get (ReplicasDesired st) i of Some r \<Rightarrow> rd_deployment r | None \<Rightarrow> '''')"

definition replicaIDService :: "State \<Rightarrow> string \<Rightarrow> string" where
  "replicaIDService st i = (case Store_Get (ReplicasDesired st) i of Some r \<Rightarrow> rd_service r | None \<Rightarrow> '''')"

definition serviceNetworks :: "State \<Rightarrow> string \<Rightarrow> string \<Rightarrow> string list" where
  "serviceNetworks st deployment service =
     (case Store_Get (Deployments st) deployment of
        None \<Rightarrow> []
      | Some dep \<Rightarrow> (case find (\<lambda>svc. ss_name svc = service) (dp_services dep) of None \<Rightarrow> [] | Some svc \<Rightarrow> ss_networks svc))"

definition DockerNetworkName :: "string \<Rightarrow> string \<Rightarrow> string" where
  "DockerNetworkName deployment network = ''jaco_'' @ deployment @ ''_'' @ (if network = ''default'' then ''_default'' else network)"

definition deploymentEmail :: "State \<Rightarrow> string \<Rightarrow> string" where
  "deploymentEmail st d =
     (case map_of (rev (map (\<lambda>dep. (dp_name dep, dp_acme_email dep)) (Store_List (Deployments st)))) d of None \<Rightarrow> '''' | Some e \<Rightarrow> e)"

definition to_iroute :: "State \<Rightarrow> Route \<Rightarrow> IRoute" where
  "to_iroute st r = \<lparr>ir_Domain = rt_domain r, ir_Deployment = rt_deployment r, ir_Service = rt_service r, ir_Port = sint (rt_port r),
     ir_TLSAuto = rt_tls_auto r, ir_Path = rt_path r, ir_StripPath = rt_strip_path r, ir_ACMEEmail = deploymentEmail st (rt_deployment r)\<rparr>"

definition to_itcproute :: "TCPRoute \<Rightarrow> ITCPRoute" where
  "to_itcproute r = \<lparr>it_PublishedPort = sint (tr_published_port r), it_Deployment = tr_deployment r, it_Service = tr_service r,
     it_ContainerPort = sint (tr_container_port r)\<rparr>"

definition to_view :: "State \<Rightarrow> ReplicaObserved \<Rightarrow> ReplicaObservedView" where
  "to_view st o' = \<lparr>rv_ID = ro_id o', rv_Deployment = replicaIDDeployment st (ro_id o'), rv_Service = replicaIDService st (ro_id o'),
     rv_State = replicaStateString (ro_state o'), rv_LastHealthAt = AsTime (ro_last_health_at o')\<rparr>"

text \<open>The addresses an observation contributes, network by network; a later one replaces an earlier.\<close>

definition obs_addresses :: "State \<Rightarrow> ReplicaObserved \<Rightarrow> (string \<times> string \<times> string) list" where
  "obs_addresses st obs =
     (case Store_Get (ReplicasDesired st) (ro_id obs) of
        None \<Rightarrow> []
      | Some rep \<Rightarrow>
          List.map_filter (\<lambda>network.
            case ro_details obs (''ip.'' @ DockerNetworkName (rd_deployment rep) network) of
              None \<Rightarrow> None
            | Some ip \<Rightarrow> if ip = '''' then None else Some (MetaKey (rd_deployment rep) (rd_service rep), ro_id obs, ip))
            (serviceNetworks st (rd_deployment rep) (rd_service rep)))"

definition add_address :: "string \<times> string \<times> string \<Rightarrow> service_meta \<Rightarrow> service_meta" where
  "add_address = (\<lambda>(key, i, ip) services.
     services(key \<mapsto> (case services key of None \<Rightarrow> Map.empty | Some ips \<Rightarrow> ips)(i \<mapsto> ip)))"

definition service_metas :: "State \<Rightarrow> service_meta" where
  "service_metas st = fold add_address (concat (map (obs_addresses st) (Store_List (ReplicasObserved st)))) Map.empty"

record ingressACMEOpts =
  io_Email :: string
  io_CA :: string
  io_Enabled :: bool
  io_StagingCA :: string

definition ingressBuilder :: "ingressACMEOpts \<Rightarrow> (string \<Rightarrow> bool) \<Rightarrow> time \<Rightarrow> State \<Rightarrow> json" where
  "ingressBuilder acme stagingDomains now st =
     BuildCaddyConfig (map (to_iroute st) (Store_List (Routes st))) (map to_itcproute (Store_List (TCPRoutes st)))
       (map (to_view st) (Store_List (ReplicasObserved st))) (service_metas st)
       \<lparr>bo_ACMEEmail = io_Email acme, bo_ACMECA = io_CA acme, bo_ACMEEnabled = io_Enabled acme, bo_ACMEStagingCA = io_StagingCA acme,
        bo_StagingDomains = stagingDomains, bo_Now = now\<rparr>"

section \<open>The staging window\<close>

fun dedup_domains :: "string set \<Rightarrow> Route list \<Rightarrow> string list" where
  "dedup_domains seen [] = []"
| "dedup_domains seen (r # rs) =
     (if \<not> rt_tls_auto r \<or> rt_domain r \<in> seen then dedup_domains seen rs
      else rt_domain r # dedup_domains (insert (rt_domain r) seen) rs)"

definition tlsAutoDomains :: "State \<Rightarrow> string list" where
  "tlsAutoDomains st = dedup_domains {} (Store_List (Routes st))"

definition staging_blob :: "string \<Rightarrow> CertBlob \<Rightarrow> bool" where
  "staging_blob domain b \<longleftrightarrow> HasSuffix (cb_key b) ''.crt'' \<and> Contains (cb_key b) ''staging'' \<and> Contains (cb_key b) (''/'' @ domain @ ''/'')"

definition loadStagingChain :: "State \<Rightarrow> string \<Rightarrow> bytes option" where
  "loadStagingChain st domain = map_option cb_value (find (staging_blob domain) (Store_List (CertBlobs st)))"

definition prodCertIssued :: "State \<Rightarrow> string \<Rightarrow> bool" where
  "prodCertIssued st domain =
     list_ex (\<lambda>b. HasSuffix (cb_key b) ''.crt'' \<and> \<not> Contains (cb_key b) ''staging'' \<and> Contains (cb_key b) (''/'' @ domain @ ''/''))
       (Store_List (CertBlobs st))"

definition stagingDomainsFromState :: "State \<Rightarrow> string \<Rightarrow> bool" where
  "stagingDomainsFromState st domain \<longleftrightarrow>
     domain \<in> set (tlsAutoDomains st) \<and> \<not> prodCertIssued st domain \<and> loadStagingChain st domain \<noteq> None"

definition stagingDomainsForBuilder :: "State \<Rightarrow> (string \<Rightarrow> bool) option \<Rightarrow> bool \<Rightarrow> string \<Rightarrow> bool" where
  "stagingDomainsForBuilder st staging isLeader domain \<longleftrightarrow>
     stagingDomainsFromState st domain \<or> (case staging of None \<Rightarrow> False | Some inflight \<Rightarrow> isLeader \<and> inflight domain)"

section \<open>The realised view of a domain\<close>

definition isUpstreamEligible :: "ReplicaObserved \<Rightarrow> time \<Rightarrow> bool" where
  "isUpstreamEligible obs now \<longleftrightarrow> ro_state obs = RS_RUNNING
     \<and> (case ro_last_health_at obs of None \<Rightarrow> False | Some t \<Rightarrow> t \<noteq> zeroTime \<and> now - t < HealthFreshness)"

definition desiredByID :: "State \<Rightarrow> string \<rightharpoonup> ReplicaDesired" where
  "desiredByID st = map_of (rev (map (\<lambda>rd. (rd_id rd, rd)) (Store_List (ReplicasDesired st))))"

definition observed_of :: "State \<Rightarrow> string \<Rightarrow> ReplicaObserved list" where
  "observed_of st key = filter (\<lambda>obs. case desiredByID st (ro_id obs) of None \<Rightarrow> False
     | Some rd \<Rightarrow> MetaKey (rd_deployment rd) (rd_service rd) = key) (Store_List (ReplicasObserved st))"

definition upstreamReadiness :: "State \<Rightarrow> time \<Rightarrow> string \<Rightarrow> int32 \<times> int32" where
  "upstreamReadiness st now key =
     (of_nat (length (filter (\<lambda>obs. isUpstreamEligible obs now) (observed_of st key))), of_nat (length (observed_of st key)))"

record RealizedRoute =
  rr_Path :: string
  rr_CatchAll :: bool
  rr_Deployment :: string
  rr_Service :: string
  rr_Port :: int32
  rr_TlsAuto :: bool
  rr_StripPath :: bool
  rr_ReadyReplicas :: int32
  rr_TotalReplicas :: int32

definition realized_order :: "Route list \<Rightarrow> Route list" where
  "realized_order rs = sort_key (\<lambda>r. (rt_path r = '''', - int (length (rt_path r)), rt_path r)) rs"

definition GetRoute :: "time \<Rightarrow> string \<Rightarrow> State \<Rightarrow> rpc_error + RealizedRoute list" where
  "GetRoute now domain st =
     (if domain = '''' then Inl (errorStatus C_InvalidArgument ''validation_failed'' (Text ''domain is required''))
      else
        let domainRoutes = filter (\<lambda>rt. rt_domain rt = domain) (Store_List (Routes st))
        in if length domainRoutes = 0
           then Inl (errorStatus C_NotFound ''route_not_found'' (Text (''no routes for domain '' @ domain)))
           else Inr (map (\<lambda>rt.
                  let (ready, total) = upstreamReadiness st now (MetaKey (rt_deployment rt) (rt_service rt))
                  in \<lparr>rr_Path = rt_path rt, rr_CatchAll = (rt_path rt = ''''), rr_Deployment = rt_deployment rt, rr_Service = rt_service rt,
                      rr_Port = rt_port rt, rr_TlsAuto = rt_tls_auto rt, rr_StripPath = rt_strip_path rt,
                      rr_ReadyReplicas = ready, rr_TotalReplicas = total\<rparr>) (realized_order domainRoutes)))"

end
