(* ===== verification/IngressProps.thy ===== *)
theory IngressProps
  imports IngressConfig
begin

text \<open>
  Properties of the ingress configuration: nodes with the same replicated content render the same
  configuration, a domain is redirected exactly when it has a certificate policy, the first matching path is the
  longest, and the realised view that \<open>GetRoute\<close> reports agrees with the configuration.
\<close>

section \<open>Independence of the listing order\<close>

lemma sort_key_mset:
  assumes "mset xs = mset ys" "inj_on f (set xs)"
  shows "sort_key f xs = sort_key f ys"
  using assms by (intro sort_key_inj_key_eq) simp_all

lemma filter_mset: "mset xs = mset ys \<Longrightarrow> mset (filter P xs) = mset (filter P ys)"
  by simp

lemma single_mset: "mset xs = mset ys \<Longrightarrow> length xs \<le> 1 \<Longrightarrow> xs = ys"
  by (cases xs; cases ys) (auto dest: mset_eq_length)

lemma route_domains_mset: "mset rs = mset rs' \<Longrightarrow> route_domains rs = route_domains rs'"
  unfolding route_domains_def by (metis mset_map set_mset_mset sorted_list_of_set_sort_remdups)

lemma distinct_route_domains: "distinct (route_domains rs)"
  by (simp add: route_domains_def)

lemma set_route_domains: "set (route_domains rs) = ir_Domain ` set rs"
  by (simp add: route_domains_def)

text \<open>Routes as the store holds them: one per domain and path.\<close>

definition keyed_routes :: "IRoute list \<Rightarrow> bool" where
  "keyed_routes rs \<longleftrightarrow> distinct (map (\<lambda>r. (ir_Domain r, ir_Path r)) rs)"

lemma keyed_inj: "keyed_routes rs \<Longrightarrow> r \<in> set rs \<Longrightarrow> r' \<in> set rs \<Longrightarrow> ir_Domain r = ir_Domain r' \<Longrightarrow> ir_Path r = ir_Path r' \<Longrightarrow> r = r'"
  unfolding keyed_routes_def distinct_map inj_on_def by fastforce

lemma length_le_one: "distinct xs \<Longrightarrow> (\<forall>x \<in> set xs. \<forall>y \<in> set xs. x = y) \<Longrightarrow> length xs \<le> 1"
  by (simp add: distinct_card [symmetric] card_le_Suc0_iff_eq)

lemma keyed_one_catch_all:
  assumes "keyed_routes rs"
  shows "length (filter (\<lambda>r. ir_Path r = '''') (domain_routes rs d)) \<le> 1"
proof (rule length_le_one)
  show "distinct (filter (\<lambda>r. ir_Path r = '''') (domain_routes rs d))"
    using assms by (simp add: keyed_routes_def domain_routes_def distinct_map)
  show "\<forall>x \<in> set (filter (\<lambda>r. ir_Path r = '''') (domain_routes rs d)). \<forall>y \<in> set (filter (\<lambda>r. ir_Path r = '''') (domain_routes rs d)). x = y"
    using keyed_inj [OF assms] by (auto simp: domain_routes_def)
qed

lemma pathRoutes_mset:
  assumes "mset rs = mset rs'" "keyed_routes rs"
  shows "pathRoutes (domain_routes rs d) = pathRoutes (domain_routes rs' d)"
  unfolding pathRoutes_def
  by (rule sort_key_mset) (use assms keyed_inj [OF assms(2)] in \<open>auto simp: domain_routes_def inj_on_def\<close>)

lemma buildDomainRoute_mset:
  assumes "mset rs = mset rs'" "keyed_routes rs"
  shows "buildDomainRoute h sv d (domain_routes rs d) = buildDomainRoute h sv d (domain_routes rs' d)"
proof -
  have m: "mset (domain_routes rs d) = mset (domain_routes rs' d)" using assms(1) by (simp add: domain_routes_def)
  have c: "filter (\<lambda>r. ir_Path r = '''') (domain_routes rs d) = filter (\<lambda>r. ir_Path r = '''') (domain_routes rs' d)"
    using single_mset [OF filter_mset [OF m] keyed_one_catch_all [OF assms(2)]] .
  have "domain_routes rs d = domain_routes rs' d" if "pathRoutes (domain_routes rs d) = []"
  proof -
    have "set (pathRoutes (domain_routes rs d)) = {}" by (simp only: that list.set)
    then have "set (filter (\<lambda>r. ir_Path r \<noteq> '''') (domain_routes rs d)) = {}" by (simp only: pathRoutes_def set_sort)
    then have "\<forall>r \<in> set (domain_routes rs d). ir_Path r = ''''" "\<forall>r \<in> set (domain_routes rs' d). ir_Path r = ''''"
      using m by (auto simp: filter_empty_conv dest: mset_eq_setD)
    with c show ?thesis by (simp add: filter_True)
  qed
  then show ?thesis
    using pathRoutes_mset [OF assms, of d] c
    by (cases "pathRoutes (domain_routes rs d) = []") (simp_all only: buildDomainRoute_def catchAll_def list.size(3) length_0_conv if_False)
qed


text \<open>The routes that decide the policies of a list sorted by domain.\<close>

lemma deciding_append:
  "deciding seen (xs @ ys) = deciding seen xs @ deciding (seen \<union> ir_Domain ` set (deciding seen xs)) ys"
  by (induction xs arbitrary: seen) simp_all

lemma deciding_seen: "\<forall>r \<in> set xs. ir_Domain r = d \<Longrightarrow> d \<in> seen \<Longrightarrow> deciding seen xs = []"
  by (induction xs) simp_all

lemma deciding_domain:
  "\<forall>r \<in> set xs. ir_Domain r = d \<Longrightarrow> d \<notin> seen \<Longrightarrow> deciding seen xs = take 1 (filter ir_TLSAuto xs)"
  by (induction xs) (simp_all add: deciding_seen [of _ d])

lemma deciding_blocks:
  assumes "distinct ds" "set ds \<inter> seen = {}"
  shows "deciding seen (concat (map (domain_routes rs) ds)) = concat (map (\<lambda>d. take 1 (filter ir_TLSAuto (domain_routes rs d))) ds)"
  using assms
proof (induction ds arbitrary: seen)
  case (Cons d ds)
  have dom: "\<forall>r \<in> set (domain_routes rs d). ir_Domain r = d" by (simp add: domain_routes_def)
  let ?b = "take 1 (filter ir_TLSAuto (domain_routes rs d))"
  have b: "deciding seen (domain_routes rs d) = ?b" using deciding_domain [OF dom] Cons.prems(2) by simp
  have "ir_Domain ` set ?b \<subseteq> {d}" using dom by (auto dest: in_set_takeD)
  then have "set ds \<inter> (seen \<union> ir_Domain ` set ?b) = {}" using Cons.prems by auto
  then show ?case using Cons.IH Cons.prems(1) by (simp add: deciding_append b del: One_nat_def)
qed simp

definition policy_pairs :: "BuildOpts \<Rightarrow> IRoute list \<Rightarrow> (string \<times> policyKey) list" where
  "policy_pairs opts rs = map (\<lambda>r. (ir_Domain r, policy_key opts r)) (deciding {} rs)"

lemma policy_groups_pairs:
  "policy_groups rs opts =
     map (\<lambda>k. (k, sort (map fst (filter (\<lambda>p. snd p = k) (policy_pairs opts rs)))))
       (sort_key (\<lambda>(staging, email). (\<not> staging, email)) (remdups (map snd (policy_pairs opts rs))))"
  by (simp add: policy_groups_def policy_pairs_def Let_def comp_def filter_map)

definition same_policy :: "BuildOpts \<Rightarrow> IRoute list \<Rightarrow> bool" where
  "same_policy opts rs \<longleftrightarrow> (\<forall>r \<in> set rs. \<forall>r' \<in> set rs. ir_TLSAuto r \<and> ir_TLSAuto r' \<and> ir_Domain r = ir_Domain r'
     \<longrightarrow> policy_key opts r = policy_key opts r')"

definition sorted_routes :: "IRoute list \<Rightarrow> IRoute list" where
  "sorted_routes rs = concat (map (domain_routes rs) (route_domains rs))"

lemma set_sorted_routes [simp]: "set (sorted_routes rs) = set rs"
  by (auto simp: sorted_routes_def domain_routes_def set_route_domains)

lemma policy_pairs_mset:
  assumes "mset rs = mset rs'" "same_policy opts rs"
  shows "policy_pairs opts (sorted_routes rs) = policy_pairs opts (sorted_routes rs')"
proof -
  have s: "set rs = set rs'" using assms(1) by (rule mset_eq_setD)
  let ?b = "\<lambda>rs d. filter ir_TLSAuto (domain_routes rs d)"
  have "map (\<lambda>r. (ir_Domain r, policy_key opts r)) (take 1 (?b rs d)) = map (\<lambda>r. (ir_Domain r, policy_key opts r)) (take 1 (?b rs' d))" for d
  proof -
    have m: "mset (?b rs d) = mset (?b rs' d)" using assms(1) by (simp add: domain_routes_def)
    show ?thesis
    proof (cases "?b rs d")
      case Nil
      then show ?thesis using m by simp
    next
      case (Cons x xs)
      then obtain y ys where y: "?b rs' d = y # ys" using m by (cases "?b rs' d") simp_all
      have "x \<in> set (?b rs d)" "y \<in> set (?b rs' d)" by (simp_all only: Cons y list.set_intros)
      then have "x \<in> set rs \<and> y \<in> set rs \<and> ir_TLSAuto x \<and> ir_TLSAuto y \<and> ir_Domain x = ir_Domain y"
        using s by (simp add: domain_routes_def)
      with assms(2) show ?thesis by (simp add: Cons y same_policy_def)
    qed
  qed
  then show ?thesis
    by (simp add: policy_pairs_def sorted_routes_def deciding_blocks distinct_route_domains map_concat comp_def
        route_domains_mset [OF assms(1)] del: One_nat_def)
qed

lemma policy_key_default_ca [simp]: "policy_key (default_ca opts) = policy_key opts"
  by (rule ext) (simp add: policy_key_def default_ca_def)

lemma same_policy_default_ca [simp]: "same_policy (default_ca opts) rs = same_policy opts rs"
  by (simp add: same_policy_def)

lemma healthy_replicas_mset:
  assumes "mset vs = mset vs'" "distinct (map rv_ID vs)"
  shows "healthy_replicas vs now = healthy_replicas vs' now"
  unfolding healthy_replicas_def
  by (rule ext, rule sort_key_mset) (use assms in \<open>auto simp: distinct_map inj_on_def\<close>)

lemma BuildCaddyConfig_mset:
  assumes "mset rs = mset rs'" "keyed_routes rs" "same_policy opts rs"
    and "mset tcp = mset tcp'" "distinct (map it_PublishedPort tcp)"
    and "mset vs = mset vs'" "distinct (map rv_ID vs)"
  shows "BuildCaddyConfig rs tcp vs sv opts = BuildCaddyConfig rs' tcp' vs' sv opts"
proof -
  have d: "route_domains rs = route_domains rs'" using assms(1) by (rule route_domains_mset)
  have h: "healthy_replicas vs now = healthy_replicas vs' now" for now using assms(6,7) by (rule healthy_replicas_mset)
  have b: "buildDomainRoute hb sv e (domain_routes rs e) = buildDomainRoute hb sv e (domain_routes rs' e)" for hb e
    using assms(1,2) by (rule buildDomainRoute_mset)
  have "policy_pairs (default_ca opts) (sorted_routes rs) = policy_pairs (default_ca opts) (sorted_routes rs')"
    using assms(1,3) by (intro policy_pairs_mset) simp_all
  then have p: "buildTLSPolicies (sorted_routes rs) (default_ca opts) = buildTLSPolicies (sorted_routes rs') (default_ca opts)"
    by (simp only: buildTLSPolicies_def policy_groups_pairs)
  have "set rs = set rs'" using assms(1) by (rule mset_eq_setD)
  then have r: "redirectDomainSet (sorted_routes rs) (default_ca opts) = redirectDomainSet (sorted_routes rs') (default_ca opts)"
    by (intro ext) (simp add: redirectDomainSet_def list_ex_iff)
  have "sort_key it_PublishedPort tcp = sort_key it_PublishedPort tcp'"
    by (rule sort_key_mset) (use assms(4,5) in \<open>simp_all add: distinct_map\<close>)
  then have l: "buildLayer4Servers hb sv tcp = buildLayer4Servers hb sv tcp'" for hb by (simp only: buildLayer4Servers_def)
  show ?thesis
    by (simp only: BuildCaddyConfig_def Let_def sorted_routes_def [symmetric]) (simp only: d h b p r l)
qed


section \<open>From the state\<close>

lemma distinct_keys: "store_ok keyFn s \<Longrightarrow> distinct (map keyFn (Store_List s))"
  using Store_List_keys [of keyFn s] by (simp add: store_ok_def)

lemma Store_List_mset:
  assumes "store_ok keyFn s" "store_ok keyFn t" "store_eq s t"
  shows "mset (Store_List s) = mset (Store_List t)"
proof -
  have "distinct (Store_List s)" "distinct (Store_List t)" using distinct_keys assms(1,2) by (auto simp: distinct_map)
  moreover have "set (Store_List s) = set (Store_List t)"
    using assms by (simp add: Store_List_ran store_eq_def)
  ultimately show ?thesis by (simp add: set_eq_iff_mset_eq_distinct)
qed

lemma map_of_listed:
  assumes "store_ok keyFn s"
  shows "map_of (rev (map (\<lambda>v. (keyFn v, f v)) (Store_List s))) k = map_option f (Store_Get s k)"
proof -
  have d: "distinct (map fst (rev (map (\<lambda>v. (keyFn v, f v)) (Store_List s))))"
    using distinct_keys [OF assms] by (simp add: rev_map [symmetric] comp_def)
  show ?thesis
  proof (cases "Store_Get s k")
    case None
    have "k \<noteq> keyFn v" if "v \<in> set (Store_List s)" for v
      using that None Store_Get_key [OF assms] Store_List_ran [OF assms] by (auto simp: ran_def)
    then have "k \<notin> fst ` set (rev (map (\<lambda>v. (keyFn v, f v)) (Store_List s)))" by force
    then show ?thesis using None by (simp only: map_of_eq_None_iff option.map not_False_eq_True)
  next
    case (Some v)
    then have "keyFn v = k" "v \<in> set (Store_List s)"
      using Store_Get_key [OF assms] Store_List_ran [OF assms] by (auto simp: ran_def)
    then show ?thesis using d Some by (auto intro!: map_of_is_SomeI)
  qed
qed

lemma deploymentEmail_eq:
  "state_ok st \<Longrightarrow> deploymentEmail st d = (case Store_Get (Deployments st) d of None \<Rightarrow> '''' | Some dep \<Rightarrow> dp_acme_email dep)"
  using map_of_listed [of dp_name "Deployments st" dp_acme_email d] by (simp add: deploymentEmail_def state_ok_def split: option.split)

lemma desiredByID_eq: "state_ok st \<Longrightarrow> desiredByID st = Store_Get (ReplicasDesired st)"
  using map_of_listed [of rd_id "ReplicasDesired st" "\<lambda>r. r"]
  by (intro ext) (simp add: desiredByID_def state_ok_def option.map_ident)

lemma distinct_map_via: "distinct (map g xs) \<Longrightarrow> \<forall>x y. f x = f y \<longrightarrow> g x = g y \<Longrightarrow> distinct (map f xs)"
  unfolding distinct_map inj_on_def by blast

lemma state_keys:
  assumes "state_ok st"
  shows "keyed_routes (map (to_iroute st) (Store_List (Routes st)))"
    and "distinct (map it_PublishedPort (map to_itcproute (Store_List (TCPRoutes st))))"
    and "distinct (map rv_ID (map (to_view st) (Store_List (ReplicasObserved st))))"
proof -
  have "distinct (map route_key (Store_List (Routes st)))" "distinct (map tcproute_key (Store_List (TCPRoutes st)))"
    "distinct (map ro_id (Store_List (ReplicasObserved st)))" using assms by (simp_all add: state_ok_def distinct_keys)
  then have "distinct (map (\<lambda>r. (rt_domain r, rt_path r)) (Store_List (Routes st)))"
    "distinct (map (\<lambda>r. sint (tr_published_port r)) (Store_List (TCPRoutes st)))"
    "distinct (map ro_id (Store_List (ReplicasObserved st)))"
    by (simp_all add: distinct_map_via [of route_key] distinct_map_via [of tcproute_key] route_key_def tcproute_key_def TCPRouteKey_def)
  then show "keyed_routes (map (to_iroute st) (Store_List (Routes st)))"
    "distinct (map it_PublishedPort (map to_itcproute (Store_List (TCPRoutes st))))"
    "distinct (map rv_ID (map (to_view st) (Store_List (ReplicasObserved st))))"
    by (simp_all add: keyed_routes_def comp_def to_iroute_def to_itcproute_def to_view_def)
qed

text \<open>Addresses of different replicas are added in any order.\<close>

lemma add_address_commute:
  "fst (snd u) \<noteq> fst (snd v) \<Longrightarrow> add_address u \<circ> add_address v = add_address v \<circ> add_address u"
  by (cases u; cases v) (auto simp: add_address_def fun_eq_iff split: option.split)

lemma map_filter_in: "u \<in> set (List.map_filter g xs) \<Longrightarrow> \<exists>x. g x = Some u"
  by (auto simp: map_filter_def)

lemma obs_addresses_id: "u \<in> set (obs_addresses st obs) \<Longrightarrow> fst (snd u) = ro_id obs"
  unfolding obs_addresses_def
  by (cases "Store_Get (ReplicasDesired st) (ro_id obs)")
    (simp_all only: option.case list.set empty_iff, drule map_filter_in, elim exE, auto split: option.splits if_splits)

lemma obs_addresses_commute:
  assumes "ro_id a \<noteq> ro_id b"
  shows "fold add_address (obs_addresses st a) \<circ> fold add_address (obs_addresses st b)
    = fold add_address (obs_addresses st b) \<circ> fold add_address (obs_addresses st a)"
proof (rule fold_commute)
  fix v assume v: "v \<in> set (obs_addresses st b)"
  have "fold add_address (obs_addresses st a) \<circ> add_address v = add_address v \<circ> fold add_address (obs_addresses st a)"
    using assms obs_addresses_id [OF v]
    by (intro fold_commute [symmetric] add_address_commute) (simp add: obs_addresses_id)
  then show "fold add_address (obs_addresses st a) \<circ> add_address v = add_address v \<circ> fold add_address (obs_addresses st a)" .
qed


lemma obs_addresses_eq: "state_eq s t \<Longrightarrow> obs_addresses s = obs_addresses t"
proof -
  assume eq: "state_eq s t"
  have "serviceNetworks s = serviceNetworks t"
    using eq by (intro ext) (simp add: serviceNetworks_def state_eq_def store_eq_def)
  moreover have "Store_Get (ReplicasDesired s) = Store_Get (ReplicasDesired t)" using eq by (simp add: state_eq_def store_eq_def)
  ultimately show ?thesis by (intro ext) (simp only: obs_addresses_def)
qed

lemma fold_concat_blocks: "fold f (concat (map g xs)) a = fold (\<lambda>x. fold f (g x)) xs a"
  by (induction xs arbitrary: a) simp_all

lemma service_metas_eq:
  assumes "state_ok s" "state_ok t" "state_eq s t"
  shows "service_metas s = service_metas t"
proof -
  let ?f = "\<lambda>obs. fold add_address (obs_addresses t obs)"
  have m: "mset (Store_List (ReplicasObserved s)) = mset (Store_List (ReplicasObserved t))"
    using assms by (intro Store_List_mset [of ro_id]) (simp_all add: state_ok_def state_eq_def)
  have d: "distinct (map ro_id (Store_List (ReplicasObserved s)))" using assms(1) by (simp add: state_ok_def distinct_keys)
  have "?f a \<circ> ?f b = ?f b \<circ> ?f a" if "a \<in> set (Store_List (ReplicasObserved s))" "b \<in> set (Store_List (ReplicasObserved s))" for a b
    using that d obs_addresses_commute [of a b t] by (cases "a = b") (auto simp: distinct_map inj_on_def)
  then have "fold ?f (Store_List (ReplicasObserved s)) = fold ?f (Store_List (ReplicasObserved t))"
    using m by (rule fold_multiset_equiv)
  then show ?thesis
    by (simp add: service_metas_def fold_concat_blocks obs_addresses_eq [OF assms(3)])
qed

definition emails_agree :: "State \<Rightarrow> bool" where
  "emails_agree st \<longleftrightarrow> (\<forall>r \<in> set (Store_List (Routes st)). \<forall>r' \<in> set (Store_List (Routes st)).
     rt_tls_auto r \<and> rt_tls_auto r' \<and> rt_domain r = rt_domain r'
     \<longrightarrow> deploymentEmail st (rt_deployment r) = deploymentEmail st (rt_deployment r'))"

lemma emails_agree_same_policy: "emails_agree st \<Longrightarrow> same_policy opts (map (to_iroute st) (Store_List (Routes st)))"
  unfolding emails_agree_def same_policy_def set_map ball_simps(9)
  by (simp only: to_iroute_def policy_key_def IRoute.select_convs) metis



section \<open>Certificates and redirects\<close>

lemma deciding_set: "ir_Domain ` set (deciding seen rs) = ir_Domain ` {r \<in> set rs. ir_TLSAuto r} - seen"
  by (induction rs arbitrary: seen) auto

lemma deciding_distinct: "distinct (map ir_Domain (deciding seen rs))"
  using deciding_set by (induction rs arbitrary: seen) auto

lemma policy_group_member:
  "(k, ds) \<in> set (policy_groups rs opts) \<longleftrightarrow> (\<exists>r \<in> set (deciding {} rs). policy_key opts r = k)
     \<and> ds = sort (map ir_Domain (filter (\<lambda>r. policy_key opts r = k) (deciding {} rs)))"
  unfolding policy_groups_def Let_def set_map set_sort set_remdups by blast

lemma policy_group_covers:
  "(\<exists>ds. (k, ds) \<in> set (policy_groups rs opts) \<and> d \<in> set ds) \<longleftrightarrow> (\<exists>r \<in> set (deciding {} rs). policy_key opts r = k \<and> ir_Domain r = d)"
  unfolding policy_group_member by auto

lemma policy_groups_domains:
  "(\<exists>k ds. (k, ds) \<in> set (policy_groups rs opts) \<and> d \<in> set ds) \<longleftrightarrow> (\<exists>r \<in> set rs. ir_TLSAuto r \<and> ir_Domain r = d)"
proof -
  have "(\<exists>k ds. (k, ds) \<in> set (policy_groups rs opts) \<and> d \<in> set ds) \<longleftrightarrow> d \<in> ir_Domain ` set (deciding {} rs)"
    unfolding policy_group_covers by (auto simp del: split_paired_Ex)
  then show ?thesis unfolding deciding_set by auto
qed

lemma policy_groups_once:
  assumes "\<exists>ds. (k, ds) \<in> set (policy_groups rs opts) \<and> d \<in> set ds" "\<exists>ds. (k', ds) \<in> set (policy_groups rs opts) \<and> d \<in> set ds"
  shows "k = k'"
proof -
  from assms(1) obtain r where r: "r \<in> set (deciding {} rs)" "policy_key opts r = k" "ir_Domain r = d"
    unfolding policy_group_covers by blast
  from assms(2) obtain r' where r': "r' \<in> set (deciding {} rs)" "policy_key opts r' = k'" "ir_Domain r' = d"
    unfolding policy_group_covers by blast
  have "inj_on ir_Domain (set (deciding {} rs))" using deciding_distinct [of "{}" rs] by (simp add: distinct_map)
  from inj_onD [OF this _ r(1) r'(1)] r r' show ?thesis by simp
qed

text \<open>
  C30. A domain is redirected to HTTPS exactly when a certificate policy covers it, at most one policy does, and
  policies are rendered exactly when some domain is redirected.
\<close>

theorem redirect_iff_policy:
  "(redirectDomainSet rs opts d \<longleftrightarrow> bo_ACMEEnabled opts \<and> (\<exists>k ds. (k, ds) \<in> set (policy_groups rs opts) \<and> d \<in> set ds))
   \<and> (\<exists>\<^sub>\<le>\<^sub>1k. \<exists>ds. (k, ds) \<in> set (policy_groups rs opts) \<and> d \<in> set ds)
   \<and> (length (buildTLSPolicies rs opts) > 0 \<longleftrightarrow> (\<exists>e. redirectDomainSet rs opts e))"
proof (intro conjI)
  show "redirectDomainSet rs opts d \<longleftrightarrow> bo_ACMEEnabled opts \<and> (\<exists>k ds. (k, ds) \<in> set (policy_groups rs opts) \<and> d \<in> set ds)"
    unfolding redirectDomainSet_def list_ex_iff policy_groups_domains ..
  show "\<exists>\<^sub>\<le>\<^sub>1k. \<exists>ds. (k, ds) \<in> set (policy_groups rs opts) \<and> d \<in> set ds"
    unfolding Uniq_def by (intro allI impI) (rule policy_groups_once)
  have "policy_groups rs opts = [] \<longleftrightarrow> (\<forall>r \<in> set rs. \<not> ir_TLSAuto r)"
  proof
    assume "policy_groups rs opts = []"
    then show "\<forall>r \<in> set rs. \<not> ir_TLSAuto r" using policy_groups_domains [of rs opts] by auto
  next
    assume "\<forall>r \<in> set rs. \<not> ir_TLSAuto r"
    then have "ir_Domain ` set (deciding {} rs) = {}" unfolding deciding_set by blast
    then have "deciding {} rs = []" by simp
    then show "policy_groups rs opts = []" by (simp add: policy_groups_def)
  qed
  then show "length (buildTLSPolicies rs opts) > 0 \<longleftrightarrow> (\<exists>e. redirectDomainSet rs opts e)"
    by (auto simp: buildTLSPolicies_def redirectDomainSet_def list_ex_iff)
qed

definition second_app :: "json \<Rightarrow> json" where
  "second_app cfg = (case cfg of JObj ((_, JObj (_ # (_, app) # _)) # _) \<Rightarrow> app | _ \<Rightarrow> JNull)"

lemma second_app_config:
  assumes "buildTLSPolicies (sorted_routes rs) (default_ca opts) \<noteq> []"
  shows "second_app (BuildCaddyConfig rs tcp vs sv opts)
    = JObj [(''automation'', JObj [(''policies'', JArr (buildTLSPolicies (sorted_routes rs) (default_ca opts)))])]"
proof -
  have "length (buildTLSPolicies (sorted_routes rs) (default_ca opts)) > 0" using assms by simp
  then show ?thesis
    by (simp only: BuildCaddyConfig_def Let_def sorted_routes_def [symmetric] second_app_def if_True json.case list.case prod.case append.simps)
qed

text \<open>
  The contact for a domain depends on the listing order when two deployments share the domain with
  different contacts: the two orders of their routes give different configurations.
\<close>

theorem acme_email_depends_on_order:
  assumes "bo_ACMEEnabled opts" "ir_TLSAuto r1" "ir_TLSAuto r2" "ir_Domain r1 = ir_Domain r2"
    and "ir_ACMEEmail r1 \<noteq> ''''" "ir_ACMEEmail r2 \<noteq> ''''" "ir_ACMEEmail r1 \<noteq> ir_ACMEEmail r2"
  shows "BuildCaddyConfig [r1, r2] tcp vs sv opts \<noteq> BuildCaddyConfig [r2, r1] tcp vs sv opts"
proof
  assume eq: "BuildCaddyConfig [r1, r2] tcp vs sv opts = BuildCaddyConfig [r2, r1] tcp vs sv opts"
  let ?o = "default_ca opts"
  have s: "sorted_routes [r1, r2] = [r1, r2]" "sorted_routes [r2, r1] = [r2, r1]"
    using assms(4) by (simp_all add: sorted_routes_def route_domains_def domain_routes_def)
  have en: "bo_ACMEEnabled ?o" using assms(1) by (simp add: default_ca_def)
  have g: "policy_groups [r1, r2] ?o = [(policy_key opts r1, [ir_Domain r1])]" "policy_groups [r2, r1] ?o = [(policy_key opts r2, [ir_Domain r2])]"
    using assms(2-4) by (simp_all add: policy_groups_def)
  have "buildTLSPolicies [r1, r2] ?o \<noteq> []" "buildTLSPolicies [r2, r1] ?o \<noteq> []" using en by (simp_all add: buildTLSPolicies_def g)
  with arg_cong [OF eq, of second_app] have "buildTLSPolicies [r1, r2] ?o = buildTLSPolicies [r2, r1] ?o"
    by (simp only: second_app_config s not_False_eq_True json.inject list.inject prod.inject simp_thms)
  then show False
    using en assms(5-7) by (simp add: buildTLSPolicies_def g policy_key_def tlsPolicy_def)
qed


section \<open>The realised view\<close>

lemma map_sort_key_comp: "map f (sort_key (\<lambda>x. k (f x)) xs) = sort_key k (map f xs)"
proof (induction xs)
  case (Cons x xs)
  have "map f (insort_key (\<lambda>x. k (f x)) x ys) = insort_key k (f x) (map f ys)" for ys by (induction ys) simp_all
  with Cons show ?case by simp
qed simp

lemma sort_catch_all_last:
  fixes ps :: "string list"
  assumes "distinct ps"
  shows "sort_key (\<lambda>p. (p = '''', - int (length p), p)) ps
    = sort_key (\<lambda>p. (- int (length p), p)) (filter (\<lambda>p. p \<noteq> '''') ps) @ filter (\<lambda>p. p = '''') ps"
proof (rule sort_key_inj_key_eq)
  let ?ne = "sort_key (\<lambda>p. (- int (length p), p)) (filter (\<lambda>p. p \<noteq> '''') ps)"
  have s: "sorted (map (\<lambda>p. (- int (length p), p)) ?ne)" by (rule sorted_sort_key)
  have ne: "\<forall>p \<in> set ?ne. (p = '''') = False" by simp
  have "sorted (map (\<lambda>p. (p = '''', - int (length p), p)) xs) = sorted (map (\<lambda>p. (- int (length p), p)) xs)"
    if "\<forall>p \<in> set xs. (p = '''') = False" for xs :: "string list"
    using that by (induction xs) (auto simp: less_eq_prod_def)
  with s ne have "sorted (map (\<lambda>p. (p = '''', - int (length p), p)) ?ne)" by blast
  moreover have "sorted (map (\<lambda>p. (p = '''', - int (length p), p)) (filter (\<lambda>p. p = '''') ps))"
    by (induction ps) (auto simp: less_eq_prod_def)
  moreover have "\<forall>p \<in> set ?ne. \<forall>q \<in> set (filter (\<lambda>p. p = '''') ps).
      (p = '''', - int (length p), p) \<le> (q = '''', - int (length q), q)" by (simp add: less_eq_prod_def)
  ultimately show "sorted (map (\<lambda>p. (p = '''', - int (length p), p)) (?ne @ filter (\<lambda>p. p = '''') ps))"
    unfolding map_append sorted_append set_map by blast
qed (simp_all add: inj_on_def mset_filter)

lemma find_first: "find P xs = Some x \<Longrightarrow> \<exists>ys zs. xs = ys @ x # zs \<and> P x \<and> (\<forall>y \<in> set ys. \<not> P y)"
proof (induction xs)
  case (Cons a xs)
  show ?case
  proof (cases "P a")
    case True
    then show ?thesis using Cons.prems by (intro exI [of _ "[]"] exI [of _ xs]) simp
  next
    case False
    then obtain ys zs where "xs = ys @ x # zs" "P x" "\<forall>y \<in> set ys. \<not> P y" using Cons by auto
    then show ?thesis using False by (intro exI [of _ "a # ys"] exI [of _ zs]) simp
  qed
qed simp

lemma longest_path_first:
  assumes "find (\<lambda>r. P (ir_Path r)) (pathRoutes rs) = Some r" "r' \<in> set rs" "ir_Path r' \<noteq> ''''" "P (ir_Path r')"
  shows "length (ir_Path r') \<le> length (ir_Path r)"
proof -
  from find_first [OF assms(1)] obtain ys zs where p: "pathRoutes rs = ys @ r # zs" "\<forall>y \<in> set ys. \<not> P (ir_Path y)" by blast
  have "r' \<in> set (pathRoutes rs)" using assms(2,3) by (simp add: pathRoutes_def)
  with p assms(4) have "r' \<in> set (r # zs)" by auto
  moreover have "sorted (map (\<lambda>r. (- int (length (ir_Path r)), ir_Path r)) (pathRoutes rs))"
    unfolding pathRoutes_def by (rule sorted_sort_key)
  then have "\<forall>x \<in> set zs. (- int (length (ir_Path r)), ir_Path r) \<le> (- int (length (ir_Path x)), ir_Path x)"
    unfolding p(1) by (simp add: sorted_append)
  ultimately show ?thesis by (auto simp: less_eq_prod_def)
qed


lemma eligible_view:
  assumes "HealthFreshness \<le> now"
  shows "isEligible (to_view st obs) now \<longleftrightarrow> isUpstreamEligible obs now"
proof -
  have "replicaStateString s = ''running'' \<longleftrightarrow> s = RS_RUNNING" for s by (cases s) simp_all
  then show ?thesis using assms by (simp add: isEligible_def isUpstreamEligible_def to_view_def split: option.split)
qed

lemma ready_is_healthy:
  assumes "state_ok st" "HealthFreshness \<le> now" "key \<noteq> MetaKey '''' ''''"
  shows "length (healthy_replicas (map (to_view st) (Store_List (ReplicasObserved st))) now key)
    = length (filter (\<lambda>obs. isUpstreamEligible obs now) (observed_of st key))"
proof -
  have "(case Store_Get (ReplicasDesired st) i of None \<Rightarrow> False | Some rd \<Rightarrow> MetaKey (rd_deployment rd) (rd_service rd) = key)
    \<longleftrightarrow> MetaKey (replicaIDDeployment st i) (replicaIDService st i) = key" for i
    using assms(3) by (simp add: replicaIDDeployment_def replicaIDService_def split: option.split)
  then have "observed_of st key = filter (\<lambda>obs. MetaKey (rv_Deployment (to_view st obs)) (rv_Service (to_view st obs)) = key)
      (Store_List (ReplicasObserved st))"
    by (simp add: observed_of_def desiredByID_eq [OF assms(1)] to_view_def)
  then show ?thesis
    by (simp add: healthy_replicas_def filter_map comp_def eligible_view [OF assms(2)] conj_commute)
qed

lemma catch_all_paths:
  assumes "length (filter (\<lambda>r. ir_Path r = '''') rs) \<le> 1"
  shows "map ir_Path (case catchAll rs of None \<Rightarrow> [] | Some r \<Rightarrow> [r]) = filter (\<lambda>p. p = '''') (map ir_Path rs)"
proof -
  obtain ys where ys: "filter (\<lambda>r. ir_Path r = '''') rs = ys" "length ys \<le> 1" using assms by blast
  have "filter (\<lambda>p. p = '''') (map ir_Path rs) = map ir_Path ys" unfolding ys(1) [symmetric] by (simp add: filter_map comp_def)
  moreover have "catchAll rs = (case rev ys of [] \<Rightarrow> None | r # _ \<Rightarrow> Some r)" unfolding ys(1) [symmetric] catchAll_def ..
  ultimately show ?thesis using ys(2) by (cases ys) simp_all
qed

lemma realized_paths:
  assumes "distinct (map rt_path rs)"
  shows "map rt_path (realized_order rs) = sort_key (\<lambda>p. (- int (length p), p)) (filter (\<lambda>p. p \<noteq> '''') (map rt_path rs))
    @ filter (\<lambda>p. p = '''') (map rt_path rs)"
  unfolding realized_order_def sort_catch_all_last [OF assms, symmetric]
  by (rule map_sort_key_comp [of rt_path "\<lambda>p. (p = '''', - int (length p), p)"])

lemma pathRoutes_paths:
  "map ir_Path (pathRoutes rs) = sort_key (\<lambda>p. (- int (length p), p)) (filter (\<lambda>p. p \<noteq> '''') (map ir_Path rs))"
  unfolding pathRoutes_def map_sort_key_comp [of ir_Path "\<lambda>p. (- int (length p), p)"] by (simp add: filter_map comp_def)

text \<open>
  C29. \<open>GetRoute\<close> reports what the proxy serves: the paths of a domain in the order of the configuration, the catch-all last,
  each with the number of replicas the configuration treats as healthy upstreams; and a request is
  matched by the longest path that covers it.
\<close>

theorem GetRoute_mirrors_config:
  assumes "state_ok st" "domain \<noteq> ''''" "HealthFreshness \<le> now"
    and "rs = domain_routes (map (to_iroute st) (Store_List (Routes st))) domain" "rs \<noteq> []"
    and "\<forall>r \<in> set rs. MetaKey (ir_Deployment r) (ir_Service r) \<noteq> MetaKey '''' ''''"
  shows "\<exists>rrs. GetRoute now domain st = Inr rrs
    \<and> map rr_Path rrs = map ir_Path (pathRoutes rs @ (case catchAll rs of None \<Rightarrow> [] | Some r \<Rightarrow> [r]))
    \<and> (\<forall>rr \<in> set rrs. rr_ReadyReplicas rr = of_nat (length (healthy_replicas (map (to_view st) (Store_List (ReplicasObserved st))) now
         (MetaKey (rr_Deployment rr) (rr_Service rr)))))
    \<and> (\<forall>q r r'. find (\<lambda>r. prefix (ir_Path r) q) (pathRoutes rs) = Some r \<and> r' \<in> set rs \<and> ir_Path r' \<noteq> '''' \<and> prefix (ir_Path r') q
         \<longrightarrow> length (ir_Path r') \<le> length (ir_Path r))"
proof -
  define dl where "dl = filter (\<lambda>rt. rt_domain rt = domain) (Store_List (Routes st))"
  have rs: "rs = map (to_iroute st) dl" by (simp add: assms(4) dl_def domain_routes_def filter_map comp_def to_iroute_def)
  have paths: "map ir_Path rs = map rt_path dl" by (simp add: rs to_iroute_def)
  have k: "keyed_routes (map (to_iroute st) (Store_List (Routes st)))" using assms(1) by (rule state_keys)
  then have one: "length (filter (\<lambda>r. ir_Path r = '''') rs) \<le> 1" unfolding assms(4) by (rule keyed_one_catch_all)
  have "keyed_routes rs" using k unfolding assms(4) keyed_routes_def domain_routes_def by (rule distinct_map_filter)
  then have "distinct (map ir_Path rs)"
    by (auto simp: keyed_routes_def assms(4) domain_routes_def distinct_map inj_on_def)
  then have "map rt_path (realized_order dl) = map ir_Path (pathRoutes rs @ (case catchAll rs of None \<Rightarrow> [] | Some r \<Rightarrow> [r]))"
    unfolding map_append catch_all_paths [OF one] pathRoutes_paths paths by (rule realized_paths)
  moreover have "of_nat (length (healthy_replicas (map (to_view st) (Store_List (ReplicasObserved st))) now (MetaKey (rt_deployment rt) (rt_service rt))))
      = fst (upstreamReadiness st now (MetaKey (rt_deployment rt) (rt_service rt)))" if "rt \<in> set dl" for rt
    using ready_is_healthy [OF assms(1,3)] assms(6) that by (simp add: rs to_iroute_def upstreamReadiness_def)
  moreover have "dl \<noteq> []" using assms(5) by (simp add: rs)
  moreover have "set (realized_order dl) = set dl" by (simp add: realized_order_def)
  moreover have "\<forall>q r r'. find (\<lambda>r. prefix (ir_Path r) q) (pathRoutes rs) = Some r \<and> r' \<in> set rs \<and> ir_Path r' \<noteq> '''' \<and> prefix (ir_Path r') q
         \<longrightarrow> length (ir_Path r') \<le> length (ir_Path r)"
    by (intro allI impI) (elim conjE, rule longest_path_first [of "\<lambda>p. prefix p _"])
  ultimately show ?thesis
    using assms(2) by (simp add: GetRoute_def dl_def [symmetric] prod.case_eq_if comp_def Let_def)
qed


section \<open>Examples\<close>

text \<open>One domain with a path route and a catch-all, listed in either order; one healthy replica.\<close>

definition ex_rt :: "string \<Rightarrow> string \<Rightarrow> Route" where
  "ex_rt service path = \<lparr>rt_domain = ''a.io'', rt_deployment = ''web'', rt_service = service, rt_port = 80, rt_tls_auto = True, rt_path = path,
     rt_strip_path = False\<rparr>"

definition ex_ingress :: "Route list \<Rightarrow> State" where
  "ex_ingress rts = State_New\<lparr>Routes := fold (\<lambda>r. put route_key r 1) rts (Routes State_New),
     ReplicasDesired := put rd_id \<lparr>rd_id = ''web-app-0'', rd_deployment = ''web'', rd_service = ''app'', rd_index = 0,
       rd_host = ''n1'', rd_image = ''nginx'', rd_raft_index = 3, rd_spec_hash = ''''\<rparr> 3 (ReplicasDesired State_New),
     ReplicasObserved := put ro_id \<lparr>ro_id = ''web-app-0'', ro_state = RS_RUNNING, ro_code = '''', ro_message = '''',
       ro_details = Map.empty, ro_container_id = ''c1'', ro_host = ''n1'', ro_started_at = None,
       ro_last_health_at = Some 19000000000\<rparr> 4 (ReplicasObserved State_New)\<rparr>"

lemma ex_ingress_ok: "state_ok (ex_ingress [a, b])"
  using state_ok_New by (simp add: ex_ingress_def state_ok_def)

lemma ex_ingress_eq: "route_key a \<noteq> route_key b \<Longrightarrow> state_eq (ex_ingress [a, b]) (ex_ingress [b, a])"
  by (simp add: ex_ingress_def state_eq_def store_eq_def fun_upd_twist)

definition ex_acme :: ingressACMEOpts where
  "ex_acme = \<lparr>io_Email = ''ops@a.io'', io_CA = '''', io_Enabled = True, io_StagingCA = ''''\<rparr>"


definition ex_ir :: "string \<Rightarrow> string \<Rightarrow> IRoute" where
  "ex_ir path email = \<lparr>ir_Domain = ''a.io'', ir_Deployment = ''web'', ir_Service = ''app'', ir_Port = 80, ir_TLSAuto = True, ir_Path = path,
     ir_StripPath = False, ir_ACMEEmail = email\<rparr>"

definition ex_opts :: BuildOpts where
  "ex_opts = \<lparr>bo_ACMEEmail = '''', bo_ACMECA = '''', bo_ACMEEnabled = True, bo_ACMEStagingCA = '''', bo_StagingDomains = (\<lambda>_. False), bo_Now = 0\<rparr>"

theorem acme_email_depends_on_order_witness:
  "BuildCaddyConfig [ex_ir '''' ''x@a.io'', ex_ir ''/api'' ''y@a.io''] [] [] Map.empty ex_opts
   \<noteq> BuildCaddyConfig [ex_ir ''/api'' ''y@a.io'', ex_ir '''' ''x@a.io''] [] [] Map.empty ex_opts"
  by (rule acme_email_depends_on_order) (simp_all add: ex_ir_def ex_opts_def)

theorem GetRoute_mirrors_config_witness:
  "\<exists>rrs. GetRoute 20000000000 ''a.io'' (ex_ingress [ex_rt ''app'' '''', ex_rt ''api'' ''/api'']) = Inr rrs
     \<and> map rr_Path rrs = [''/api'', '''']"
proof -
  let ?st = "ex_ingress [ex_rt ''app'' '''', ex_rt ''api'' ''/api'']"
  define rs where "rs = domain_routes (map (to_iroute ?st) (Store_List (Routes ?st))) ''a.io''"
  have paths: "map ir_Path (pathRoutes rs @ (case catchAll rs of None \<Rightarrow> [] | Some r \<Rightarrow> [r])) = [''/api'', '''']"
    unfolding rs_def by code_simp
  then have ne: "rs \<noteq> []" by (auto simp: pathRoutes_def catchAll_def)
  have "list_all (\<lambda>r. MetaKey (ir_Deployment r) (ir_Service r) \<noteq> MetaKey '''' '''') rs" unfolding rs_def by code_simp
  then have "\<forall>r \<in> set rs. MetaKey (ir_Deployment r) (ir_Service r) \<noteq> MetaKey '''' ''''" by (simp add: list_all_iff)
  with GetRoute_mirrors_config [OF ex_ingress_ok _ _ rs_def ne, of 20000000000] paths show ?thesis by (auto simp: HealthFreshness_def)
qed

end
