(* ===== verification/Spec2Isabelle.thy ===== *)
theory Spec2Isabelle
  imports Snapshot SchedulerRollout Restart Drain Ipam Membership Admission RebalanceProps CertStorageProps DeployProps
    NodeOpsProps Firewall IngressProps
begin

text \<open>
  A verification library for JACO, a cluster orchestrator in Go that runs compose projects on a
  set of hosts. Its parts and how they interact: operators call gRPC handlers; admission decides who
  may; handlers turn requests into commands; raft replicates the commands and every node applies
  them to its copy of the state; stores publish each change to watchers; on the leader the
  scheduler, the rollout and restart policies, the rebalancer and the drain planner read the state
  and submit commands of their own; address management, certificate storage and the membership
  reconciler do the same for subnets, certificates and raft's voters.

  \<^bold>\<open>Conventions.\<close> Go strings and byte slices are \<^typ>\<open>string\<close>; \<open>int32\<close>, \<open>uint64\<close> and octets are words
  of their width; \<open>int\<close> and durations are integers, times nanoseconds, timestamps optional times;
  \<open>float64\<close> is \<^typ>\<open>real\<close>. A Go map is an association list where its order or its events matter and
  a function otherwise; where the order of a map iteration can show, it is an argument. A
  mutex makes its section one step. An error is a value of a sum or option type. Log output is left
  out. Third-party code is a parameter: raft's answer to a submission, protobuf, YAML and
  compose parsing, SHA-256, random bytes, the operating system's faults. Fields carry a short prefix per
  record, and a function whose Go name is taken in HOL carries the name of its package or type.

  \<^bold>\<open>Theories and what they model\<close> (paths under \<^verbatim>\<open>src/internal\<close>).

  \<^item> \<open>Prelude\<close>: types, decimal and hexadecimal printing, composite keys.
  \<^item> \<open>Watch\<close> and \<open>Store\<close>: \<^verbatim>\<open>controlplane/watch/broker.go\<close>, \<^verbatim>\<open>controlplane/state/store.go\<close>. A subscriber
    misses no event without a \<open>Resync\<close>, so that a watcher's copy equals the store. The locale \<open>keyed_store\<close>
    states the laws of a store; all later theories use its interpretation \<open>kst\<close>.
  \<^item> \<open>Entities\<close>, \<open>State\<close>, \<open>Command\<close>, \<open>Fsm\<close>: the replicated entities and \<^verbatim>\<open>controlplane/fsm/fsm.go\<close>, one
    \<open>h_\<close> definition per command. \<open>FsmInvariants\<close> has the locales \<open>fsm_invariant\<close>, \<open>fsm_index_free\<close> and
    \<open>fsm_simulation\<close>, which lift a property of single commands to logs with nested batches;
    \<open>FsmProps\<close> interprets them for well-formedness, audit order, leases, revocation, join tokens and
    the confinement of registry secrets. \<open>FsmWitness\<close> has small replayed clusters.
  \<^item> \<open>Snapshot\<close>: \<^verbatim>\<open>controlplane/fsm/snapshot.go\<close> and \<open>Apply\<close> on encoded commands, refined by the structural one.
  \<^item> \<open>Registry\<close>: canonical registry keys and the credential lookup of \<^verbatim>\<open>runtime/pull/auth.go\<close>.
  \<^item> \<open>Applier\<close>: \<open>(*Node).Apply\<close> of \<^verbatim>\<open>controlplane/raft/node.go\<close> and the locale \<open>raft_applier\<close>, the contract of
    a submission on which all leader-side components rely, interpreted for every behaviour of raft.
  \<^item> \<open>Placement\<close>, \<open>Counter\<close>, \<open>Rollout\<close>, \<open>Scheduler\<close>, \<open>SchedulerProps\<close>, \<open>SchedulerRollout\<close>, \<open>Restart\<close>, \<open>Drain\<close>,
    \<open>Rebalance\<close>, \<open>RebalanceProps\<close>: the packages of \<^verbatim>\<open>scheduler\<close>. A reconcile pass converges and then stops;
    at most one running replica changes its image; restarts give up at the third failure;
    a drain plan is exact; a rebalance cycle makes at most one move and only one that passes every gate.
  \<^item> \<open>NetIP\<close>, \<open>Ipam\<close>: \<^verbatim>\<open>discovery/ipam/ipam.go\<close> with the address functions it uses; subnets never overlap.
  \<^item> \<open>Membership\<close>: \<^verbatim>\<open>controlplane/raft/membership\<close>; ticks are safe and reach the voter target.
  \<^item> \<open>Admission\<close>: \<^verbatim>\<open>controlplane/admission\<close> and \<^verbatim>\<open>daemon/admission\<close>; who passes the gates, exactly.
  \<^item> \<open>CertStorage\<close>, \<open>CertStorageProps\<close>: \<^verbatim>\<open>ingress/storage/storage.go\<close>; locks, renewers, blobs with the disk
    cache, listings.
  \<^item> \<open>JacoSpec\<close>, \<open>Deploy\<close>, \<open>TokenRpc\<close>, \<open>DeployProps\<close>: the handlers of \<^verbatim>\<open>controlplane/grpc\<close> for deployments,
    tokens and registry credentials, composed with the state machine and with admission.
  \<^item> \<open>NodeOps\<close>, \<open>NodeOpsProps\<close>: \<^verbatim>\<open>controlplane/grpc/membership.go\<close> and \<^verbatim>\<open>drain.go\<close>, \<^verbatim>\<open>daemon/grpc/membership.go\<close>
    and \<^verbatim>\<open>subnet_migration.go\<close>: joining with a token, draining and removing a node. A removal always
    returns, and it leaves as many voters as stay or as the target for the smaller cluster allows.
  \<^item> \<open>Firewall\<close>: \<^verbatim>\<open>discovery/firewall\<close>, from the replicated subnets to the nftables text, the self-test and
    the reconciler. The text depends on the set of subnets only, and scopes are isolated as long
    as their set names differ.
  \<^item> \<open>IngressConfig\<close>, \<open>IngressProps\<close>: \<^verbatim>\<open>ingress/config/config.go\<close>, the builder of \<^verbatim>\<open>daemon/grpc/ingress.go\<close> and
    \<^verbatim>\<open>controlplane/grpc/getroute.go\<close>: equal states give equal configurations, redirects go with
    certificate policies, and \<open>GetRoute\<close> reports what the configuration contains.

  \<^bold>\<open>Locales.\<close> \<open>keyed_store\<close>, \<open>fsm_invariant\<close>, \<open>fsm_index_free\<close>, \<open>fsm_simulation\<close> and \<open>raft_applier\<close> are the
  interfaces; each is interpreted on the definitions of the model next to the component that
  provides it, and the properties rest on the facts of these interpretations.

  \<^bold>\<open>Termination and bounds.\<close> There is no fuel. Loops over data are structural or have a measure. The two
  waits of the source are bounded by the code: the drain wait is a partial function whose value may
  be missing, and it is proved to return because each round adds \<open>drainInterval\<close> to the clock until
  \<open>drainDeadline\<close>; background tickers are modelled by one tick and by lists of ticks of any length.
  Integers are kept at their width where the code stores them (\<open>int32\<close> ports and indexes, \<open>uint64\<close>
  counters and revisions, octets of addresses).

  \<^bold>\<open>Not modelled.\<close> Calls into docker, netlink, WireGuard, nft, Caddy, certmagic and the file system beyond
  their faults: the runtime packages, the bridges and the mesh, DNS servers, process start, backup
  archives, x509. The compose loader walks the trees of a YAML library and enters as a parameter
  of the deploy handlers. The command line prints and forwards. Streaming handlers (watch, logs,
  audit follow) only copy from brokers, whose behaviour is in \<open>Watch\<close>. Generated protobuf code is
  represented by the records and datatypes of the model.
\<close>

end
